(* ===== verification/Prelude.thy ===== *)
theory Prelude
  imports Complex_Main "HOL-Library.Sublist"
begin

text \<open>
  What every component shares: Python values as the code sees them (JSON and DynamoDB data),
  the exceptions it raises, and the primitives it uses on values: \<open>isinstance\<close>, truthiness,
  \<open>dict.get\<close>, membership in a constant set of strings, stable sorting.

  A Python \<open>str\<close> is the list of its code points (\<open>pystr\<close>), so that \<open>len\<close>, slices and
  comparison count and order what Python counts and orders. A literal of the source is written
  \<open>str ''RUNNING''\<close>. Texts of exception messages are not modelled, only the exception's class
  and, for a boto3 \<open>ClientError\<close>, the error code the handlers branch on.
\<close>

named_theorems py_simps "evaluation of the primitives on Python values"

section \<open>Strings\<close>

type_synonym pystr = "nat list"

definition str :: "string \<Rightarrow> pystr" where
  "str s = map of_char s"

lemma str_eq_iff [simp]: "str a = str b \<longleftrightarrow> a = b"
proof -
  have "inj (of_char :: char \<Rightarrow> nat)" by (simp add: inj_def)
  then show ?thesis unfolding str_def by (rule inj_map_eq_map)
qed

lemma str_Nil [simp]: "str [] = []"
  by (simp add: str_def)

lemma str_eq_Nil [simp]: "str s = [] \<longleftrightarrow> s = []" "[] = str s \<longleftrightarrow> s = []"
  by (auto simp: str_def)

lemma str_append: "str (a @ b) = str a @ str b"
  by (simp add: str_def)

lemma length_str [simp]: "length (str s) = length s"
  by (simp add: str_def)

lemma inj_str: "inj str"
  by (simp add: inj_def)

lemma str_in_image [simp]: "str s \<in> str ` A \<longleftrightarrow> s \<in> A"
  by auto

section \<open>Values and exceptions\<close>

datatype pyval =
    PNone
  | PBool bool
  | PInt int
  | PFloat rat
  | PDec rat
  | PStr pystr
  | PList "pyval list"
  | PDict "(pystr \<times> pyval) list"

type_synonym pydict = "(pystr \<times> pyval) list"

datatype pyerr =
    ValueError
  | TypeError
  | KeyError
  | IndexError
  | AttributeError
  | AssertionError
  | OverflowError
  | ClientError pystr
  | NoTargetsError
  | DispatchExhaustedError
  | KeywordMatcherExhaustedError
  | TranscribeExhaustedError
  | GsiLookupExhaustedError
  | DdbWriteExhaustedError
  | PermissionError
  | RuntimeError
  | TimeoutError
  | PageLimit

type_synonym 'a res = "pyerr + 'a"

abbreviation raises :: "'a res \<Rightarrow> pyerr \<Rightarrow> bool" where
  "raises r e \<equiv> r = Inl e"

abbreviation returns :: "'a res \<Rightarrow> 'a \<Rightarrow> bool" where
  "returns r x \<equiv> r = Inr x"

fun bind_res :: "'a res \<Rightarrow> ('a \<Rightarrow> 'b res) \<Rightarrow> 'b res" where
  "bind_res (Inl e) f = Inl e"
| "bind_res (Inr x) f = f x"

lemma bind_res_eq_Inr: "bind_res m f = Inr y \<longleftrightarrow> (\<exists>x. m = Inr x \<and> f x = Inr y)"
  by (cases m) auto

lemma bind_res_eq_Inl:
  "bind_res m f = Inl e \<longleftrightarrow> m = Inl e \<or> (\<exists>x. m = Inr x \<and> f x = Inl e)"
  by (cases m) auto

text \<open>\<open>for x in xs\<close> building a list, the first exception ending the loop.\<close>

fun map_res :: "('a \<Rightarrow> 'b res) \<Rightarrow> 'a list \<Rightarrow> 'b list res" where
  "map_res f [] = Inr []"
| "map_res f (x # xs) = bind_res (f x) (\<lambda>y. bind_res (map_res f xs) (\<lambda>ys. Inr (y # ys)))"

lemma map_res_Inr_length: "map_res f xs = Inr ys \<Longrightarrow> length ys = length xs"
  by (induction xs arbitrary: ys) (auto simp: bind_res_eq_Inr)

lemma map_res_total: "(\<And>x. x \<in> set xs \<Longrightarrow> f x = Inr (g x)) \<Longrightarrow> map_res f xs = Inr (map g xs)"
  by (induction xs) auto

section \<open>Types and truth\<close>

fun is_str :: "pyval \<Rightarrow> bool" where
  "is_str (PStr _) = True"
| "is_str _ = False"

fun is_dict :: "pyval \<Rightarrow> bool" where
  "is_dict (PDict _) = True"
| "is_dict _ = False"

fun is_list :: "pyval \<Rightarrow> bool" where
  "is_list (PList _) = True"
| "is_list _ = False"

text \<open>\<open>isinstance(v, int)\<close> holds of the booleans too: \<open>bool\<close> is a subclass of \<open>int\<close>.\<close>

fun is_int :: "pyval \<Rightarrow> bool" where
  "is_int (PInt _) = True"
| "is_int (PBool _) = True"
| "is_int _ = False"

fun is_bool :: "pyval \<Rightarrow> bool" where
  "is_bool (PBool _) = True"
| "is_bool _ = False"

text \<open>The number an \<open>int\<close> instance stands for in comparisons and arithmetic.\<close>

fun int_val :: "pyval \<Rightarrow> int" where
  "int_val (PInt i) = i"
| "int_val (PBool b) = (if b then 1 else 0)"
| "int_val _ = 0"

fun truthy :: "pyval \<Rightarrow> bool" where
  "truthy PNone = False"
| "truthy (PBool b) = b"
| "truthy (PInt i) = (i \<noteq> 0)"
| "truthy (PFloat r) = (r \<noteq> 0)"
| "truthy (PDec r) = (r \<noteq> 0)"
| "truthy (PStr s) = (s \<noteq> [])"
| "truthy (PList xs) = (xs \<noteq> [])"
| "truthy (PDict d) = (d \<noteq> [])"

text \<open>\<open>not isinstance(v, str) or not v\<close> is the negation of \<open>nonempty_str v\<close>.\<close>

fun nonempty_str :: "pyval \<Rightarrow> bool" where
  "nonempty_str (PStr s) = (s \<noteq> [])"
| "nonempty_str _ = False"

fun str_of :: "pyval \<Rightarrow> pystr" where
  "str_of (PStr s) = s"
| "str_of _ = []"

fun items_of :: "pyval \<Rightarrow> pydict" where
  "items_of (PDict d) = d"
| "items_of _ = []"

fun elems_of :: "pyval \<Rightarrow> pyval list" where
  "elems_of (PList xs) = xs"
| "elems_of _ = []"

lemma is_strE: "is_str v \<Longrightarrow> (\<And>s. v = PStr s \<Longrightarrow> P) \<Longrightarrow> P"
  by (cases v) auto

lemma is_dictE: "is_dict v \<Longrightarrow> (\<And>d. v = PDict d \<Longrightarrow> P) \<Longrightarrow> P"
  by (cases v) auto

lemma is_listE: "is_list v \<Longrightarrow> (\<And>xs. v = PList xs \<Longrightarrow> P) \<Longrightarrow> P"
  by (cases v) auto

lemma nonempty_strE: "nonempty_str v \<Longrightarrow> (\<And>s. v = PStr s \<Longrightarrow> s \<noteq> [] \<Longrightarrow> P) \<Longrightarrow> P"
  by (cases v) auto

lemma nonempty_str_iff: "nonempty_str v \<longleftrightarrow> (\<exists>s. v = PStr s \<and> s \<noteq> [])"
  by (cases v) auto

lemma nonempty_str_is_str: "nonempty_str v \<Longrightarrow> is_str v"
  by (cases v) auto

lemma nonempty_str_truthy: "nonempty_str v \<Longrightarrow> truthy v"
  by (cases v) auto

section \<open>Dictionaries\<close>

text \<open>
  A \<open>dict\<close> with string keys is the list of its items in insertion order. \<open>dfind d k\<close> is the
  lookup of the literal key \<open>k\<close>, \<open>dget d k\<close> is \<open>d.get(k)\<close>, \<open>dget_or d k v\<close> is \<open>d.get(k, v)\<close>.
\<close>

definition dfind :: "pydict \<Rightarrow> string \<Rightarrow> pyval option" where
  "dfind d k = map_of d (str k)"

definition dget :: "pydict \<Rightarrow> string \<Rightarrow> pyval" where
  "dget d k = (case dfind d k of None \<Rightarrow> PNone | Some v \<Rightarrow> v)"

definition dget_or :: "pydict \<Rightarrow> string \<Rightarrow> pyval \<Rightarrow> pyval" where
  "dget_or d k v = (case dfind d k of None \<Rightarrow> v | Some x \<Rightarrow> x)"

definition has_key :: "pydict \<Rightarrow> string \<Rightarrow> bool" where
  "has_key d k \<longleftrightarrow> dfind d k \<noteq> None"

text \<open>\<open>d[k]\<close> raises \<open>KeyError\<close> when the key is absent.\<close>

definition dindex :: "pydict \<Rightarrow> string \<Rightarrow> pyval res" where
  "dindex d k = (case dfind d k of None \<Rightarrow> Inl KeyError | Some v \<Rightarrow> Inr v)"

text \<open>\<open>d[k] = v\<close> keeps the position of an existing key and appends a new one.\<close>

fun dset :: "pydict \<Rightarrow> pystr \<Rightarrow> pyval \<Rightarrow> pydict" where
  "dset [] k v = [(k, v)]"
| "dset ((k', v') # d) k v = (if k' = k then (k, v) # d else (k', v') # dset d k v)"

text \<open>\<open>v.get(k)\<close> on a value that may not be a \<open>dict\<close>: an \<open>AttributeError\<close> then.\<close>

definition vget_or :: "pyval \<Rightarrow> string \<Rightarrow> pyval \<Rightarrow> pyval res" where
  "vget_or v k dflt = (case v of PDict d \<Rightarrow> Inr (dget_or d k dflt) | _ \<Rightarrow> Inl AttributeError)"

lemma dfind_Nil [simp]: "dfind [] k = None"
  by (simp add: dfind_def)

lemma dfind_Cons_str [simp]:
  "dfind ((str k', v) # d) k = (if k' = k then Some v else dfind d k)"
  by (simp add: dfind_def)

lemma dget_Nil [simp]: "dget [] k = PNone"
  by (simp add: dget_def)

lemma dget_Cons_str [simp]:
  "dget ((str k', v) # d) k = (if k' = k then v else dget d k)"
  by (simp add: dget_def)

lemma dget_or_Nil [simp]: "dget_or [] k x = x"
  by (simp add: dget_or_def)

lemma dget_or_Cons_str [simp]:
  "dget_or ((str k', v) # d) k x = (if k' = k then v else dget_or d k x)"
  by (simp add: dget_or_def)

lemma map_of_dset: "map_of (dset d k v) = (map_of d)(k \<mapsto> v)"
  by (induction d k v rule: dset.induct) (auto simp: fun_eq_iff)

lemma dfind_dset [simp]: "dfind (dset d (str k') v) k = (if k' = k then Some v else dfind d k)"
  by (simp add: dfind_def map_of_dset)

lemma dget_dset [simp]: "dget (dset d (str k') v) k = (if k' = k then v else dget d k)"
  by (simp add: dget_def)

lemma dget_or_dset [simp]:
  "dget_or (dset d (str k') v) k x = (if k' = k then v else dget_or d k x)"
  by (simp add: dget_or_def)

lemma has_key_dset [simp]: "has_key (dset d (str k') v) k \<longleftrightarrow> k' = k \<or> has_key d k"
  by (simp add: has_key_def)

lemma dget_or_PNone: "dget_or d k PNone = dget d k"
  by (simp add: dget_or_def dget_def)

lemma dget_or_present: "has_key d k \<Longrightarrow> dget_or d k x = dget d k"
  by (auto simp: has_key_def dget_or_def dget_def)

lemma keys_dset: "fst ` set (dset d k v) = insert k (fst ` set d)"
  by (induction d k v rule: dset.induct) auto

lemma distinct_dset: "distinct (map fst d) \<Longrightarrow> distinct (map fst (dset d k v))"
proof (induction d k v rule: dset.induct)
  case (2 k' v' d k v)
  then show ?case using keys_dset [of d k v] by (auto simp: image_iff)
qed simp

section \<open>Membership in a constant set of strings\<close>

text \<open>
  \<open>v in frozenset({...})\<close> hashes \<open>v\<close> first, and a list or a dict is unhashable: Python raises
  \<open>TypeError\<close>. Every other value that is not one of the strings is simply not a member.
\<close>

fun hashable :: "pyval \<Rightarrow> bool" where
  "hashable (PList _) = False"
| "hashable (PDict _) = False"
| "hashable _ = True"

fun is_one_of :: "pyval \<Rightarrow> string list \<Rightarrow> bool" where
  "is_one_of (PStr s) xs = (s \<in> set (map str xs))"
| "is_one_of _ xs = False"

definition in_set :: "pyval \<Rightarrow> string list \<Rightarrow> bool res" where
  "in_set v xs = (if hashable v then Inr (is_one_of v xs) else Inl TypeError)"

lemma in_set_str [simp]: "in_set (PStr s) xs = Inr (s \<in> set (map str xs))"
  by (simp add: in_set_def)

lemma in_set_Inr: "in_set v xs = Inr b \<longleftrightarrow> hashable v \<and> b = is_one_of v xs"
  by (auto simp: in_set_def)

lemma is_one_ofE: "is_one_of v xs \<Longrightarrow> (\<And>x. v = PStr (str x) \<Longrightarrow> x \<in> set xs \<Longrightarrow> P) \<Longrightarrow> P"
  by (cases v) auto

lemma is_one_of_iff: "is_one_of v xs \<longleftrightarrow> (\<exists>x\<in>set xs. v = PStr (str x))"
  by (cases v) auto

lemma is_one_of_hashable: "is_one_of v xs \<Longrightarrow> hashable v"
  by (cases v) auto

section \<open>Order and sorting of strings\<close>

text \<open>Python compares strings by code point, the shorter first on a common prefix.\<close>

fun str_le :: "pystr \<Rightarrow> pystr \<Rightarrow> bool" where
  "str_le [] _ = True"
| "str_le (_ # _) [] = False"
| "str_le (x # xs) (y # ys) = (x < y \<or> x = y \<and> str_le xs ys)"

abbreviation str_less :: "pystr \<Rightarrow> pystr \<Rightarrow> bool" where
  "str_less a b \<equiv> \<not> str_le b a"

lemma str_le_refl [simp]: "str_le a a"
  by (induction a) auto

lemma str_le_total: "str_le a b \<or> str_le b a"
  by (induction a b rule: str_le.induct) auto

lemma str_le_trans: "str_le a b \<Longrightarrow> str_le b c \<Longrightarrow> str_le a c"
proof (induction a b arbitrary: c rule: str_le.induct)
  case (3 x xs y ys)
  then show ?case by (cases c) auto
qed auto

lemma str_le_antisym: "str_le a b \<Longrightarrow> str_le b a \<Longrightarrow> a = b"
proof (induction a b rule: str_le.induct)
  case (1 b)
  then show ?case by (cases b) auto
qed auto

text \<open>A stable insertion sort by a key: equal keys keep their order, as \<open>sorted\<close> does.\<close>

fun insort_by :: "('a \<Rightarrow> 'a \<Rightarrow> bool) \<Rightarrow> 'a \<Rightarrow> 'a list \<Rightarrow> 'a list" where
  "insort_by le x [] = [x]"
| "insort_by le x (y # ys) = (if le x y then x # y # ys else y # insort_by le x ys)"

definition sort_by :: "('a \<Rightarrow> 'a \<Rightarrow> bool) \<Rightarrow> 'a list \<Rightarrow> 'a list" where
  "sort_by le xs = foldr (insort_by le) xs []"

lemma set_insort_by [simp]: "set (insort_by le x xs) = insert x (set xs)"
  by (induction le x xs rule: insort_by.induct) auto

lemma length_insort_by [simp]: "length (insort_by le x xs) = Suc (length xs)"
  by (induction le x xs rule: insort_by.induct) auto

lemma set_sort_by [simp]: "set (sort_by le xs) = set xs"
  by (induction xs) (auto simp: sort_by_def)

lemma length_sort_by [simp]: "length (sort_by le xs) = length xs"
  by (induction xs) (auto simp: sort_by_def)

lemma sorted_insort_by:
  assumes tot: "\<And>a b. le a b \<or> le b a" and tr: "\<And>a b c. le a b \<Longrightarrow> le b c \<Longrightarrow> le a c"
  shows "sorted_wrt le xs \<Longrightarrow> sorted_wrt le (insort_by le x xs)"
proof (induction xs)
  case (Cons y ys)
  then show ?case using tot [of x y] by (auto intro: tr)
qed simp

lemma sorted_sort_by:
  assumes "\<And>a b. le a b \<or> le b a" and "\<And>a b c. le a b \<Longrightarrow> le b c \<Longrightarrow> le a c"
  shows "sorted_wrt le (sort_by le xs)"
proof (induction xs)
  case Nil
  show ?case by (simp add: sort_by_def)
next
  case (Cons x xs)
  then show ?case using sorted_insort_by [OF assms] by (simp add: sort_by_def)
qed

lemmas py_eval =
  dfind_def dget_def dget_or_def has_key_def dindex_def in_set_def

lemmas [py_simps] =
  bind_res_eq_Inr bind_res_eq_Inl in_set_Inr nonempty_str_iff is_one_of_iff

end
