(* ===== verification/Py_Text.thy ===== *)
theory Py_Text
  imports Prelude
begin

text \<open>
  The text primitives of Python the code uses: \<open>str(int)\<close> and \<open>int(str)\<close>, \<open>strip\<close> and \<open>split\<close>,
  the classes \<open>\d\<close> and \<open>\s\<close> of \<open>re\<close> on \<open>str\<close> patterns, prefixes and replacement of characters.
  The two tables are those of Unicode 15.0, which Python 3.12 carries: the first code points of the
  decimal-digit blocks (ten digits each, category Nd) and the white space of \<open>str.isspace\<close>.
\<close>

section \<open>Character classes\<close>

definition nd_blocks :: "nat list" where
  "nd_blocks =
    [48, 1632, 1776, 1984, 2406, 2534, 2662, 2790, 2918, 3046, 3174, 3302, 3430, 3558, 3664,
     3792, 3872, 4160, 4240, 6112, 6160, 6470, 6608, 6784, 6800, 6992, 7088, 7232, 7248, 42528,
     43216, 43264, 43472, 43504, 43600, 44016, 65296, 66720, 68912, 69734, 69872, 69942, 70096,
     70384, 70736, 70864, 71248, 71360, 71472, 71904, 72016, 72784, 73040, 73120, 73552, 92768,
     92864, 93008, 120782, 120792, 120802, 120812, 120822, 123200, 123632, 124144, 125264, 130032]"

definition spaces :: "nat list" where
  "spaces =
    [9, 10, 11, 12, 13, 28, 29, 30, 31, 32, 133, 160, 5760, 8192, 8193, 8194, 8195, 8196, 8197,
     8198, 8199, 8200, 8201, 8202, 8232, 8233, 8239, 8287, 12288]"

definition is_space :: "nat \<Rightarrow> bool" where
  "is_space c \<longleftrightarrow> c \<in> set spaces"

text \<open>The value of a decimal digit, \<open>None\<close> for every other code point; \<open>\d\<close> matches the digits.\<close>

definition digit_value :: "nat \<Rightarrow> nat option" where
  "digit_value c = (case filter (\<lambda>b. b \<le> c \<and> c < b + 10) nd_blocks of
     [] \<Rightarrow> None | b # _ \<Rightarrow> Some (c - b))"

definition is_digit :: "nat \<Rightarrow> bool" where
  "is_digit c \<longleftrightarrow> digit_value c \<noteq> None"

definition is_ascii_digit :: "nat \<Rightarrow> bool" where
  "is_ascii_digit c \<longleftrightarrow> 48 \<le> c \<and> c < 58"

lemma digit_value_ascii: "d < 10 \<Longrightarrow> digit_value (48 + d) = Some d"
  by (simp add: digit_value_def nd_blocks_def)

lemma ascii_digit_is_digit: "is_ascii_digit c \<Longrightarrow> is_digit c"
  using digit_value_ascii [of "c - 48"] by (auto simp: is_ascii_digit_def is_digit_def)

lemma ascii_digit_not_space: "is_ascii_digit c \<Longrightarrow> \<not> is_space c"
  by (auto simp: is_ascii_digit_def is_space_def spaces_def)

section \<open>strip, split, startswith, replace\<close>

definition lstrip :: "pystr \<Rightarrow> pystr" where
  "lstrip s = dropWhile is_space s"

definition py_strip :: "pystr \<Rightarrow> pystr" where
  "py_strip s = rev (lstrip (rev (lstrip s)))"

lemma length_py_strip: "length (py_strip s) \<le> length s"
  using length_dropWhile_le [of is_space s] length_dropWhile_le [of is_space "rev (lstrip s)"]
  unfolding py_strip_def lstrip_def by simp

lemma py_strip_id: "(\<And>c. c \<in> set s \<Longrightarrow> \<not> is_space c) \<Longrightarrow> py_strip s = s"
proof -
  assume ns: "\<And>c. c \<in> set s \<Longrightarrow> \<not> is_space c"
  have "dropWhile is_space t = t" if "set t \<subseteq> set s" for t
    using that ns by (cases t) auto
  then show ?thesis by (simp add: py_strip_def lstrip_def)
qed

text \<open>\<open>s.split()\<close>: the maximal runs of non-space characters.\<close>

fun split_acc :: "pystr \<Rightarrow> pystr \<Rightarrow> pystr list" where
  "split_acc w [] = (if w = [] then [] else [rev w])"
| "split_acc w (c # cs) =
     (if is_space c then (if w = [] then split_acc [] cs else rev w # split_acc [] cs)
      else split_acc (c # w) cs)"

definition py_split :: "pystr \<Rightarrow> pystr list" where
  "py_split s = split_acc [] s"

lemma split_acc_tokens:
  "(\<forall>c\<in>set w. \<not> is_space c) \<Longrightarrow> t \<in> set (split_acc w s) \<Longrightarrow>
     t \<noteq> [] \<and> (\<forall>c\<in>set t. \<not> is_space c)"
proof (induction s arbitrary: w)
  case Nil
  then show ?case by (simp split: if_split_asm)
next
  case (Cons c cs)
  show ?case
  proof (cases "is_space c")
    case True
    with Cons.prems have "t \<in> set (split_acc [] cs) \<or> (w \<noteq> [] \<and> t = rev w)"
      by (simp split: if_split_asm) blast
    then show ?thesis
    proof
      assume "t \<in> set (split_acc [] cs)"
      with Cons.IH [of "[]"] show ?thesis by simp
    next
      assume "w \<noteq> [] \<and> t = rev w"
      with Cons.prems(1) show ?thesis by simp
    qed
  next
    case False
    then have "t \<in> set (split_acc (c # w) cs)" and "\<forall>x\<in>set (c # w). \<not> is_space x"
      using Cons.prems by auto
    then show ?thesis by (rule Cons.IH [rotated])
  qed
qed

lemma py_split_tokens: "t \<in> set (py_split s) \<Longrightarrow> t \<noteq> [] \<and> (\<forall>c\<in>set t. \<not> is_space c)"
  unfolding py_split_def by (rule split_acc_tokens) auto

definition starts_with :: "pystr \<Rightarrow> string \<Rightarrow> bool" where
  "starts_with s p \<longleftrightarrow> take (length p) s = str p"

lemma starts_with_append [simp]: "starts_with (str p @ s) p"
  by (simp add: starts_with_def)

definition replace_char :: "nat \<Rightarrow> nat \<Rightarrow> pystr \<Rightarrow> pystr" where
  "replace_char a b s = map (\<lambda>c. if c = a then b else c) s"

section \<open>str(int) and int(str)\<close>

fun nat_str :: "nat \<Rightarrow> pystr" where
  "nat_str n = (if n < 10 then [48 + n] else nat_str (n div 10) @ [48 + n mod 10])"

declare nat_str.simps [simp del]

definition int_str :: "int \<Rightarrow> pystr" where
  "int_str i = (if i < 0 then str ''-'' @ nat_str (nat (- i)) else nat_str (nat i))"

lemma nat_str_digits: "c \<in> set (nat_str n) \<Longrightarrow> is_ascii_digit c"
proof (induction n rule: nat_str.induct)
  case (1 n)
  then show ?case
    by (subst (asm) nat_str.simps) (auto simp: is_ascii_digit_def split: if_splits)
qed

lemma nat_str_nonempty [simp]: "nat_str n \<noteq> []"
  by (subst nat_str.simps) simp

text \<open>
  \<open>int(text)\<close>: surrounding white space, an optional sign, decimal digits of any script with single
  underscores between them. Anything else raises \<open>ValueError\<close> (here \<open>None\<close>).
\<close>

fun digits_value :: "nat \<Rightarrow> pystr \<Rightarrow> nat option" where
  "digits_value a [] = Some a"
| "digits_value a (c # cs) =
     (case digit_value c of
        Some d \<Rightarrow> digits_value (10 * a + d) cs
      | None \<Rightarrow>
          (if c = 95 then
             (case cs of
                [] \<Rightarrow> None
              | c' # cs' \<Rightarrow>
                  (case digit_value c' of
                     Some d \<Rightarrow> digits_value (10 * a + d) cs' | None \<Rightarrow> None))
           else None))"

definition py_nat :: "pystr \<Rightarrow> nat option" where
  "py_nat s = (case s of
     [] \<Rightarrow> None
   | c # cs \<Rightarrow> (case digit_value c of Some d \<Rightarrow> digits_value d cs | None \<Rightarrow> None))"

definition py_int_of_str :: "pystr \<Rightarrow> int option" where
  "py_int_of_str s = (case py_strip s of
     [] \<Rightarrow> None
   | c # cs \<Rightarrow>
       (if c = 45 then map_option (\<lambda>n. - int n) (py_nat cs)
        else if c = 43 then map_option int (py_nat cs)
        else map_option int (py_nat (c # cs))))"

lemma digits_value_append:
  "(\<And>c. c \<in> set xs \<Longrightarrow> is_digit c) \<Longrightarrow>
     digits_value a (xs @ ys) =
       (case digits_value a xs of Some b \<Rightarrow> digits_value b ys | None \<Rightarrow> None)"
proof (induction xs arbitrary: a)
  case (Cons c cs)
  then obtain d where "digit_value c = Some d" by (auto simp: is_digit_def)
  with Cons show ?case by auto
qed simp

lemma digits_value_nat_str: "digits_value 0 (nat_str n) = Some n"
proof (induction n rule: nat_str.induct)
  case (1 n)
  show ?case
  proof (cases "n < 10")
    case True
    then show ?thesis by (subst nat_str.simps) (simp add: digit_value_ascii)
  next
    case False
    have "c \<in> set (nat_str (n div 10)) \<Longrightarrow> is_digit c" for c
      by (rule ascii_digit_is_digit) (rule nat_str_digits)
    with False "1.IH" have
      "digits_value 0 (nat_str (n div 10) @ [48 + n mod 10]) = digits_value (n div 10) [48 + n mod 10]"
      by (simp add: digits_value_append)
    also have "\<dots> = Some n" by (simp add: digit_value_ascii)
    finally show ?thesis using False by (subst nat_str.simps) simp
  qed
qed

lemma py_nat_nat_str: "py_nat (nat_str n) = Some n"
proof -
  obtain c cs where s: "nat_str n = c # cs" by (cases "nat_str n") auto
  then have "is_digit c" using nat_str_digits [of c n] by (auto intro: ascii_digit_is_digit)
  then obtain d where d: "digit_value c = Some d" by (auto simp: is_digit_def)
  show ?thesis using digits_value_nat_str [of n] s d by (simp add: py_nat_def)
qed

lemma nat_str_strip: "py_strip (nat_str n) = nat_str n"
  by (rule py_strip_id) (use nat_str_digits ascii_digit_not_space in blast)

lemma py_int_nat_str: "py_int_of_str (nat_str n) = Some (int n)"
proof -
  obtain c cs where s: "nat_str n = c # cs" by (cases "nat_str n") auto
  then have "is_ascii_digit c" using nat_str_digits [of c n] by auto
  then have "c \<noteq> 45" "c \<noteq> 43" by (auto simp: is_ascii_digit_def)
  then show ?thesis
    using py_nat_nat_str [of n] nat_str_strip [of n] s by (simp add: py_int_of_str_def)
qed

lemma py_int_int_str: "py_int_of_str (int_str i) = Some i"
proof (cases "i < 0")
  case False
  then show ?thesis by (simp add: int_str_def py_int_nat_str)
next
  case True
  have m: "str ''-'' = [45]" by (simp add: str_def)
  have "\<not> is_space 45" by (simp add: is_space_def spaces_def)
  then have "\<not> is_space c" if "c \<in> set (45 # nat_str (nat (- i)))" for c
    using that nat_str_digits [of c "nat (- i)"] ascii_digit_not_space [of c]
    by (metis set_ConsD)
  then have "py_strip (45 # nat_str (nat (- i))) = 45 # nat_str (nat (- i))"
    by (rule py_strip_id)
  with True show ?thesis by (simp add: int_str_def m py_int_of_str_def py_nat_nat_str)
qed

lemma int_str_inj: "int_str i = int_str j \<Longrightarrow> i = j"
  by (metis py_int_int_str option.inject)

text \<open>
  \<open>int(v)\<close> on a value, and \<open>int(str(v))\<close>, which the handlers apply to DynamoDB numbers: a \<open>Decimal\<close>
  with an integral value prints as that integer, any other number prints a text \<open>int\<close> refuses.
\<close>

definition rat_trunc :: "rat \<Rightarrow> int" where
  "rat_trunc r = (if r < 0 then - \<lfloor>- r\<rfloor> else \<lfloor>r\<rfloor>)"

fun py_int :: "pyval \<Rightarrow> int res" where
  "py_int (PInt i) = Inr i"
| "py_int (PBool b) = Inr (if b then 1 else 0)"
| "py_int (PDec r) = Inr (rat_trunc r)"
| "py_int (PFloat r) = Inr (rat_trunc r)"
| "py_int (PStr s) = (case py_int_of_str s of Some i \<Rightarrow> Inr i | None \<Rightarrow> Inl ValueError)"
| "py_int _ = Inl TypeError"

fun py_int_str :: "pyval \<Rightarrow> int res" where
  "py_int_str (PInt i) = Inr i"
| "py_int_str (PDec r) = (if of_int \<lfloor>r\<rfloor> = r then Inr \<lfloor>r\<rfloor> else Inl ValueError)"
| "py_int_str (PStr s) = (case py_int_of_str s of Some i \<Rightarrow> Inr i | None \<Rightarrow> Inl ValueError)"
| "py_int_str _ = Inl ValueError"

lemma py_int_of_dec [simp]: "py_int (PDec (of_int i)) = Inr i"
  by (simp add: rat_trunc_def)

text \<open>
  \<open>str(v)\<close>. The text of a float, a \<open>Decimal\<close> or a container is the argument \<open>show\<close>: no property
  needs to know it.
\<close>

definition py_str :: "(pyval \<Rightarrow> pystr) \<Rightarrow> pyval \<Rightarrow> pystr" where
  "py_str show_val v = (case v of
     PStr s \<Rightarrow> s
   | PNone \<Rightarrow> str ''None''
   | PBool b \<Rightarrow> str (if b then ''True'' else ''False'')
   | PInt i \<Rightarrow> int_str i
   | _ \<Rightarrow> show_val v)"

end
