(* ===== verification/Call_Result.thy ===== *)
theory Call_Result
  imports Py_Text
begin

text \<open>
  \<open>backend/shared/connect/call_result.py\<close>: the classification of a finished call into one of the
  six \<open>callResultCode\<close> values, from Connect's disconnect reason, the state of the Transcribe job
  and whether a recording was captured.
\<close>

section \<open>Vocabulary\<close>

definition valid_call_result_codes :: "string list" where
  "valid_call_result_codes =
     [''RECORDED'', ''NO_ANSWER'', ''BUSY'', ''VOICEMAIL'', ''ERROR'', ''TRANSCRIBE_FAILED'']"

definition no_answer_reasons :: "string list" where
  "no_answer_reasons =
     [''NO_ANSWER'', ''NO_USER_RESPONSE'', ''EXPIRED'', ''TIMEOUT'', ''RING_TIMEOUT'']"

definition busy_reasons :: "string list" where
  "busy_reasons = [''BUSY'', ''LINE_BUSY'', ''USER_BUSY'']"

definition voicemail_reasons :: "string list" where
  "voicemail_reasons = [''VOICEMAIL'', ''ANSWERING_MACHINE'', ''ANSWERING_MACHINE_DETECTED'']"

definition error_reasons :: "string list" where
  "error_reasons =
     [''API_ERROR'', ''ERROR'', ''REJECT'', ''REJECTED'', ''FAILED'', ''TELECOM_PROBLEM'',
      ''ENDPOINT_ERROR'', ''DISPATCH_FAILED'', ''USER_NOT_AVAILABLE'']"

definition connected_reasons :: "string list" where
  "connected_reasons =
     [''CUSTOMER_DISCONNECT'', ''CONTACT_FLOW_DISCONNECT'', ''AGENT_DISCONNECT'',
      ''NORMAL_HANGUP'', ''HANGUP'', ''OK'', ''NORMAL'']"

definition all_reasons :: "string list" where
  "all_reasons =
     no_answer_reasons @ busy_reasons @ voicemail_reasons @ error_reasons @ connected_reasons"

text \<open>The import-time overlap check: no pair of buckets shares a reason.\<close>

definition reason_buckets :: "string list list" where
  "reason_buckets =
     [no_answer_reasons, busy_reasons, voicemail_reasons, error_reasons, connected_reasons]"

fun buckets_disjoint :: "string list list \<Rightarrow> bool" where
  "buckets_disjoint [] = True"
| "buckets_disjoint (b # bs) =
     (list_all (\<lambda>c. list_all (\<lambda>r. \<not> List.member c r) b) bs \<and> buckets_disjoint bs)"

definition ts_completed :: "string list" where
  "ts_completed = [''COMPLETED'']"

definition ts_failed :: "string list" where
  "ts_failed = [''FAILED'']"

definition ts_pending :: "string list" where
  "ts_pending = [''QUEUED'', ''IN_PROGRESS'']"

definition all_transcribe_statuses :: "string list" where
  "all_transcribe_statuses = ts_completed @ ts_failed @ ts_pending"

section \<open>Normalisation\<close>

text \<open>
  \<open>str.upper\<close>, as far as a comparison with ASCII words can tell: the ASCII letters, and the ten
  other characters whose upper case is ASCII (dotless i, sharp s, long s and the Latin ligatures).
  Every other character keeps or gets a non-ASCII upper case and is left as it is.
\<close>

definition upper_char :: "nat \<Rightarrow> pystr" where
  "upper_char c =
     (if 97 \<le> c \<and> c \<le> 122 then [c - 32]
      else if c = 223 then str ''SS''
      else if c = 305 then str ''I''
      else if c = 383 then str ''S''
      else if c = 64256 then str ''FF''
      else if c = 64257 then str ''FI''
      else if c = 64258 then str ''FL''
      else if c = 64259 then str ''FFI''
      else if c = 64260 then str ''FFL''
      else if c = 64261 \<or> c = 64262 then str ''ST''
      else [c])"

definition upper :: "pystr \<Rightarrow> pystr" where
  "upper s = concat (map upper_char s)"

text \<open>The replacements of \<open>-\<close> (45) and of the space (32) by \<open>_\<close> (95).\<close>

definition normalise :: "pystr \<Rightarrow> pystr" where
  "normalise s = replace_char 32 95 (replace_char 45 95 (upper (py_strip s)))"

definition normalise_transcribe_status :: "pyval \<Rightarrow> pyval res" where
  "normalise_transcribe_status ts = (case ts of
     PNone \<Rightarrow> Inr PNone
   | PStr s \<Rightarrow>
       (if py_strip s = [] then Inr PNone
        else if is_one_of (PStr (normalise s)) all_transcribe_statuses
        then Inr (PStr (normalise s))
        else Inl ValueError)
   | _ \<Rightarrow> Inl ValueError)"

section \<open>The classifier\<close>

definition classify_non_connected :: "pystr \<Rightarrow> string option" where
  "classify_non_connected reason_n =
     (if is_one_of (PStr reason_n) no_answer_reasons then Some ''NO_ANSWER''
      else if is_one_of (PStr reason_n) busy_reasons then Some ''BUSY''
      else if is_one_of (PStr reason_n) voicemail_reasons then Some ''VOICEMAIL''
      else if is_one_of (PStr reason_n) error_reasons then Some ''ERROR''
      else None)"

definition classify_connected :: "pyval \<Rightarrow> bool \<Rightarrow> string res" where
  "classify_connected ts_n recorded =
     (if \<not> recorded then Inr ''ERROR''
      else if ts_n = PNone \<or> is_one_of ts_n ts_pending then Inr ''RECORDED''
      else if is_one_of ts_n ts_completed then Inr ''RECORDED''
      else if is_one_of ts_n ts_failed then Inr ''TRANSCRIBE_FAILED''
      else Inl ValueError)"

definition classify_call_result :: "pyval \<Rightarrow> pyval \<Rightarrow> pyval \<Rightarrow> string res" where
  "classify_call_result reason transcribe_status recorded =
     (if \<not> is_str reason then Inl ValueError
      else if py_strip (str_of reason) = [] then Inl ValueError
      else if \<not> is_bool recorded then Inl ValueError
      else
        let reason_n = normalise (str_of reason) in
        bind_res (normalise_transcribe_status transcribe_status) (\<lambda>ts_n.
          case classify_non_connected reason_n of
            Some code \<Rightarrow> Inr code
          | None \<Rightarrow>
              (if is_one_of (PStr reason_n) connected_reasons
               then classify_connected ts_n (truthy recorded)
               else Inl ValueError)))"

section \<open>Facts\<close>

lemmas call_result_words =
  valid_call_result_codes_def no_answer_reasons_def busy_reasons_def voicemail_reasons_def
  error_reasons_def connected_reasons_def ts_completed_def ts_failed_def ts_pending_def

text \<open>The validated Transcribe status is the absent one or one of the four words.\<close>

lemma normalise_transcribe_status_returns:
  "normalise_transcribe_status ts = Inr v \<Longrightarrow>
     v = PNone \<or> is_one_of v all_transcribe_statuses"
  by (auto simp: normalise_transcribe_status_def split: pyval.splits if_splits)

lemma normalise_transcribe_status_raises:
  "normalise_transcribe_status ts = Inl e \<Longrightarrow> e = ValueError"
  by (auto simp: normalise_transcribe_status_def split: pyval.splits if_splits)

text \<open>The defensive \<open>raise\<close> at the end of the connected branch is not reached.\<close>

lemma classify_connected_total:
  assumes "v = PNone \<or> is_one_of v all_transcribe_statuses"
  shows "classify_connected v r = Inr (if \<not> r then ''ERROR''
    else if is_one_of v ts_failed then ''TRANSCRIBE_FAILED'' else ''RECORDED'')"
  using assms
  by (auto simp: classify_connected_def all_transcribe_statuses_def call_result_words is_one_of_iff)

lemma classify_non_connected_range:
  "classify_non_connected s = Some c \<Longrightarrow> c \<in> {''NO_ANSWER'', ''BUSY'', ''VOICEMAIL'', ''ERROR''}"
  by (auto simp: classify_non_connected_def split: if_splits)

lemma classify_non_connected_None:
  "classify_non_connected s = None \<longleftrightarrow>
     \<not> is_one_of (PStr s) (no_answer_reasons @ busy_reasons @ voicemail_reasons @ error_reasons)"
  by (auto simp: classify_non_connected_def)

lemma buckets_do_not_overlap: "buckets_disjoint reason_buckets"
  by (simp add: reason_buckets_def call_result_words)

lemma connected_not_non_connected:
  "is_one_of (PStr s) connected_reasons \<Longrightarrow> classify_non_connected s = None"
  by (auto simp: classify_non_connected_None is_one_of_iff call_result_words)

text \<open>The five buckets are disjoint, so the order in which they are consulted does not matter.\<close>

lemma bucket_conflicts:
  "is_one_of (PStr s) connected_reasons \<Longrightarrow> \<not> is_one_of (PStr s) error_reasons"
  "is_one_of (PStr s) connected_reasons \<Longrightarrow> \<not> is_one_of (PStr s) no_answer_reasons"
  by (auto simp: is_one_of_iff call_result_words)

lemma classify_value:
  assumes "py_strip s \<noteq> []" and "normalise_transcribe_status ts = Inr v"
  shows "classify_call_result (PStr s) ts (PBool r) =
    (case classify_non_connected (normalise s) of
       Some c \<Rightarrow> Inr c
     | None \<Rightarrow>
         if is_one_of (PStr (normalise s)) connected_reasons
         then Inr (if \<not> r then ''ERROR''
                   else if is_one_of v ts_failed then ''TRANSCRIBE_FAILED'' else ''RECORDED'')
         else Inl ValueError)"
  using assms classify_connected_total [OF normalise_transcribe_status_returns [OF assms(2)]]
  by (simp add: classify_call_result_def Let_def split: option.split)

lemma classify_returns:
  assumes "classify_call_result reason ts recorded = Inr c"
  obtains s r v where "reason = PStr s" "recorded = PBool r" "py_strip s \<noteq> []"
    "normalise_transcribe_status ts = Inr v"
proof -
  have "is_str reason" "is_bool recorded" "py_strip (str_of reason) \<noteq> []"
    using assms by (auto simp: classify_call_result_def split: if_splits)
  moreover obtain v where "normalise_transcribe_status ts = Inr v"
    using assms by (auto simp: classify_call_result_def Let_def bind_res_eq_Inr split: if_splits)
  ultimately show thesis using that by (cases reason; cases recorded; simp)
qed

lemma classify_raises: "classify_call_result reason ts recorded = Inl e \<Longrightarrow> e = ValueError"
proof (cases "normalise_transcribe_status ts")
  case (Inl e')
  assume "classify_call_result reason ts recorded = Inl e"
  then show ?thesis
    using normalise_transcribe_status_raises [OF Inl] Inl
    by (simp add: classify_call_result_def Let_def split: if_splits)
next
  case (Inr v)
  assume c: "classify_call_result reason ts recorded = Inl e"
  show ?thesis
  proof (cases "is_str reason \<and> is_bool recorded \<and> py_strip (str_of reason) \<noteq> []")
    case True
    then obtain s r where "reason = PStr s" "recorded = PBool r" "py_strip s \<noteq> []"
      by (cases reason; cases recorded; simp)
    with c Inr show ?thesis by (simp add: classify_value split: option.splits if_splits)
  qed (use c in \<open>auto simp: classify_call_result_def split: if_splits\<close>)
qed

section \<open>Normal forms\<close>

lemma upper_char_not_space: "\<not> is_space c \<Longrightarrow> d \<in> set (upper_char c) \<Longrightarrow> \<not> is_space d"
  by (auto simp: upper_char_def str_def is_space_def spaces_def split: if_splits)

lemma upper_char_nonempty [simp]: "upper_char c \<noteq> []"
  by (simp add: upper_char_def)

lemma upper_char_canonical: "d \<in> set (upper_char c) \<Longrightarrow> upper_char d = [d]"
  by (auto simp: upper_char_def str_def split: if_splits)

lemma upper_id: "(\<And>c. c \<in> set s \<Longrightarrow> upper_char c = [c]) \<Longrightarrow> upper s = s"
  by (induction s) (auto simp: upper_def)

lemma upper_append: "upper (s @ t) = upper s @ upper t"
  by (simp add: upper_def)

lemma replace_char_not_space:
  "\<not> is_space b \<Longrightarrow> c \<in> set (replace_char a b s) \<Longrightarrow> (\<exists>d\<in>set s. c = d) \<or> c = b"
  by (auto simp: replace_char_def split: if_splits)

text \<open>A strip leaves a string alone exactly when both of its ends are not whitespace.\<close>

lemma py_strip_ends:
  "py_strip s = s \<longleftrightarrow> s = [] \<or> (\<not> is_space (hd s) \<and> \<not> is_space (last s))"
proof (cases "s = []")
  case False
  have drop: "dropWhile is_space t = t \<longleftrightarrow> t = [] \<or> \<not> is_space (hd t)" for t
  proof (cases t)
    case (Cons a l)
    have "dropWhile is_space l \<noteq> a # l"
      using length_dropWhile_le [of is_space l] by (metis impossible_Cons)
    with Cons show ?thesis by simp
  qed simp
  show ?thesis
  proof (cases "is_space (hd s)")
    case True
    with False have "length (dropWhile is_space s) < length s"
      by (cases s) (auto simp: less_Suc_eq_le length_dropWhile_le)
    then have "length (py_strip s) < length s"
      using length_dropWhile_le [of is_space "rev (dropWhile is_space s)"]
      unfolding py_strip_def lstrip_def length_rev by linarith
    with True False show ?thesis by auto
  next
    case hd: False
    then have "py_strip s = rev (dropWhile is_space (rev s))"
      using drop [of s] False by (simp add: py_strip_def lstrip_def)
    then show ?thesis using drop [of "rev s"] hd False
      by (metis hd_rev rev_is_Nil_conv rev_rev_ident)
  qed
qed (simp add: py_strip_def lstrip_def)

lemma py_strip_idem: "py_strip (py_strip s) = py_strip s"
proof -
  let ?t = "py_strip s"
  have "?t = [] \<or> (\<not> is_space (hd ?t) \<and> \<not> is_space (last ?t))"
  proof (rule disjCI)
    assume "\<not> (\<not> is_space (hd ?t) \<and> \<not> is_space (last ?t))"
    moreover have l: "lstrip u \<noteq> [] \<Longrightarrow> \<not> is_space (hd (lstrip u))" for u
      unfolding lstrip_def by (rule hd_dropWhile) (auto simp: dropWhile_eq_Nil_conv)
    moreover have "?t \<noteq> [] \<Longrightarrow> hd ?t = hd (lstrip s) \<and> lstrip s \<noteq> []"
    proof -
      assume ne: "?t \<noteq> []"
      obtain u where "lstrip s = ?t @ u"
        by (metis py_strip_def lstrip_def rev_append rev_rev_ident takeWhile_dropWhile_id)
      with ne show ?thesis by simp
    qed
    moreover have "?t \<noteq> [] \<Longrightarrow> \<not> is_space (last ?t)"
      using l [of "rev (lstrip s)"] by (simp add: py_strip_def last_rev)
    ultimately show "?t = []" by metis
  qed
  then show ?thesis unfolding py_strip_ends .
qed

lemma upper_ends:
  assumes "s \<noteq> []" "\<not> is_space (hd s)" "\<not> is_space (last s)"
  shows "upper s \<noteq> []" "\<not> is_space (hd (upper s))" "\<not> is_space (last (upper s))"
proof -
  have h: "\<not> is_space c \<Longrightarrow> \<not> is_space (hd (upper_char c)) \<and> \<not> is_space (last (upper_char c))" for c
    using upper_char_not_space [of c] by simp
  obtain c t where "s = c # t" using assms(1) by (cases s) auto
  then have u: "upper s = upper_char c @ upper t" by (simp add: upper_def)
  then show "upper s \<noteq> []" by simp
  show "\<not> is_space (hd (upper s))" using u h [of c] assms(2) \<open>s = c # t\<close> by simp
  obtain t' d where "s = t' @ [d]" using assms(1) by (metis append_butlast_last_id)
  then have "upper s = upper t' @ upper_char d" by (simp add: upper_def)
  then show "\<not> is_space (last (upper s))" using h [of d] assms(3) \<open>s = t' @ [d]\<close> by simp
qed

lemma underscore_not_space: "\<not> is_space 95"
  by (simp add: is_space_def spaces_def)

lemma normalise_strip: "py_strip (normalise s) = normalise s"
proof (cases "py_strip s = []")
  case True
  then have "normalise s = []" by (simp add: normalise_def upper_def replace_char_def)
  then show ?thesis by (simp add: py_strip_ends)
next
  case False
  have "\<not> is_space (hd (py_strip s))" "\<not> is_space (last (py_strip s))"
    using py_strip_idem [of s] False unfolding py_strip_ends [of "py_strip s"] by auto
  note u = upper_ends [OF False this]
  then show ?thesis
    unfolding py_strip_ends normalise_def replace_char_def
    by (simp add: hd_map last_map underscore_not_space)
qed

lemma normalise_upper: "upper (normalise s) = normalise s"
proof (rule upper_id)
  fix c assume "c \<in> set (normalise s)"
  moreover have "upper_char 95 = [95]" by (simp add: upper_char_def)
  ultimately show "upper_char c = [c]"
    by (auto simp: normalise_def replace_char_def upper_def upper_char_canonical split: if_splits)
qed

lemma normalise_idem: "normalise (normalise s) = normalise s"
proof -
  have "c \<noteq> 32" "c \<noteq> 45" if "c \<in> set (normalise s)" for c
    using that by (auto simp: normalise_def replace_char_def split: if_splits)
  then have "replace_char 32 95 (replace_char 45 95 (normalise s)) = normalise s"
    by (auto simp: replace_char_def intro!: map_idI)
  then show ?thesis
    by (simp add: normalise_def [of "normalise s"] normalise_strip normalise_upper)
qed

lemma normalise_Nil: "normalise s = [] \<longleftrightarrow> py_strip s = []"
  by (cases "py_strip s") (auto simp: normalise_def replace_char_def upper_def)

lemma normalise_transcribe_status_canonical:
  "normalise_transcribe_status (PStr (normalise s)) = normalise_transcribe_status (PStr s)"
  by (simp add: normalise_transcribe_status_def normalise_strip normalise_idem normalise_Nil)

section \<open>Properties\<close>

text \<open>
  The classifier follows the decision table of the design: whenever it returns, the
  reason is a non-blank string and the flag a boolean; the code is \<open>TRANSCRIBE_FAILED\<close> exactly for
  a connected, recorded call whose Transcribe job failed, \<open>RECORDED\<close> exactly for a connected,
  recorded call whose job did not, and \<open>NO_ANSWER\<close>, \<open>BUSY\<close>, \<open>VOICEMAIL\<close> exactly for their
  buckets; everything else it accepts is \<open>ERROR\<close>. When it does not return, it raises
  \<open>ValueError\<close> and nothing else.
\<close>

theorem classify_table:
  "case classify_call_result reason ts recorded of
     Inl e \<Rightarrow> e = ValueError
   | Inr c \<Rightarrow>
       (\<exists>s r v. reason = PStr s \<and> recorded = PBool r \<and> normalise_transcribe_status ts = Inr v \<and>
          is_one_of (PStr (normalise s)) all_reasons \<and>
          (let connected = is_one_of (PStr (normalise s)) connected_reasons in
           c = (if connected \<and> r then
                  if v = PStr (str ''FAILED'') then ''TRANSCRIBE_FAILED'' else ''RECORDED''
                else if is_one_of (PStr (normalise s)) no_answer_reasons then ''NO_ANSWER''
                else if is_one_of (PStr (normalise s)) busy_reasons then ''BUSY''
                else if is_one_of (PStr (normalise s)) voicemail_reasons then ''VOICEMAIL''
                else ''ERROR'')))"
proof (cases "classify_call_result reason ts recorded")
  case (Inr c)
  then obtain s r v where eq: "reason = PStr s" "recorded = PBool r" "py_strip s \<noteq> []"
    and v: "normalise_transcribe_status ts = Inr v" by (rule classify_returns)
  let ?n = "PStr (normalise s)"
  have f: "is_one_of v ts_failed \<longleftrightarrow> v = PStr (str ''FAILED'')"
    by (auto simp: is_one_of_iff ts_failed_def)
  have nc: "is_one_of ?n connected_reasons \<Longrightarrow> \<not> is_one_of ?n no_answer_reasons \<and>
      \<not> is_one_of ?n busy_reasons \<and> \<not> is_one_of ?n voicemail_reasons"
    using connected_not_non_connected [of "normalise s"] by (simp add: classify_non_connected_None)
  note val = Inr [unfolded eq(1,2) classify_value [OF eq(3) v] f]
  have all: "is_one_of ?n all_reasons"
    using val classify_non_connected_None [of "normalise s"]
    by (cases "classify_non_connected (normalise s)") (auto simp: all_reasons_def split: if_splits)
  have "c = (if is_one_of ?n connected_reasons \<and> r then
               if v = PStr (str ''FAILED'') then ''TRANSCRIBE_FAILED'' else ''RECORDED''
             else if is_one_of ?n no_answer_reasons then ''NO_ANSWER''
             else if is_one_of ?n busy_reasons then ''BUSY''
             else if is_one_of ?n voicemail_reasons then ''VOICEMAIL'' else ''ERROR'')"
  proof (cases "is_one_of ?n connected_reasons")
    case True
    with val nc connected_not_non_connected [OF True] show ?thesis by auto
  next
    case False
    with val show ?thesis
      by (simp add: classify_non_connected_def del: is_one_of.simps split: if_splits)
  qed
  with Inr v eq all show ?thesis by (simp add: Let_def del: is_one_of.simps)
qed (simp add: classify_raises)

text \<open>
  Every accepted spelling is equivalent to its canonical form: classifying the
  normalised reason and the normalised Transcribe status gives the same answer, so casing,
  hyphens, inner spaces and surrounding whitespace never matter.
\<close>

theorem classify_canonical:
  "classify_call_result (PStr (normalise s)) (PStr (normalise t)) recorded =
     classify_call_result (PStr s) (PStr t) recorded"
  by (simp add: classify_call_result_def normalise_strip normalise_idem normalise_Nil
      normalise_transcribe_status_canonical)

end
