(* ===== verification/Effects.thy ===== *)
theory Effects
  imports Prelude
begin

text \<open>
  The calls a Lambda makes to AWS, and Lambdas as programs over them.

  A handler is a value of type \<open>'a prog\<close>: it either is done (a result or a raised exception), or
  issues a request and goes on with the answer, or reads the clock, the random source or a new
  UUID. The services are never given a definition here: a statement about a handler either holds
  for every answer they can give (\<open>exec\<close>), or names the documented laws it relies on (the locale
  \<open>dynamodb\<close>), or runs the handler against a service passed as an argument (\<open>run\<close>).
\<close>

section \<open>Requests\<close>

datatype ddb_table =
    CycleTable
  | ResponseTable
  | DictTable
  | HistoryTable
  | EmployeeTable
  | InboundTable
  | TranscriptMetaTable
  | RecordingMetaTable
  | LockoutTable

text \<open>\<open>ConditionExpression\<close> and the actions of an \<open>UpdateExpression\<close>, as far as the code uses them.\<close>

datatype cond =
    NoCond
  | AttrNotExists string
  | AttrExists string
  | AttrEq string pyval
  | CondAnd cond cond
  | CondOr cond cond

datatype upd =
    SetAttr string pyval
  | ListAppend string "pyval list"
  | AddNum string int
  | RemoveAttr string

text \<open>
  The two operations of a \<open>TransactWriteItems\<close> the code uses; the low-level client is given the
  items and keys in their typed form (\<open>{"S": ...}\<close>).
\<close>

datatype twrite = TPut ddb_table pydict | TDelete ddb_table pydict

text \<open>
  One constructor per boto3 call of the modelled Lambdas. A \<open>Query\<close> carries the table, the index,
  the key attribute and value, \<open>ScanIndexForward\<close>, \<open>Limit\<close> and \<open>ExclusiveStartKey\<close> (\<open>PNone\<close> when
  not passed). A \<open>QueryKeys\<close> gives both key attributes, a \<open>QueryPrefix\<close> the partition key and a prefix of
  the sort key, a \<open>ScanEq\<close> the equalities of its \<open>FilterExpression\<close>, a \<open>ScanLimit\<close> its \<open>Limit\<close> and
  \<open>ExclusiveStartKey\<close>. An \<open>S3PutObject\<close> carries the key and the content, a \<open>CopyObject\<close> the bucket, the
  new key and the source key. Bytes in a request or an answer are the string of their values.
\<close>

datatype req =
    GetItem ddb_table pydict
  | PutItem ddb_table pydict cond
  | UpdateItem ddb_table pydict "upd list" cond
  | DeleteItem ddb_table pydict cond
  | Query ddb_table "string option" string pyval bool "nat option" pyval
  | Scan ddb_table pyval
  | QueryKeys ddb_table pydict
  | QueryPrefix ddb_table string pyval string pystr bool nat
  | ScanEq ddb_table pydict
  | ScanLimit ddb_table nat pyval
  | TransactWrite "twrite list"
  | BatchGet ddb_table "pydict list"
  | BatchPut ddb_table "pydict list"
  | StartOutboundVoiceContact pyval pydict
  | SendTaskSuccess pyval pydict
  | StartExecution pystr pydict
  | StopExecution pyval
  | S3PutObject pystr pyval
  | StartTranscriptionJob pydict
  | S3GetObject pyval pyval
  | SnsPublish pystr pydict
  | PutMetricData string pystr
  | RemoveTargets pystr
  | DeleteRule pystr
  | CreateLogStream pystr pystr
  | PutLogEvents pystr pystr int pydict
  | Sleep rat
  | PresignedUrl pystr pystr int
  | CopyObject pyval pystr pyval
  | DeleteObject pyval pyval
  | AdminCreateUser pydict
  | AdminAddUserToGroup pydict
  | AdminDeleteUser pyval
  | KmsDecrypt pystr
  | InvokeFunction pydict
  | DescribeExecution pystr
  | ListObjects string pystr

text \<open>An answer is the error code of a \<open>ClientError\<close> or the response dictionary.\<close>

type_synonym resp = "pystr + pyval"

text \<open>
  What a handler reads from its environment: the clock (microseconds since 0001-01-01T00:00Z), the
  53 random bits behind \<open>random.random()\<close>, the 128 bits of \<open>uuid.uuid4()\<close>, the 96 bits of
  \<open>secrets.token_bytes(12)\<close>.
\<close>

datatype envq = ClockUs | Rand53 | Uuid4 | Nonce96

section \<open>Programs\<close>

datatype 'a prog =
    Done "'a res"
  | Call req "resp \<Rightarrow> 'a prog"
  | Env envq "int \<Rightarrow> 'a prog"

abbreviation ret :: "'a \<Rightarrow> 'a prog" where
  "ret x \<equiv> Done (Inr x)"

abbreviation raise :: "pyerr \<Rightarrow> 'a prog" where
  "raise e \<equiv> Done (Inl e)"

primrec bindP :: "'a prog \<Rightarrow> ('a \<Rightarrow> 'b prog) \<Rightarrow> 'b prog" where
  "bindP (Done r) f = (case r of Inl e \<Rightarrow> Done (Inl e) | Inr x \<Rightarrow> f x)"
| "bindP (Call q k) f = Call q (\<lambda>a. bindP (k a) f)"
| "bindP (Env q k) f = Env q (\<lambda>a. bindP (k a) f)"

text \<open>\<open>try: p except ...: h\<close>; a handler that does not match re-raises.\<close>

primrec catchP :: "'a prog \<Rightarrow> (pyerr \<Rightarrow> 'a prog) \<Rightarrow> 'a prog" where
  "catchP (Done r) h = (case r of Inl e \<Rightarrow> h e | Inr x \<Rightarrow> Done (Inr x))"
| "catchP (Call q k) h = Call q (\<lambda>a. catchP (k a) h)"
| "catchP (Env q k) h = Env q (\<lambda>a. catchP (k a) h)"

abbreviation thenP :: "'a prog \<Rightarrow> 'b prog \<Rightarrow> 'b prog" where
  "thenP p q \<equiv> bindP p (\<lambda>_. q)"

text \<open>One boto3 call: a service error is raised as \<open>ClientError\<close>.\<close>

definition aws :: "req \<Rightarrow> pyval prog" where
  "aws q = Call q (\<lambda>a. case a of Inl c \<Rightarrow> raise (ClientError c) | Inr v \<Rightarrow> ret v)"

definition now_us :: "int prog" where
  "now_us = Env ClockUs ret"

text \<open>A pure step that may raise.\<close>

abbreviation lift :: "'a res \<Rightarrow> 'a prog" where
  "lift r \<equiv> Done r"

fun for_each :: "('a \<Rightarrow> unit prog) \<Rightarrow> 'a list \<Rightarrow> unit prog" where
  "for_each f [] = ret ()"
| "for_each f (x # xs) = thenP (f x) (for_each f xs)"

lemma bindP_ret [simp]: "bindP p ret = p"
proof (induction p)
  case (Done r)
  then show ?case by (cases r) auto
qed auto

lemma bindP_assoc: "bindP (bindP p f) g = bindP p (\<lambda>x. bindP (f x) g)"
proof (induction p)
  case (Done r)
  then show ?case by (cases r) auto
qed auto

lemma bindP_aws:
  "bindP (aws q) f =
     Call q (\<lambda>a. case a of Inl c \<Rightarrow> raise (ClientError c) | Inr v \<Rightarrow> f v)"
  by (auto simp: aws_def fun_eq_iff split: sum.splits)

section \<open>Every behaviour of the environment\<close>

datatype io = CallEv req resp | EnvEv envq int

text \<open>\<open>exec p tr r\<close>: for some answers of the environment, \<open>p\<close> does \<open>tr\<close> and ends with \<open>r\<close>.\<close>

inductive exec :: "'a prog \<Rightarrow> io list \<Rightarrow> 'a res \<Rightarrow> bool" where
  exec_done: "exec (Done r) [] r"
| exec_call: "exec (k a) tr r \<Longrightarrow> exec (Call q k) (CallEv q a # tr) r"
| exec_env: "exec (k n) tr r \<Longrightarrow> exec (Env q k) (EnvEv q n # tr) r"

inductive_simps exec_Done_iff: "exec (Done x) tr r"
inductive_simps exec_Call: "exec (Call q k) tr r"
inductive_simps exec_Env: "exec (Env q k) tr r"

lemma exec_Done [simp]: "exec (Done x) tr r \<longleftrightarrow> tr = [] \<and> x = r"
  by (auto simp: exec_Done_iff)

inductive_cases exec_CallE: "exec (Call q k) tr r"
inductive_cases exec_EnvE: "exec (Env q k) tr r"

lemma exec_bindP:
  "exec (bindP p f) tr r \<longleftrightarrow>
     (\<exists>e. exec p tr (Inl e) \<and> r = Inl e) \<or>
     (\<exists>tr1 tr2 x. tr = tr1 @ tr2 \<and> exec p tr1 (Inr x) \<and> exec (f x) tr2 r)"
proof (induction p arbitrary: tr)
  case (Done y)
  then show ?case by (cases y) auto
next
  case (Call q k)
  then show ?case by (auto simp: exec_Call append_eq_Cons_conv) (metis append_Cons exec_call)+
next
  case (Env q k)
  then show ?case by (auto simp: exec_Env append_eq_Cons_conv) (metis append_Cons exec_env)+
qed

lemma exec_catchP:
  "exec (catchP p h) tr r \<longleftrightarrow>
     (\<exists>x. exec p tr (Inr x) \<and> r = Inr x) \<or>
     (\<exists>tr1 tr2 e. tr = tr1 @ tr2 \<and> exec p tr1 (Inl e) \<and> exec (h e) tr2 r)"
proof (induction p arbitrary: tr)
  case (Done y)
  then show ?case by (cases y) auto
next
  case (Call q k)
  then show ?case by (auto simp: exec_Call append_eq_Cons_conv) (metis append_Cons exec_call)+
next
  case (Env q k)
  then show ?case by (auto simp: exec_Env append_eq_Cons_conv) (metis append_Cons exec_env)+
qed

lemma exec_aws:
  "exec (aws q) tr r \<longleftrightarrow>
     (\<exists>c. tr = [CallEv q (Inl c)] \<and> r = Inl (ClientError c)) \<or>
     (\<exists>v. tr = [CallEv q (Inr v)] \<and> r = Inr v)"
  by (auto simp: aws_def exec_Call split_sum_ex)

lemma exec_now: "exec now_us tr r \<longleftrightarrow> (\<exists>n. tr = [EnvEv ClockUs n] \<and> r = Inr n)"
  by (auto simp: now_us_def exec_Env)

lemmas exec_simps = exec_Call exec_Env exec_bindP exec_catchP exec_aws exec_now

text \<open>
  The pure steps stay folded in the proofs about behaviours: a bind over one is decided by its
  result alone.
\<close>

lemma bindP_Done_Inl [simp]: "bindP (Done (Inl e)) f = Done (Inl e)"
  by simp

lemma bindP_Done_Inr [simp]: "bindP (Done (Inr x)) f = f x"
  by simp

lemma catchP_Done_Inl [simp]: "catchP (Done (Inl e)) h = h e"
  by simp

lemma catchP_Done_Inr [simp]: "catchP (Done (Inr x)) h = Done (Inr x)"
  by simp

declare bindP.simps(1) [simp del] catchP.simps(1) [simp del]

text \<open>The requests of a trace, in order.\<close>

fun calls :: "io list \<Rightarrow> req list" where
  "calls [] = []"
| "calls (CallEv q a # tr) = q # calls tr"
| "calls (EnvEv q n # tr) = calls tr"

lemma calls_append [simp]: "calls (xs @ ys) = calls xs @ calls ys"
  by (induction xs rule: calls.induct) auto

text \<open>
  \<open>all_calls P p\<close>: whatever the environment answers, every request \<open>p\<close> issues satisfies \<open>P\<close>.
\<close>

primrec all_calls :: "(req \<Rightarrow> bool) \<Rightarrow> 'a prog \<Rightarrow> bool" where
  "all_calls P (Done r) = True"
| "all_calls P (Call q k) = (P q \<and> (\<forall>a. all_calls P (k a)))"
| "all_calls P (Env e k) = (\<forall>n. all_calls P (k n))"

lemma all_calls_bindP [intro]:
  "all_calls P p \<Longrightarrow> (\<And>x. all_calls P (f x)) \<Longrightarrow> all_calls P (bindP p f)"
proof (induction p)
  case (Done r)
  then show ?case by (cases r) auto
qed auto

lemma all_calls_catchP [intro]:
  "all_calls P p \<Longrightarrow> (\<And>e. all_calls P (h e)) \<Longrightarrow> all_calls P (catchP p h)"
proof (induction p)
  case (Done r)
  then show ?case by (cases r) auto
qed auto

lemma all_calls_aws [simp]: "all_calls P (aws q) \<longleftrightarrow> P q"
  by (auto simp: aws_def split: sum.split)

lemma all_calls_now [simp]: "all_calls P now_us"
  by (simp add: now_us_def)

lemma all_calls_mono: "all_calls P p \<Longrightarrow> (\<And>q. P q \<Longrightarrow> Q q) \<Longrightarrow> all_calls Q p"
  by (induction p) auto

lemma all_calls_for_each: "(\<And>x. all_calls P (f x)) \<Longrightarrow> all_calls P (for_each f xs)"
  by (induction xs) auto

lemma all_calls_exec: "exec p tr r \<Longrightarrow> all_calls P p \<Longrightarrow> list_all P (calls tr)"
  by (induction rule: exec.induct) auto

section \<open>Running against a service\<close>

text \<open>
  A service answers a request and changes its own state; the environment readings are part of it.
\<close>

record 's ops =
  answer :: "'s \<Rightarrow> req \<Rightarrow> resp \<times> 's"
  reading :: "'s \<Rightarrow> envq \<Rightarrow> int \<times> 's"

primrec run :: "'s ops \<Rightarrow> 'a prog \<Rightarrow> 's \<Rightarrow> 'a res \<times> 's" where
  "run W (Done r) = (\<lambda>s. (r, s))"
| "run W (Call q k) = (\<lambda>s. case answer W s q of (a, s') \<Rightarrow> run W (k a) s')"
| "run W (Env q k) = (\<lambda>s. case reading W s q of (n, s') \<Rightarrow> run W (k n) s')"

lemma run_bindP:
  "run W (bindP p f) s =
     (case run W p s of (Inl e, s') \<Rightarrow> (Inl e, s') | (Inr x, s') \<Rightarrow> run W (f x) s')"
proof (induction p arbitrary: s)
  case (Done r)
  then show ?case by (cases r) auto
qed (auto split: prod.splits)

lemma run_catchP:
  "run W (catchP p h) s =
     (case run W p s of (Inl e, s') \<Rightarrow> run W (h e) s' | (Inr x, s') \<Rightarrow> (Inr x, s'))"
proof (induction p arbitrary: s)
  case (Done r)
  then show ?case by (cases r) auto
qed (auto split: prod.splits)

lemma run_aws:
  "run W (aws q) s =
     (case answer W s q of (Inl c, s') \<Rightarrow> (Inl (ClientError c), s') | (Inr v, s') \<Rightarrow> (Inr v, s'))"
  by (auto simp: aws_def split: prod.splits sum.splits)

lemma run_bindP_InrE:
  assumes "run W (bindP p f) s = (Inr y, s')"
  obtains x s1 where "run W p s = (Inr x, s1)" "run W (f x) s1 = (Inr y, s')"
  using assms by (auto simp: run_bindP split: prod.splits sum.splits)

lemma run_now: "run W now_us s = (case reading W s ClockUs of (n, s') \<Rightarrow> (Inr n, s'))"
  by (auto simp: now_us_def split: prod.splits)

lemmas run_simps = run_bindP run_catchP run_aws run_now

text \<open>A run is one of the behaviours \<open>exec\<close> ranges over.\<close>

lemma run_exec: "\<exists>tr. exec p tr (fst (run W p s))"
proof (induction p arbitrary: s)
  case (Done r)
  show ?case by auto
next
  case (Call q k)
  obtain a s' where "answer W s q = (a, s')" by force
  moreover obtain tr where "exec (k a) tr (fst (run W (k a) s'))" using Call by blast
  ultimately show ?case by (auto intro: exec_call)
next
  case (Env q k)
  obtain n s' where "reading W s q = (n, s')" by force
  moreover obtain tr where "exec (k n) tr (fst (run W (k n) s'))" using Env by blast
  ultimately show ?case by (auto intro: exec_env)
qed

text \<open>
  An invariant of the service's state that every request of a program and every reading keeps
  holds after a run of the program.
\<close>

lemma run_invariant:
  assumes "all_calls P p" and "I s"
    and "\<And>q s. P q \<Longrightarrow> I s \<Longrightarrow> I (snd (answer W s q))" and "\<And>e s. I s \<Longrightarrow> I (snd (reading W s e))"
  shows "I (snd (run W p s))"
  using assms(1,2)
proof (induction p arbitrary: s)
  case (Call q k)
  obtain a s' where "answer W s q = (a, s')" by force
  moreover have "I s'" using assms(3) [of q s] Call.prems \<open>answer W s q = (a, s')\<close> by simp
  ultimately show ?case using Call by simp
next
  case (Env e k)
  obtain n s' where "reading W s e = (n, s')" by force
  moreover have "I s'" using assms(4) [of s e] Env.prems \<open>reading W s e = (n, s')\<close> by simp
  ultimately show ?case using Env by simp
qed simp

end
