(* ===== verification/Py_Time.thy ===== *)
theory Py_Time
  imports Py_Text
begin

text \<open>
  \<open>datetime\<close> as the code uses it. An instant is an \<open>int\<close>: the microseconds since
  0001-01-01T00:00:00 in UTC. A parsed timestamp keeps the wall-clock reading and the offset, so
  that naive timestamps (no offset) can be told from aware ones.

  \<open>py_fromisoformat\<close> is \<open>datetime.fromisoformat\<close> on the extended calendar format
  \<open>YYYY-MM-DD[*HH[:MM[:SS[.ffffff]]][Z | +HH[:MM[:SS[.ffffff]]]]]\<close>, which every component writes;
  the basic and week-date forms (no separators, \<open>Www\<close>) are outside the model and rejected.
\<close>

section \<open>The proleptic Gregorian calendar, as in the standard library\<close>

definition is_leap :: "nat \<Rightarrow> bool" where
  "is_leap y \<longleftrightarrow> y mod 4 = 0 \<and> (y mod 100 \<noteq> 0 \<or> y mod 400 = 0)"

definition days_before_year :: "nat \<Rightarrow> nat" where
  "days_before_year y = (y - 1) * 365 + (y - 1) div 4 - (y - 1) div 100 + (y - 1) div 400"

definition month_lengths :: "nat list" where
  "month_lengths = [31, 28, 31, 30, 31, 30, 31, 31, 30, 31, 30, 31]"

definition days_in_month :: "bool \<Rightarrow> nat \<Rightarrow> nat" where
  "days_in_month leap m = (if m = 2 \<and> leap then 29 else month_lengths ! (m - 1))"

definition days_before_month :: "bool \<Rightarrow> nat \<Rightarrow> nat" where
  "days_before_month leap m =
     sum_list (take (m - 1) month_lengths) + (if 2 < m \<and> leap then 1 else 0)"

text \<open>Days since 0001-01-01 (one less than the ordinal of the library).\<close>

definition ymd_days :: "nat \<Rightarrow> nat \<Rightarrow> nat \<Rightarrow> nat" where
  "ymd_days y m d = days_before_year y + days_before_month (is_leap y) m + (d - 1)"

definition month_day :: "bool \<Rightarrow> nat \<Rightarrow> nat \<times> nat" where
  "month_day leap n =
     (let m = (n + 50) div 32 in
      if n < days_before_month leap m then (m - 1, n - days_before_month leap (m - 1) + 1)
      else (m, n - days_before_month leap m + 1))"

definition days_ymd :: "nat \<Rightarrow> nat \<times> nat \<times> nat" where
  "days_ymd n =
     (let n400 = n div 146097; r400 = n mod 146097;
          n100 = r400 div 36524; r100 = r400 mod 36524;
          n4 = r100 div 1461; r4 = r100 mod 1461;
          n1 = r4 div 365; r1 = r4 mod 365;
          y = 400 * n400 + 100 * n100 + 4 * n4 + n1 + 1
      in if n1 = 4 \<or> n100 = 4 then (y - 1, 12, 31)
         else (y, month_day (n1 = 3 \<and> (n4 \<noteq> 24 \<or> n100 = 3)) r1))"

definition valid_ymd :: "nat \<Rightarrow> nat \<Rightarrow> nat \<Rightarrow> bool" where
  "valid_ymd y m d \<longleftrightarrow>
     1 \<le> y \<and> y \<le> 9999 \<and> 1 \<le> m \<and> m \<le> 12 \<and> 1 \<le> d \<and> d \<le> days_in_month (is_leap y) m"

definition month_day_ok :: "bool \<Rightarrow> nat \<Rightarrow> bool" where
  "month_day_ok leap n \<longleftrightarrow> (case month_day leap n of (m, d) \<Rightarrow>
     1 \<le> m \<and> m \<le> 12 \<and> 1 \<le> d \<and> d \<le> days_in_month leap m \<and>
     days_before_month leap m + (d - 1) = n)"

lemma month_day_table_leap: "list_all (month_day_ok True) [0..<366]"
  by code_simp

lemma month_day_table_common: "list_all (month_day_ok False) [0..<365]"
  by code_simp

lemma month_day_inverse:
  assumes "n < (if leap then 366 else 365)" and "month_day leap n = (m, d)"
  shows "1 \<le> m" "m \<le> 12" "1 \<le> d" "d \<le> days_in_month leap m"
    "days_before_month leap m + (d - 1) = n"
proof -
  have "month_day_ok leap n"
  proof (cases leap)
    case True
    with assms(1) have "n \<in> set [0..<366]" by simp
    with True month_day_table_leap show ?thesis by (simp add: list_all_iff)
  next
    case False
    with assms(1) have "n \<in> set [0..<365]" by simp
    with False month_day_table_common show ?thesis by (simp add: list_all_iff)
  qed
  then show "1 \<le> m" "m \<le> 12" "1 \<le> d" "d \<le> days_in_month leap m"
    "days_before_month leap m + (d - 1) = n"
    using assms(2) by (auto simp: month_day_ok_def)
qed

lemma days_before_year_split:
  assumes "b < 4" "c < 25" "d < 4"
  shows "days_before_year (400 * a + 100 * b + 4 * c + d + 1) =
    146097 * a + 36524 * b + 1461 * c + 365 * d"
proof -
  let ?y = "400 * a + 100 * b + 4 * c + d"
  have "?y div 4 = 100 * a + 25 * b + c" using assms by simp
  moreover have "?y div 100 = 4 * a + b" using assms by simp
  moreover have "?y div 400 = a" using assms by simp
  ultimately show ?thesis by (simp add: days_before_year_def)
qed

lemma is_leap_split:
  assumes "b < 4" "c < 25" "d < 4"
  shows "is_leap (400 * a + 100 * b + 4 * c + d + 1) \<longleftrightarrow> d = 3 \<and> (c \<noteq> 24 \<or> b = 3)"
proof -
  define z where "z = 4 * c + d + 1"
  let ?y = "400 * a + 100 * b + z"
  have z: "1 \<le> z" "z \<le> 100" using assms by (auto simp: z_def)
  have "?y = (d + 1) + 4 * (100 * a + 25 * b + c)" by (simp add: z_def)
  then have "?y mod 4 = (d + 1) mod 4" by (simp only: mod_mult_self2)
  then have 4: "?y mod 4 = 0 \<longleftrightarrow> d = 3" using assms(3) by (cases "d = 3") auto
  have "?y = z + 100 * (4 * a + b)" by simp
  then have "?y mod 100 = z mod 100" by (simp only: mod_mult_self2)
  then have 100: "?y mod 100 = 0 \<longleftrightarrow> z = 100" using z by (cases "z = 100") auto
  have "?y = (100 * b + z) + 400 * a" by simp
  then have "?y mod 400 = (100 * b + z) mod 400" by (simp only: mod_mult_self2)
  then have 400: "z = 100 \<Longrightarrow> ?y mod 400 = 0 \<longleftrightarrow> b = 3" using assms(1) by (cases "b = 3") auto
  have "4 * c + d = 99 \<Longrightarrow> d = 3" using assms(3) by presburger
  then have "z = 100 \<longleftrightarrow> c = 24 \<and> d = 3" by (auto simp: z_def)
  moreover have "400 * a + 100 * b + 4 * c + d + 1 = ?y" by (simp add: z_def)
  ultimately show ?thesis unfolding is_leap_def using 4 100 400 by metis
qed

definition max_days :: nat where
  "max_days = 3652059"

lemma last_day_of_leap_year:
  assumes "400 * a + 100 * b + 4 * c + 3 + 1 \<le> 9999" "b < 4" "c < 25" "c \<noteq> 24 \<or> b = 3"
  shows "valid_ymd (400 * a + 100 * b + 4 * c + 3 + 1) 12 31"
    "ymd_days (400 * a + 100 * b + 4 * c + 3 + 1) 12 31 = 146097 * a + 36524 * b + 1461 * c + 1460"
proof -
  let ?y = "400 * a + 100 * b + 4 * c + 3 + 1"
  have "is_leap ?y" using is_leap_split [of b c 3 a] assms by simp
  moreover have "days_before_year ?y = 146097 * a + 36524 * b + 1461 * c + 365 * 3"
    by (rule days_before_year_split) (use assms in simp_all)
  moreover have "days_before_month True 12 = 335" by code_simp
  ultimately show "ymd_days ?y 12 31 = 146097 * a + 36524 * b + 1461 * c + 1460"
    by (simp add: ymd_days_def)
  have "days_in_month leap 12 = 31" for leap
    by (simp add: days_in_month_def month_lengths_def)
  then show "valid_ymd ?y 12 31" using assms by (simp add: valid_ymd_def)
qed

lemma ordinary_day:
  assumes y: "400 * a + 100 * b + 4 * c + e + 1 \<le> 9999" and "b < 4" "c < 25" "e < 4" "r < 365"
    and md: "month_day (e = 3 \<and> (c \<noteq> 24 \<or> b = 3)) r = (m, d)"
  shows "valid_ymd (400 * a + 100 * b + 4 * c + e + 1) m d"
    "ymd_days (400 * a + 100 * b + 4 * c + e + 1) m d = 146097 * a + 36524 * b + 1461 * c + 365 * e + r"
proof -
  let ?y = "400 * a + 100 * b + 4 * c + e + 1" and ?l = "e = 3 \<and> (c \<noteq> 24 \<or> b = 3)"
  have l: "is_leap ?y = ?l" by (rule is_leap_split) (use assms in simp_all)
  have "r < (if ?l then 366 else 365)" using \<open>r < 365\<close> by simp
  note md' = month_day_inverse [OF this md]
  show "valid_ymd ?y m d" unfolding valid_ymd_def l using md'(1-4) y by simp
  have "days_before_year ?y = 146097 * a + 36524 * b + 1461 * c + 365 * e"
    by (rule days_before_year_split) (use assms in simp_all)
  then show "ymd_days ?y m d = 146097 * a + 36524 * b + 1461 * c + 365 * e + r"
    unfolding ymd_days_def l using md'(5) by simp
qed

text \<open>Every day number of the supported range comes from exactly the date it is turned into.\<close>

lemma days_ymd_valid:
  assumes nmax: "n < max_days" and ymd: "days_ymd n = (y, m, d)"
  shows "valid_ymd y m d" "ymd_days y m d = n"
proof -
  obtain a r400 where a: "a = n div 146097" "r400 = n mod 146097" by simp
  obtain b r100 where b: "b = r400 div 36524" "r100 = r400 mod 36524" by simp
  obtain c r4 where c: "c = r100 div 1461" "r4 = r100 mod 1461" by simp
  obtain e r1 where e: "e = r4 div 365" "r1 = r4 mod 365" by simp
  have eqs: "n = 146097 * a + r400" "r400 = 36524 * b + r100" "r100 = 1461 * c + r4"
    "r4 = 365 * e + r1"
    by (simp_all only: a b c e mult_div_mod_eq)
  have lt: "r400 < 146097" "r100 < 36524" "r4 < 1461" "r1 < 365"
    by (simp_all add: a b c e)
  have le: "b \<le> 4" "c \<le> 24" "e \<le> 4" using eqs lt by linarith+
  have val: "days_ymd n = (if e = 4 \<or> b = 4 then (400 * a + 100 * b + 4 * c + e + 1 - 1, 12, 31)
     else (400 * a + 100 * b + 4 * c + e + 1, month_day (e = 3 \<and> (c \<noteq> 24 \<or> b = 3)) r1))"
    by (simp only: days_ymd_def Let_def a b c e)
  have nm: "146097 * a + r400 < 3652059" using nmax eqs(1) by (simp add: max_days_def)
  have "valid_ymd y m d \<and> ymd_days y m d = n"
  proof (cases "b = 4")
    case True
    then have r: "r100 = 0" using eqs lt by linarith
    then have z: "c = 0" "e = 0" using eqs by auto
    have ymd': "y = 400 * a + 100 * 3 + 4 * 24 + 3 + 1" "m = 12" "d = 31"
      using val ymd True z by auto
    have "400 * a + 100 * 3 + 4 * 24 + 3 + 1 \<le> 9999" using nm eqs(2) True by linarith
    note L = last_day_of_leap_year [OF this, simplified]
    show ?thesis unfolding ymd' using L eqs(1,2) True r by simp
  next
    case False
    then have b4: "b < 4" and c25: "c < 25" using le by auto
    show ?thesis
    proof (cases "e = 4")
      case True
      then have r: "r1 = 0" using eqs lt by linarith
      then have cc: "c \<noteq> 24 \<or> b = 3" using eqs lt True by linarith
      have ymd': "y = 400 * a + 100 * b + 4 * c + 3 + 1" "m = 12" "d = 31"
        using val ymd True by auto
      have "400 * a + 100 * b + 4 * c + 3 + 1 \<le> 9999" using nm eqs True le b4 by linarith
      note L = last_day_of_leap_year [OF this b4 c25 cc]
      show ?thesis unfolding ymd' using L eqs True r by simp
    next
      case e4: False
      then have e4': "e < 4" using le by simp
      have ymd': "y = 400 * a + 100 * b + 4 * c + e + 1"
        and md: "month_day (e = 3 \<and> (c \<noteq> 24 \<or> b = 3)) r1 = (m, d)"
        using val ymd False e4 by auto
      have "400 * a + 100 * b + 4 * c + e + 1 \<le> 9999" using nm eqs le b4 e4' by linarith
      note L = ordinary_day [OF this b4 c25 e4' lt(4) md]
      show ?thesis unfolding ymd' using L eqs by simp
    qed
  qed
  then show "valid_ymd y m d" "ymd_days y m d = n" by auto
qed

end
