(* ===== verification/Py_Iso.thy ===== *)
theory Py_Iso
  imports Py_Time
begin

text \<open>
  Timestamps as text: \<open>datetime.fromisoformat\<close> on the extended calendar format and
  \<open>datetime.isoformat\<close> on UTC instants, with the round trip between the two.
\<close>

section \<open>Digits of a fixed width\<close>

fun pad :: "nat \<Rightarrow> nat \<Rightarrow> pystr" where
  "pad 0 n = []"
| "pad (Suc k) n = pad k (n div 10) @ [48 + n mod 10]"

text \<open>\<open>scan k s\<close> reads exactly \<open>k\<close> ASCII digits.\<close>

fun scan_acc :: "nat \<Rightarrow> nat \<Rightarrow> pystr \<Rightarrow> (nat \<times> pystr) option" where
  "scan_acc 0 a s = Some (a, s)"
| "scan_acc (Suc k) a [] = None"
| "scan_acc (Suc k) a (c # s) =
     (if is_ascii_digit c then scan_acc k (10 * a + (c - 48)) s else None)"

definition scan :: "nat \<Rightarrow> pystr \<Rightarrow> (nat \<times> pystr) option" where
  "scan k s = scan_acc k 0 s"

lemma length_pad [simp]: "length (pad k n) = k"
  by (induction k n rule: pad.induct) auto

lemma pad_ascii: "c \<in> set (pad k n) \<Longrightarrow> is_ascii_digit c"
  by (induction k n rule: pad.induct) (auto simp: is_ascii_digit_def)

lemma scan_acc_append:
  "scan_acc k a s = Some (b, []) \<Longrightarrow> scan_acc (k + j) a (s @ t) = scan_acc j b t"
  by (induction k a s rule: scan_acc.induct) (auto split: if_splits)

lemma scan_acc_pad: "scan_acc k a (pad k n) = Some (10 ^ k * a + n mod 10 ^ k, [])"
proof (induction k arbitrary: n)
  case (Suc k)
  have "scan_acc (k + 1) a (pad k (n div 10) @ [48 + n mod 10]) =
      scan_acc 1 (10 ^ k * a + n div 10 mod 10 ^ k) [48 + n mod 10]"
    by (rule scan_acc_append) (rule Suc)
  also have "\<dots> = Some (10 * (10 ^ k * a + n div 10 mod 10 ^ k) + n mod 10, [])"
    by (simp add: is_ascii_digit_def)
  also have "10 * (10 ^ k * a + n div 10 mod 10 ^ k) + n mod 10 = 10 ^ Suc k * a + n mod 10 ^ Suc k"
    using mod_mult2_eq [of n 10 "10 ^ k"] by simp
  finally show ?case by simp
qed simp

lemma scan_pad: "n < 10 ^ k \<Longrightarrow> scan k (pad k n @ t) = Some (n, t)"
  using scan_acc_append [OF scan_acc_pad [of k 0 n], of 0 t] by (simp add: scan_def)

text \<open>\<open>eat cs s\<close> drops one leading character of \<open>cs\<close>, \<open>None\<close> when there is none.\<close>

fun eat :: "nat list \<Rightarrow> pystr \<Rightarrow> pystr option" where
  "eat cs [] = None"
| "eat cs (c # s) = (if c \<in> set cs then Some s else None)"

section \<open>datetime.fromisoformat\<close>

text \<open>
  A parsed timestamp: the wall-clock microseconds since 0001-01-01T00:00 and, when there is one, the
  UTC offset in microseconds.
\<close>

record pydt =
  wall_us :: int
  utc_off :: "int option"

definition us_per_day :: int where
  "us_per_day = 86400000000"

text \<open>A fraction \<open>.ffffff\<close> of any length \<open>\<ge> 1\<close>; digits after the sixth are dropped.\<close>

definition parse_fraction :: "pystr \<Rightarrow> (nat \<times> pystr) option" where
  "parse_fraction s =
     (let ds = takeWhile is_ascii_digit s in
      if ds = [] then None
      else case scan 6 (take 6 (ds @ replicate 6 48)) of
        Some (us, _) \<Rightarrow> Some (us, drop (length ds) s) | None \<Rightarrow> None)"

text \<open>\<open>HH[:MM[:SS[.f]]]\<close>: the microseconds of the reading, its parts and the rest of the text.\<close>

definition parse_hms :: "pystr \<Rightarrow> (nat \<times> nat \<times> nat \<times> nat \<times> pystr) option" where
  "parse_hms s =
     (case scan 2 s of None \<Rightarrow> None
      | Some (h, r) \<Rightarrow>
          (case eat [58] r of None \<Rightarrow> Some (h, 0, 0, 0, r)
           | Some r1 \<Rightarrow>
               (case scan 2 r1 of None \<Rightarrow> None
                | Some (mi, r2) \<Rightarrow>
                    (case eat [58] r2 of None \<Rightarrow> Some (h, mi, 0, 0, r2)
                     | Some r3 \<Rightarrow>
                         (case scan 2 r3 of None \<Rightarrow> None
                          | Some (sec, r4) \<Rightarrow>
                              (case eat [46, 44] r4 of None \<Rightarrow> Some (h, mi, sec, 0, r4)
                               | Some r5 \<Rightarrow>
                                   (case parse_fraction r5 of None \<Rightarrow> None
                                    | Some (us, r6) \<Rightarrow> Some (h, mi, sec, us, r6))))))))"

definition hms_us :: "nat \<Rightarrow> nat \<Rightarrow> nat \<Rightarrow> nat \<Rightarrow> int" where
  "hms_us h mi sec us = ((int h * 60 + int mi) * 60 + int sec) * 1000000 + int us"

text \<open>The zone: nothing (naive), \<open>Z\<close>, or a signed offset below 24 hours. \<open>None\<close> is an error.\<close>

definition parse_zone :: "pystr \<Rightarrow> int option option" where
  "parse_zone s = (case s of
     [] \<Rightarrow> Some None
   | c # r \<Rightarrow>
       (if c = 90 then (if r = [] then Some (Some 0) else None)
        else if c = 43 \<or> c = 45 then
          (case parse_hms r of
             Some (h, mi, sec, us, []) \<Rightarrow>
               (let off = hms_us h mi sec us in
                if off < us_per_day then Some (Some (if c = 45 then - off else off)) else None)
           | _ \<Rightarrow> None)
        else None))"

definition parse_date :: "pystr \<Rightarrow> (nat \<times> nat \<times> nat \<times> pystr) option" where
  "parse_date s =
     (case scan 4 s of None \<Rightarrow> None
      | Some (y, r) \<Rightarrow>
          (case eat [45] r of None \<Rightarrow> None
           | Some r1 \<Rightarrow>
               (case scan 2 r1 of None \<Rightarrow> None
                | Some (m, r2) \<Rightarrow>
                    (case eat [45] r2 of None \<Rightarrow> None
                     | Some r3 \<Rightarrow>
                         (case scan 2 r3 of None \<Rightarrow> None
                          | Some (d, t) \<Rightarrow> Some (y, m, d, t))))))"

definition py_fromisoformat :: "pystr \<Rightarrow> pydt option" where
  "py_fromisoformat s =
     (case parse_date s of None \<Rightarrow> None
      | Some (y, m, d, t) \<Rightarrow>
          (if \<not> valid_ymd y m d then None
           else let day = int (ymd_days y m d) * us_per_day in
             (case t of
                [] \<Rightarrow> Some \<lparr>wall_us = day, utc_off = None\<rparr>
              | _ # r \<Rightarrow>
                  (case parse_hms r of None \<Rightarrow> None
                   | Some (h, mi, sec, us, z) \<Rightarrow>
                       (if h < 24 \<and> mi < 60 \<and> sec < 60 then
                          (case parse_zone z of None \<Rightarrow> None
                           | Some off \<Rightarrow> Some \<lparr>wall_us = day + hms_us h mi sec us, utc_off = off\<rparr>)
                        else None)))))"

section \<open>Instants and datetime.isoformat\<close>

text \<open>The instants a \<open>datetime\<close> can hold; an operation that leaves them raises \<open>OverflowError\<close>.\<close>

definition max_us :: int where
  "max_us = int max_days * us_per_day"

definition valid_us :: "int \<Rightarrow> bool" where
  "valid_us t \<longleftrightarrow> 0 \<le> t \<and> t < max_us"

text \<open>\<open>dt.astimezone(timezone.utc)\<close> of an aware timestamp, as an instant.\<close>

definition to_utc :: "pydt \<Rightarrow> int res" where
  "to_utc p = (case utc_off p of
     None \<Rightarrow> Inl ValueError
   | Some off \<Rightarrow>
       (if valid_us (wall_us p - off) then Inr (wall_us p - off) else Inl OverflowError))"

definition iso_date :: "nat \<Rightarrow> pystr" where
  "iso_date n = (case days_ymd n of (y, m, d) \<Rightarrow> pad 4 y @ [45] @ pad 2 m @ [45] @ pad 2 d)"

definition iso_time :: "nat \<Rightarrow> pystr" where
  "iso_time sod = pad 2 (sod div 3600) @ [58] @ pad 2 (sod div 60 mod 60) @ [58] @ pad 2 (sod mod 60)"

text \<open>
  \<open>isoformat()\<close> of a UTC instant with \<open>+00:00\<close> rewritten to \<open>Z\<close>; the microseconds are written when
  they are not zero. \<open>iso_z_seconds\<close> is \<open>isoformat(timespec="seconds")\<close>, which drops them.
\<close>

definition iso_seconds :: "int \<Rightarrow> pystr" where
  "iso_seconds t =
     (let sec = nat t div 1000000 in iso_date (sec div 86400) @ [84] @ iso_time (sec mod 86400))"

definition iso_z_seconds :: "int \<Rightarrow> pystr" where
  "iso_z_seconds t = iso_seconds t @ [90]"

definition iso_z :: "int \<Rightarrow> pystr" where
  "iso_z t =
     (let us = nat t mod 1000000 in
      if us = 0 then iso_seconds t @ [90] else iso_seconds t @ [46] @ pad 6 us @ [90])"

lemma days_in_month_le: "1 \<le> m \<Longrightarrow> m \<le> 12 \<Longrightarrow> days_in_month leap m \<le> 31"
proof -
  assume "1 \<le> m" "m \<le> 12"
  then have "month_lengths ! (m - 1) \<in> set month_lengths"
    by (intro nth_mem) (simp add: month_lengths_def)
  then have "month_lengths ! (m - 1) \<le> 31" by (auto simp: month_lengths_def)
  then show ?thesis by (simp add: days_in_month_def)
qed

lemma iso_date_roundtrip:
  assumes "n < max_days"
  shows "\<exists>y m d. parse_date (iso_date n @ t) = Some (y, m, d, t) \<and> valid_ymd y m d \<and> ymd_days y m d = n"
proof -
  obtain y m d where ymd: "days_ymd n = (y, m, d)" by (cases "days_ymd n") auto
  note v = days_ymd_valid [OF assms ymd]
  have "d \<le> 31" using v(1) days_in_month_le [of m "is_leap y"] by (auto simp: valid_ymd_def)
  then have "y < 10 ^ 4" "m < 10 ^ 2" "d < 10 ^ 2" using v(1) by (auto simp: valid_ymd_def)
  then have "parse_date (iso_date n @ t) = Some (y, m, d, t)"
    by (simp add: parse_date_def iso_date_def ymd scan_pad del: pad.simps)
  then show ?thesis using v by blast
qed

lemma parse_hms_iso_time:
  assumes "sod < 86400" and "eat [46, 44] t = None"
  shows "parse_hms (iso_time sod @ t) = Some (sod div 3600, sod div 60 mod 60, sod mod 60, 0, t)"
proof -
  have "sod div 3600 < 10 ^ 2" "sod div 60 mod 60 < 10 ^ 2" "sod mod 60 < 10 ^ 2"
    using assms(1) by auto
  then show ?thesis by (simp add: parse_hms_def iso_time_def scan_pad assms(2) del: pad.simps)
qed

lemma parse_fraction_pad:
  assumes "us < 10 ^ 6" and "takeWhile is_ascii_digit t = []"
  shows "parse_fraction (pad 6 us @ t) = Some (us, t)"
proof -
  have "takeWhile is_ascii_digit (pad 6 us @ t) = pad 6 us"
    using pad_ascii assms(2) by (simp add: takeWhile_append2 del: pad.simps)
  moreover have "pad 6 us \<noteq> []" using length_pad [of 6 us] by (metis list.size(3) zero_neq_numeral)
  ultimately show ?thesis using scan_pad [OF assms(1), of "[]"]
    by (simp add: parse_fraction_def del: pad.simps)
qed

lemma parse_hms_iso_time_us:
  assumes "sod < 86400" and "us < 10 ^ 6" and "takeWhile is_ascii_digit t = []"
  shows "parse_hms (iso_time sod @ [46] @ pad 6 us @ t) =
    Some (sod div 3600, sod div 60 mod 60, sod mod 60, us, t)"
proof -
  have "sod div 3600 < 10 ^ 2" "sod div 60 mod 60 < 10 ^ 2" "sod mod 60 < 10 ^ 2"
    using assms(1) by auto
  then show ?thesis
    by (simp add: parse_hms_def iso_time_def scan_pad parse_fraction_pad [OF assms(2,3)] del: pad.simps)
qed

lemma hms_us_of_seconds:
  "hms_us (sod div 3600) (sod div 60 mod 60) (sod mod 60) us = int sod * 1000000 + int us"
proof -
  define a where "a = sod div 60"
  have "sod = (a div 60 * 60 + a mod 60) * 60 + sod mod 60" by (simp add: a_def)
  then have "int sod = int ((a div 60 * 60 + a mod 60) * 60 + sod mod 60)" by (rule arg_cong)
  then have "int sod = (int (a div 60) * 60 + int (a mod 60)) * 60 + int (sod mod 60)"
    by (simp only: of_nat_add of_nat_mult of_nat_numeral)
  moreover have "sod div 3600 = a div 60" by (simp add: a_def flip: div_mult2_eq)
  ultimately show ?thesis by (simp add: hms_us_def flip: a_def)
qed

lemma instant_split:
  assumes "valid_us t"
  shows "nat t div 1000000 div 86400 < max_days"
    "int (nat t div 1000000 div 86400) * us_per_day +
       (int (nat t div 1000000 mod 86400) * 1000000 + int (nat t mod 1000000)) = t"
proof -
  obtain n where t: "t = int n" using assms unfolding valid_us_def by (metis nonneg_int_cases)
  then have n: "n < max_days * 86400000000"
    using assms by (simp add: valid_us_def max_us_def us_per_day_def)
  then show "nat t div 1000000 div 86400 < max_days"
    by (simp add: t less_mult_imp_div_less flip: div_mult2_eq)
  define q where "q = n div 1000000"
  have "n = (q div 86400 * 86400 + q mod 86400) * 1000000 + n mod 1000000" by (simp add: q_def)
  then have "int n = int ((q div 86400 * 86400 + q mod 86400) * 1000000 + n mod 1000000)"
    by (rule arg_cong)
  then have "int n = (int (q div 86400) * 86400 + int (q mod 86400)) * 1000000 + int (n mod 1000000)"
    by (simp only: of_nat_add of_nat_mult of_nat_numeral)
  then have "int (q div 86400) * 86400000000 + (int (q mod 86400) * 1000000 + int (n mod 1000000)) = int n"
    by (simp add: algebra_simps)
  then show "int (nat t div 1000000 div 86400) * us_per_day +
       (int (nat t div 1000000 mod 86400) * 1000000 + int (nat t mod 1000000)) = t"
    by (simp add: t us_per_day_def q_def)
qed

lemma parse_zone_utc:
  "parse_zone [90] = Some (Some 0)" "parse_zone [43, 48, 48, 58, 48, 48] = Some (Some 0)"
  by code_simp+

text \<open>
  What \<open>isoformat\<close> writes, with the offset spelled \<open>+00:00\<close> or \<open>Z\<close>, \<open>fromisoformat\<close> reads back as
  the same instant in UTC.
\<close>

lemma fromisoformat_date_time:
  assumes "n < max_days" and "parse_hms s = Some (h, mi, sec, us, z)"
    and "h < 24" "mi < 60" "sec < 60" and "parse_zone z = Some off"
  shows "py_fromisoformat (iso_date n @ [84] @ s) =
    Some \<lparr>wall_us = int n * us_per_day + hms_us h mi sec us, utc_off = off\<rparr>"
  using iso_date_roundtrip [OF assms(1), of "[84] @ s"] assms(2-)
  by (auto simp: py_fromisoformat_def)

lemma zone_heads:
  assumes "z = [90] \<or> z = [43, 48, 48, 58, 48, 48]"
  shows "eat [46, 44] z = None" "takeWhile is_ascii_digit z = []" "parse_zone z = Some (Some 0)"
  using assms parse_zone_utc by (auto simp: is_ascii_digit_def)

lemma fromisoformat_seconds:
  assumes "valid_us t" and z: "z = [90] \<or> z = [43, 48, 48, 58, 48, 48]"
  shows "py_fromisoformat (iso_seconds t @ z) =
    Some \<lparr>wall_us = t - t mod 1000000, utc_off = Some 0\<rparr>"
proof -
  let ?sec = "nat t div 1000000"
  note sp = instant_split [OF assms(1)]
  have sod: "?sec mod 86400 < 86400" by simp
  have "?sec mod 86400 div 3600 < 24" by (simp add: less_mult_imp_div_less)
  then have "py_fromisoformat (iso_date (?sec div 86400) @ [84] @ (iso_time (?sec mod 86400) @ z)) =
      Some \<lparr>wall_us = int (?sec div 86400) * us_per_day + (int (?sec mod 86400) * 1000000 + int 0),
        utc_off = Some 0\<rparr>"
    using fromisoformat_date_time [OF sp(1) parse_hms_iso_time [OF sod zone_heads(1) [OF z]]]
      zone_heads(3) [OF z] by (simp add: hms_us_of_seconds del: of_nat_0)
  moreover have "int (nat t mod 1000000) = t mod 1000000"
    using assms(1) by (simp add: valid_us_def nat_mod_distrib zmod_int)
  ultimately show ?thesis using sp(2) by (simp add: iso_seconds_def Let_def)
qed

lemma fromisoformat_micros:
  assumes "valid_us t" and z: "z = [90] \<or> z = [43, 48, 48, 58, 48, 48]"
  shows "py_fromisoformat (iso_seconds t @ [46] @ pad 6 (nat t mod 1000000) @ z) =
    Some \<lparr>wall_us = t, utc_off = Some 0\<rparr>"
proof -
  let ?sec = "nat t div 1000000" and ?us = "nat t mod 1000000"
  note sp = instant_split [OF assms(1)]
  have sod: "?sec mod 86400 < 86400" and us: "?us < 10 ^ 6" by simp_all
  have "?sec mod 86400 div 3600 < 24" by (simp add: less_mult_imp_div_less)
  then have "py_fromisoformat
      (iso_date (?sec div 86400) @ [84] @ (iso_time (?sec mod 86400) @ [46] @ pad 6 ?us @ z)) =
      Some \<lparr>wall_us = int (?sec div 86400) * us_per_day + (int (?sec mod 86400) * 1000000 + int ?us),
        utc_off = Some 0\<rparr>"
    using fromisoformat_date_time [OF sp(1) parse_hms_iso_time_us [OF sod us zone_heads(2) [OF z]]]
      zone_heads(3) [OF z] by (simp add: hms_us_of_seconds del: of_nat_mod pad.simps)
  then show ?thesis unfolding sp(2) by (simp add: iso_seconds_def Let_def del: pad.simps)
qed

text \<open>The system's own timestamps: the callers rewrite a final \<open>Z\<close> to \<open>+00:00\<close> before parsing.\<close>

definition z_to_offset :: "pystr \<Rightarrow> pystr" where
  "z_to_offset s = (if s \<noteq> [] \<and> last s = 90 then butlast s @ str ''+00:00'' else s)"

lemma offset_literal: "str ''+00:00'' = [43, 48, 48, 58, 48, 48]"
  by code_simp

lemma fromisoformat_iso_z:
  assumes "valid_us t"
  shows "py_fromisoformat (z_to_offset (iso_z t)) = Some \<lparr>wall_us = t, utc_off = Some 0\<rparr>"
proof (cases "nat t mod 1000000 = 0")
  case True
  then have "t mod 1000000 = 0"
    using assms by (simp add: valid_us_def nat_mod_distrib flip: nat_eq_iff2) (metis int_nat_eq of_nat_0 zmod_int of_nat_numeral)
  with True fromisoformat_seconds [OF assms] show ?thesis
    by (simp add: iso_z_def z_to_offset_def butlast_append offset_literal)
next
  case False
  with fromisoformat_micros [OF assms] show ?thesis
    by (simp add: iso_z_def z_to_offset_def butlast_append offset_literal del: pad.simps)
qed

lemma fromisoformat_iso_z_seconds:
  assumes "valid_us t"
  shows "py_fromisoformat (z_to_offset (iso_z_seconds t)) =
    Some \<lparr>wall_us = t - t mod 1000000, utc_off = Some 0\<rparr>"
  using fromisoformat_seconds [OF assms]
  by (simp add: iso_z_seconds_def z_to_offset_def butlast_append offset_literal)

end
