(* ===== verification/Retry.thy ===== *)
theory Retry
  imports Effects Py_Iso
begin

text \<open>
  \<open>backend/shared/retry/evaluator.py\<close> and the Lambda \<open>retry_evaluator\<close> around it: whether an
  employee is called again, when, and with which final status the iteration ends otherwise.
\<close>

section \<open>Vocabulary\<close>

definition valid_voice_statuses :: "string list" where
  "valid_voice_statuses =
     [''PENDING'', ''SAFE'', ''INJURED'', ''UNAVAILABLE'', ''OTHER'', ''UNREACHABLE'']"

definition confirmed_statuses :: "string list" where
  "confirmed_statuses = [''SAFE'', ''INJURED'', ''UNAVAILABLE'']"

definition min_interval_minutes :: int where
  "min_interval_minutes = 1"

definition max_interval_minutes :: int where
  "max_interval_minutes = 60"

section \<open>should_retry\<close>

definition should_retry :: "pyval \<Rightarrow> pyval \<Rightarrow> pyval \<Rightarrow> pyval \<Rightarrow> bool res" where
  "should_retry voice_status call_result_code attempts retry_count =
     bind_res (in_set voice_status valid_voice_statuses) (\<lambda>valid.
       if \<not> valid then Inl ValueError
       else if \<not> is_int attempts \<or> is_bool attempts then Inl ValueError
       else if \<not> is_int retry_count \<or> is_bool retry_count then Inl ValueError
       else if int_val attempts < 0 then Inl ValueError
       else if int_val retry_count < 0 then Inl ValueError
       else if is_one_of voice_status confirmed_statuses then Inr False
       else if voice_status = PStr (str ''UNREACHABLE'') then Inr False
       else Inr (int_val attempts < int_val retry_count))"

lemma should_retry_ints:
  assumes "s \<in> set valid_voice_statuses" "0 \<le> a" "0 \<le> r"
  shows "should_retry (PStr (str s)) c (PInt a) (PInt r) =
    Inr (s \<in> {''PENDING'', ''OTHER''} \<and> a < r)"
  using assms by (auto simp: should_retry_def valid_voice_statuses_def confirmed_statuses_def)

lemma should_retry_returns:
  assumes "should_retry v c a r = Inr b"
  shows "is_one_of v valid_voice_statuses" "\<exists>i. a = PInt i \<and> 0 \<le> i" "\<exists>i. r = PInt i \<and> 0 \<le> i"
proof -
  have "is_one_of v valid_voice_statuses \<and> is_int a \<and> \<not> is_bool a \<and> 0 \<le> int_val a \<and>
      is_int r \<and> \<not> is_bool r \<and> 0 \<le> int_val r"
    using assms by (auto simp: should_retry_def bind_res_eq_Inr in_set_Inr split: if_splits)
  then show "is_one_of v valid_voice_statuses" "\<exists>i. a = PInt i \<and> 0 \<le> i" "\<exists>i. r = PInt i \<and> 0 \<le> i"
    by (cases a; cases r; simp)+
qed

text \<open>A boolean in place of a count is refused, whatever the other arguments are.\<close>

lemma should_retry_bool_count:
  "is_one_of v valid_voice_statuses \<Longrightarrow> should_retry v c a (PBool b) = Inl ValueError"
  by (simp add: should_retry_def in_set_def is_one_of_hashable)

section \<open>compute_next_dispatch_at\<close>

definition parse_iso_utc :: "pyval \<Rightarrow> int res" where
  "parse_iso_utc value =
     (if \<not> nonempty_str value then Inl ValueError
      else case py_fromisoformat (z_to_offset (str_of value)) of
        None \<Rightarrow> Inl ValueError
      | Some p \<Rightarrow> to_utc p)"

definition format_iso_utc_z :: "int \<Rightarrow> pystr" where
  "format_iso_utc_z t = iso_z t"

definition us_per_minute :: int where
  "us_per_minute = 60000000"

definition compute_next_dispatch_at :: "pyval \<Rightarrow> pyval \<Rightarrow> pystr res" where
  "compute_next_dispatch_at prev_end_at_iso interval_minutes =
     (if \<not> is_int interval_minutes \<or> is_bool interval_minutes then Inl ValueError
      else if \<not> (min_interval_minutes \<le> int_val interval_minutes \<and>
                 int_val interval_minutes \<le> max_interval_minutes) then Inl ValueError
      else bind_res (parse_iso_utc prev_end_at_iso) (\<lambda>prev_end_at.
        let next_dispatch_at = prev_end_at + int_val interval_minutes * us_per_minute in
        if valid_us next_dispatch_at then Inr (format_iso_utc_z next_dispatch_at)
        else Inl OverflowError))"

section \<open>compute_retry_wait_seconds\<close>

text \<open>
  \<open>int(delta.total_seconds())\<close> truncates towards zero. The division is exact here; the float the
  code goes through is exact to a microsecond for differences below \<open>2 ^ 33\<close> seconds.
\<close>

definition trunc_seconds :: "int \<Rightarrow> int" where
  "trunc_seconds us = sgn us * (\<bar>us\<bar> div 1000000)"

definition compute_retry_wait_seconds :: "pyval \<Rightarrow> pyval \<Rightarrow> pyval \<Rightarrow> int res" where
  "compute_retry_wait_seconds prev_end_at_iso interval_minutes now_iso =
     bind_res (compute_next_dispatch_at prev_end_at_iso interval_minutes) (\<lambda>next_iso.
     bind_res (parse_iso_utc (PStr next_iso)) (\<lambda>next_dispatch_at.
     bind_res (parse_iso_utc now_iso) (\<lambda>now.
       Inr (max 0 (trunc_seconds (next_dispatch_at - now))))))"

lemma parse_iso_utc_iso_z: "valid_us t \<Longrightarrow> parse_iso_utc (PStr (iso_z t)) = Inr t"
proof -
  assume v: "valid_us t"
  have "iso_z t \<noteq> []" by (simp add: iso_z_def Let_def)
  with v show ?thesis by (simp add: parse_iso_utc_def fromisoformat_iso_z to_utc_def)
qed

lemma parse_iso_utc_valid: "parse_iso_utc v = Inr t \<Longrightarrow> valid_us t"
  by (auto simp: parse_iso_utc_def to_utc_def split: option.splits if_splits)

lemma next_dispatch_at_returns:
  assumes "compute_next_dispatch_at p i = Inr s"
  shows "\<exists>m t. i = PInt m \<and> 1 \<le> m \<and> m \<le> 60 \<and> parse_iso_utc p = Inr t \<and>
    s = iso_z (t + m * us_per_minute) \<and> valid_us (t + m * us_per_minute)"
  using assms
  by (cases i) (auto simp: compute_next_dispatch_at_def bind_res_eq_Inr format_iso_utc_z_def Let_def
      min_interval_minutes_def max_interval_minutes_def split: if_splits)

lemma next_dispatch_at_value:
  assumes "parse_iso_utc p = Inr t" "1 \<le> m" "m \<le> 60" "valid_us (t + m * us_per_minute)"
  shows "compute_next_dispatch_at p (PInt m) = Inr (iso_z (t + m * us_per_minute))"
  using assms
  by (simp add: compute_next_dispatch_at_def format_iso_utc_z_def Let_def min_interval_minutes_def
      max_interval_minutes_def)

lemma trunc_seconds_bounds:
  "0 \<le> d \<Longrightarrow> trunc_seconds d * 1000000 \<le> d \<and> d < (trunc_seconds d + 1) * 1000000"
  "d \<le> 0 \<Longrightarrow> trunc_seconds d \<le> 0"
  by (cases "d = 0"; auto simp: trunc_seconds_def sgn_if; presburger)+

lemma wait_seconds_value:
  assumes "parse_iso_utc p = Inr t" "1 \<le> m" "m \<le> 60" "valid_us (t + m * us_per_minute)"
    and "parse_iso_utc n = Inr now"
  shows "compute_retry_wait_seconds p (PInt m) n =
    Inr (max 0 (trunc_seconds (t + m * us_per_minute - now)))"
  using assms by (simp add: compute_retry_wait_seconds_def next_dispatch_at_value parse_iso_utc_iso_z)

section \<open>derive_final_status\<close>

definition derive_final_status :: "pyval \<Rightarrow> pyval res" where
  "derive_final_status voice_status =
     bind_res (in_set voice_status valid_voice_statuses) (\<lambda>valid.
       if \<not> valid then Inl ValueError
       else if is_one_of voice_status confirmed_statuses then Inr voice_status
       else Inr (PStr (str ''UNREACHABLE'')))"

section \<open>The Lambda retry_evaluator\<close>

definition retry_required_keys :: "string list" where
  "retry_required_keys =
     [''cycleId'', ''employeeId'', ''voiceStatus'', ''attempts'', ''retryCount'',
      ''retryIntervalMinutes'', ''prevEndAt'']"

record retry_input =
  ri_cycle_id :: pyval
  ri_employee_id :: pyval
  ri_voice_status :: pyval
  ri_call_result_code :: pyval
  ri_attempts :: pyval
  ri_retry_count :: pyval
  ri_interval :: pyval
  ri_prev_end_at :: pyval

definition retry_parse_event :: "pyval \<Rightarrow> retry_input res" where
  "retry_parse_event event = (case event of
     PDict ev \<Rightarrow>
       (if \<not> list_all (has_key ev) retry_required_keys then Inl ValueError
        else if \<not> nonempty_str (dget ev ''cycleId'') then Inl ValueError
        else if \<not> nonempty_str (dget ev ''employeeId'') then Inl ValueError
        else if dget ev ''callResultCode'' \<noteq> PNone \<and> \<not> is_str (dget ev ''callResultCode'')
        then Inl ValueError
        else Inr
          \<lparr>ri_cycle_id = dget ev ''cycleId'', ri_employee_id = dget ev ''employeeId'',
           ri_voice_status = dget ev ''voiceStatus'', ri_call_result_code = dget ev ''callResultCode'',
           ri_attempts = dget ev ''attempts'', ri_retry_count = dget ev ''retryCount'',
           ri_interval = dget ev ''retryIntervalMinutes'', ri_prev_end_at = dget ev ''prevEndAt''\<rparr>)
   | _ \<Rightarrow> Inl ValueError)"

definition retry_now_iso :: "pystr prog" where
  "retry_now_iso = bindP now_us (\<lambda>t. ret (iso_z t))"

definition retry_lambda_handler :: "pyval \<Rightarrow> pyval prog" where
  "retry_lambda_handler event =
     bindP (lift (retry_parse_event event)) (\<lambda>i.
     bindP (lift (should_retry (ri_voice_status i) (ri_call_result_code i) (ri_attempts i)
       (ri_retry_count i))) (\<lambda>retry.
     if retry then
       bindP (lift (compute_next_dispatch_at (ri_prev_end_at i) (ri_interval i))) (\<lambda>next_at.
       bindP retry_now_iso (\<lambda>now_iso.
       bindP (lift (compute_retry_wait_seconds (ri_prev_end_at i) (ri_interval i) (PStr now_iso)))
         (\<lambda>wait_seconds.
       ret (PDict
         [(str ''retry'', PBool True), (str ''retryWaitSeconds'', PInt wait_seconds),
          (str ''nextDispatchAt'', PStr next_at), (str ''finalStatus'', PNone)]))))
     else
       bindP (lift (derive_final_status (ri_voice_status i))) (\<lambda>final_status.
       ret (PDict
         [(str ''retry'', PBool False), (str ''retryWaitSeconds'', PInt 0),
          (str ''nextDispatchAt'', PNone), (str ''finalStatus'', final_status)]))))"

definition terminal_final_statuses :: "string list" where
  "terminal_final_statuses = confirmed_statuses @ [''UNREACHABLE'']"

lemma derive_final_status_returns:
  "derive_final_status v = Inr f \<Longrightarrow>
     is_one_of v valid_voice_statuses \<and> is_one_of f terminal_final_statuses \<and>
     (f = v \<longleftrightarrow> is_one_of v terminal_final_statuses)"
  by (auto simp: derive_final_status_def bind_res_eq_Inr in_set_Inr terminal_final_statuses_def
      is_one_of_iff confirmed_statuses_def split: if_splits)

lemma derive_after_should_retry:
  "should_retry v c a r = Inr b \<Longrightarrow> \<exists>f. derive_final_status v = Inr f"
  using should_retry_returns(1) [of v c a r b]
  by (auto simp: derive_final_status_def in_set_def is_one_of_hashable)

text \<open>The two answers of the Lambda.\<close>

lemma retry_handler_cases:
  assumes "exec (retry_lambda_handler (PDict ev)) tr (Inr out)"
  shows "calls tr = [] \<and>
    ((\<exists>t m w. parse_iso_utc (dget ev ''prevEndAt'') = Inr t \<and>
        dget ev ''retryIntervalMinutes'' = PInt m \<and> 1 \<le> m \<and> m \<le> 60 \<and> 0 \<le> w \<and>
        should_retry (dget ev ''voiceStatus'') (dget ev ''callResultCode'') (dget ev ''attempts'')
          (dget ev ''retryCount'') = Inr True \<and>
        out = PDict [(str ''retry'', PBool True), (str ''retryWaitSeconds'', PInt w),
          (str ''nextDispatchAt'', PStr (iso_z (t + m * us_per_minute))), (str ''finalStatus'', PNone)]) \<or>
     (\<exists>f. is_one_of f terminal_final_statuses \<and>
        should_retry (dget ev ''voiceStatus'') (dget ev ''callResultCode'') (dget ev ''attempts'')
          (dget ev ''retryCount'') = Inr False \<and>
        out = PDict [(str ''retry'', PBool False), (str ''retryWaitSeconds'', PInt 0),
          (str ''nextDispatchAt'', PNone), (str ''finalStatus'', f)]))"
proof -
  obtain i where i: "retry_parse_event (PDict ev) = Inr i"
    using assms by (auto simp: retry_lambda_handler_def exec_simps)
  have flds: "ri_voice_status i = dget ev ''voiceStatus''" "ri_attempts i = dget ev ''attempts''"
    "ri_call_result_code i = dget ev ''callResultCode''" "ri_retry_count i = dget ev ''retryCount''"
    "ri_interval i = dget ev ''retryIntervalMinutes''" "ri_prev_end_at i = dget ev ''prevEndAt''"
    using i by (auto simp: retry_parse_event_def split: if_splits)
  obtain b where b: "should_retry (dget ev ''voiceStatus'') (dget ev ''callResultCode'')
      (dget ev ''attempts'') (dget ev ''retryCount'') = Inr b"
    using assms i flds by (auto simp: retry_lambda_handler_def exec_simps)
  note run = assms [unfolded retry_lambda_handler_def i bindP_Done_Inr flds b]
  show ?thesis
  proof (cases b)
    case True
    with run obtain s w now where s: "compute_next_dispatch_at (dget ev ''prevEndAt'')
        (dget ev ''retryIntervalMinutes'') = Inr s"
      and w: "compute_retry_wait_seconds (dget ev ''prevEndAt'') (dget ev ''retryIntervalMinutes'')
        (PStr now) = Inr w" and c: "calls tr = []"
      and out: "out = PDict [(str ''retry'', PBool True), (str ''retryWaitSeconds'', PInt w),
          (str ''nextDispatchAt'', PStr s), (str ''finalStatus'', PNone)]"
      by (auto simp: exec_simps retry_now_iso_def)
    have "0 \<le> w" using w by (auto simp: compute_retry_wait_seconds_def bind_res_eq_Inr)
    with next_dispatch_at_returns [OF s] c out b True show ?thesis by auto
  next
    case False
    with run obtain f where "derive_final_status (dget ev ''voiceStatus'') = Inr f" "calls tr = []"
      "out = PDict [(str ''retry'', PBool False), (str ''retryWaitSeconds'', PInt 0),
          (str ''nextDispatchAt'', PNone), (str ''finalStatus'', f)]"
      by (auto simp: exec_simps)
    with derive_final_status_returns b False show ?thesis by auto
  qed
qed

definition sample_retry_event :: pydict where
  "sample_retry_event =
     [(str ''cycleId'', PStr (str ''C1'')), (str ''employeeId'', PStr (str ''E1'')),
      (str ''voiceStatus'', PStr (str ''OTHER'')), (str ''attempts'', PInt 2),
      (str ''retryCount'', PInt 2), (str ''retryIntervalMinutes'', PInt 5),
      (str ''prevEndAt'', PStr (str ''2026-01-01T00:00:00Z''))]"

section \<open>Properties\<close>



text \<open>
  The wait ends at the next dispatch time: for a previous call that ended at \<open>t\<close>
  and an interval of \<open>m\<close> minutes, the seconds returned reach \<open>t + m\<close> minutes from now without
  overshooting it, to within one second, and are 0 once that time has passed.
\<close>

theorem wait_reaches_next_dispatch:
  assumes "parse_iso_utc p = Inr t" "1 \<le> m" "m \<le> 60" "valid_us (t + m * us_per_minute)"
    and "parse_iso_utc n = Inr now"
  shows "\<exists>w. compute_retry_wait_seconds p (PInt m) n = Inr w \<and> 0 \<le> w \<and>
    (now \<le> t + m * us_per_minute \<longrightarrow>
       now + w * 1000000 \<le> t + m * us_per_minute \<and> t + m * us_per_minute < now + (w + 1) * 1000000) \<and>
    (t + m * us_per_minute \<le> now \<longrightarrow> w = 0)"
proof -
  let ?d = "t + m * us_per_minute - now"
  have "0 \<le> ?d \<Longrightarrow> 0 \<le> trunc_seconds ?d" by (simp add: trunc_seconds_def sgn_if)
  then show ?thesis
    using wait_seconds_value [OF assms] trunc_seconds_bounds [of ?d] by (auto simp: algebra_simps)
qed

theorem wait_reaches_next_dispatch_witness:
  "\<exists>w. compute_retry_wait_seconds (PStr (iso_z 63000000000000000)) (PInt 5)
      (PStr (iso_z 63000000012000000)) = Inr w \<and> w = 288"
proof -
  have v: "valid_us 63000000000000000" "valid_us 63000000012000000"
    "valid_us (63000000000000000 + 5 * us_per_minute)"
    by (simp_all add: valid_us_def max_us_def max_days_def us_per_day_def us_per_minute_def
        days_before_year_def)
  show ?thesis
    using wait_reaches_next_dispatch [OF parse_iso_utc_iso_z [OF v(1)] _ _ v(3)
        parse_iso_utc_iso_z [OF v(2)]]
    by (auto simp: us_per_minute_def)
qed

text \<open>
  What the Lambda answers: for every reading of the clock, a run that returns read a
  well-formed event and answers either a retry, with the next dispatch time \<open>m\<close> minutes after
  the end of the previous call and a non-negative wait, or no retry with a terminal final status.
  It issues no request.
\<close>

theorem retry_handler_answers:
  assumes "exec (retry_lambda_handler (PDict ev)) tr (Inr out)"
  shows "calls tr = [] \<and>
    ((\<exists>t m w. parse_iso_utc (dget ev ''prevEndAt'') = Inr t \<and>
        dget ev ''retryIntervalMinutes'' = PInt m \<and> 1 \<le> m \<and> m \<le> 60 \<and> 0 \<le> w \<and>
        should_retry (dget ev ''voiceStatus'') (dget ev ''callResultCode'') (dget ev ''attempts'')
          (dget ev ''retryCount'') = Inr True \<and>
        out = PDict [(str ''retry'', PBool True), (str ''retryWaitSeconds'', PInt w),
          (str ''nextDispatchAt'', PStr (iso_z (t + m * us_per_minute))), (str ''finalStatus'', PNone)]) \<or>
     (\<exists>f. is_one_of f terminal_final_statuses \<and>
        should_retry (dget ev ''voiceStatus'') (dget ev ''callResultCode'') (dget ev ''attempts'')
          (dget ev ''retryCount'') = Inr False \<and>
        out = PDict [(str ''retry'', PBool False), (str ''retryWaitSeconds'', PInt 0),
          (str ''nextDispatchAt'', PNone), (str ''finalStatus'', f)]))"
  by (rule retry_handler_cases [OF assms])

theorem retry_handler_answers_witness:
  "\<exists>out f. exec (retry_lambda_handler (PDict sample_retry_event)) [] (Inr out) \<and>
    is_one_of f terminal_final_statuses \<and>
    out = PDict [(str ''retry'', PBool False), (str ''retryWaitSeconds'', PInt 0),
      (str ''nextDispatchAt'', PNone), (str ''finalStatus'', f)]"
proof -
  obtain out where out: "exec (retry_lambda_handler (PDict sample_retry_event)) [] (Inr out)"
    by (simp add: retry_lambda_handler_def retry_parse_event_def retry_required_keys_def
        sample_retry_event_def has_key_def should_retry_def derive_final_status_def
        valid_voice_statuses_def confirmed_statuses_def in_set_def)
  have "should_retry (dget sample_retry_event ''voiceStatus'') (dget sample_retry_event ''callResultCode'')
      (dget sample_retry_event ''attempts'') (dget sample_retry_event ''retryCount'') \<noteq> Inr True"
    by (simp add: sample_retry_event_def should_retry_def valid_voice_statuses_def
        confirmed_statuses_def in_set_def)
  with retry_handler_answers [OF out] out show ?thesis by blast
qed

end
