(* ===== verification/Finalize.thy ===== *)
theory Finalize
  imports Retry
begin

text \<open>
  \<open>backend/shared/cycle/finalize.py\<close> and \<open>exclusivity.py\<close>: the pure decisions about a cycle's
  Response rows (complete, pending, the rows a timeout rewrites, the aggregate counters) and the
  guard that only lets a cycle start when none is running.
\<close>

section \<open>Rows\<close>

definition terminal_voice_statuses :: "string list" where
  "terminal_voice_statuses = confirmed_statuses @ [''UNREACHABLE'']"

definition timeout_rewrite_statuses :: "string list" where
  "timeout_rewrite_statuses = [''PENDING'', ''OTHER'']"

definition require_list :: "pyval \<Rightarrow> pydict list res" where
  "require_list responses = (case responses of
     PList xs \<Rightarrow> if list_all is_dict xs then Inr (map items_of xs) else Inl TypeError
   | _ \<Rightarrow> Inl TypeError)"

definition rows_val :: "pydict list \<Rightarrow> pyval" where
  "rows_val rows = PList (map PDict rows)"

lemma require_list_rows [simp]: "require_list (rows_val rows) = Inr rows"
  by (simp add: require_list_def rows_val_def list_all_iff map_idI)

lemma require_list_Inr: "require_list v = Inr rows \<longleftrightarrow> v = rows_val rows"
proof
  assume r: "require_list v = Inr rows"
  then obtain xs where xs: "v = PList xs" "list_all is_dict xs" "rows = map items_of xs"
    by (auto simp: require_list_def split: pyval.splits if_splits)
  have "map (PDict \<circ> items_of) xs = xs"
    using xs(2) by (intro map_idI) (metis comp_apply is_dictE items_of.simps(1) list_all_iff)
  with xs show "v = rows_val rows" by (simp add: rows_val_def)
qed simp

text \<open>\<open>isinstance(raw, (int, Decimal))\<close> without the booleans; \<open>int\<close> truncates a \<open>Decimal\<close>.\<close>

definition coerce_call_attempts :: "pyval \<Rightarrow> int res" where
  "coerce_call_attempts raw = (case raw of
     PInt i \<Rightarrow> Inr i
   | PDec d \<Rightarrow> Inr (rat_trunc d)
   | _ \<Rightarrow> Inl TypeError)"

section \<open>Complete and pending\<close>

text \<open>The loop stops at the first row that is not terminal.\<close>

fun all_terminal :: "pydict list \<Rightarrow> bool res" where
  "all_terminal [] = Inr True"
| "all_terminal (row # rows) =
     bind_res (in_set (dget row ''voiceStatus'') terminal_voice_statuses) (\<lambda>t.
       if t then all_terminal rows else Inr False)"

definition is_cycle_completed :: "pyval \<Rightarrow> bool res" where
  "is_cycle_completed responses = bind_res (require_list responses) all_terminal"

fun count_pending :: "pydict list \<Rightarrow> nat res" where
  "count_pending [] = Inr 0"
| "count_pending (row # rows) =
     bind_res (in_set (dget row ''voiceStatus'') terminal_voice_statuses) (\<lambda>t.
     bind_res (count_pending rows) (\<lambda>n. Inr (if t then n else Suc n)))"

definition count_pending_responses :: "pyval \<Rightarrow> nat res" where
  "count_pending_responses responses = bind_res (require_list responses) count_pending"

section \<open>Summary\<close>

text \<open>
  The keys of \<open>by_status\<close> are whatever hashable values the rows hold; two numbers that compare
  equal are one key.
\<close>

fun num_val :: "pyval \<Rightarrow> rat option" where
  "num_val (PBool b) = Some (if b then 1 else 0)"
| "num_val (PInt i) = Some (of_int i)"
| "num_val (PFloat r) = Some r"
| "num_val (PDec r) = Some r"
| "num_val _ = None"

definition key_eq :: "pyval \<Rightarrow> pyval \<Rightarrow> bool" where
  "key_eq a b \<longleftrightarrow> a = b \<or> (num_val a \<noteq> None \<and> num_val a = num_val b)"

fun bump :: "(pyval \<times> nat) list \<Rightarrow> pyval \<Rightarrow> (pyval \<times> nat) list" where
  "bump [] k = [(k, 1)]"
| "bump ((k', n) # h) k = (if key_eq k' k then (k', Suc n) # h else (k', n) # bump h k)"

record summary =
  target_total :: nat
  dispatched :: nat
  responded :: nat
  unreachable :: nat
  by_status :: "(pyval \<times> nat) list"

definition summary_step :: "pydict \<Rightarrow> summary \<Rightarrow> summary res" where
  "summary_step row s =
     bind_res (coerce_call_attempts (dget_or row ''callAttempts'' (PInt 0))) (\<lambda>attempts.
     let status = dget_or row ''voiceStatus'' (PStr (str ''PENDING'')) in
     if \<not> hashable status then Inl TypeError
     else Inr (s
       \<lparr>dispatched := dispatched s + (if attempts > 0 then 1 else 0),
        by_status := bump (by_status s) status,
        responded := responded s + (if is_one_of status confirmed_statuses then 1 else 0),
        unreachable := unreachable s + (if status = PStr (str ''UNREACHABLE'') then 1 else 0)\<rparr>))"

fun summary_loop :: "pydict list \<Rightarrow> summary \<Rightarrow> summary res" where
  "summary_loop [] s = Inr s"
| "summary_loop (row # rows) s = bind_res (summary_step row s) (summary_loop rows)"

definition compute_summary :: "pyval \<Rightarrow> summary res" where
  "compute_summary responses =
     bind_res (require_list responses) (\<lambda>rows.
       summary_loop rows
         \<lparr>target_total = length rows, dispatched = 0, responded = 0, unreachable = 0,
          by_status = []\<rparr>)"

section \<open>Timeout and first dispatch\<close>

fun timeout_rows :: "pydict list \<Rightarrow> (pystr \<times> string) list res" where
  "timeout_rows [] = Inr []"
| "timeout_rows (row # rows) =
     bind_res (in_set (dget row ''voiceStatus'') timeout_rewrite_statuses) (\<lambda>rewrite.
       if \<not> rewrite then timeout_rows rows
       else if \<not> nonempty_str (dget row ''employeeId'') then Inl TypeError
       else bind_res (timeout_rows rows) (\<lambda>out.
         Inr ((str_of (dget row ''employeeId''), ''UNREACHABLE'') # out)))"

definition apply_timeout :: "pyval \<Rightarrow> (pystr \<times> string) list res" where
  "apply_timeout responses = bind_res (require_list responses) timeout_rows"

fun some_undispatched :: "pydict list \<Rightarrow> bool res" where
  "some_undispatched [] = Inr False"
| "some_undispatched (row # rows) =
     bind_res (coerce_call_attempts (dget_or row ''callAttempts'' (PInt 0))) (\<lambda>attempts.
       if attempts = 0 then Inr True else some_undispatched rows)"

definition is_first_dispatch_incomplete :: "pyval \<Rightarrow> bool res" where
  "is_first_dispatch_incomplete responses =
     bind_res (require_list responses) (\<lambda>rows.
       if rows = [] then Inr False else some_undispatched rows)"

section \<open>Exclusivity\<close>

definition can_start_cycle :: "pyval \<Rightarrow> bool res" where
  "can_start_cycle cycles =
     bind_res (require_list cycles) (\<lambda>rows.
       Inr (list_all (\<lambda>row. dget row ''status'' \<noteq> PStr (str ''RUNNING'')) rows))"

section \<open>Facts\<close>

definition hashable_statuses :: "pydict list \<Rightarrow> bool" where
  "hashable_statuses rows \<longleftrightarrow> list_all (\<lambda>row. hashable (dget row ''voiceStatus'')) rows"

definition row_terminal :: "pydict \<Rightarrow> bool" where
  "row_terminal row \<longleftrightarrow> is_one_of (dget row ''voiceStatus'') terminal_voice_statuses"

lemma hashable_statuses_Cons [simp]:
  "hashable_statuses (row # rows) \<longleftrightarrow> hashable (dget row ''voiceStatus'') \<and> hashable_statuses rows"
  by (simp add: hashable_statuses_def)

lemma all_terminal_value:
  "hashable_statuses rows \<Longrightarrow> all_terminal rows = Inr (list_all row_terminal rows)"
  by (induction rows) (auto simp: in_set_def row_terminal_def)

lemma count_pending_value:
  "hashable_statuses rows \<Longrightarrow>
     count_pending rows = Inr (length (filter (\<lambda>row. \<not> row_terminal row) rows))"
  by (induction rows) (auto simp: in_set_def row_terminal_def)

lemma all_terminal_Inr_True: "all_terminal rows = Inr True \<Longrightarrow> list_all row_terminal rows"
  by (induction rows) (auto simp: bind_res_eq_Inr in_set_Inr row_terminal_def split: if_splits)

lemma count_pending_Inr:
  "count_pending rows = Inr n \<Longrightarrow>
     hashable_statuses rows \<and> n = length (filter (\<lambda>row. \<not> row_terminal row) rows)"
  by (induction rows arbitrary: n)
    (auto simp: bind_res_eq_Inr in_set_Inr row_terminal_def hashable_statuses_def split: if_splits)

text \<open>A row's contribution to each counter of the summary.\<close>

definition row_status :: "pydict \<Rightarrow> pyval" where
  "row_status row = dget_or row ''voiceStatus'' (PStr (str ''PENDING''))"

definition row_dispatched :: "pydict \<Rightarrow> bool" where
  "row_dispatched row \<longleftrightarrow>
     (\<exists>a. coerce_call_attempts (dget_or row ''callAttempts'' (PInt 0)) = Inr a \<and> a > 0)"

lemma bump_total: "sum_list (map snd (bump h k)) = Suc (sum_list (map snd h))"
  by (induction h k rule: bump.induct) auto

lemma summary_loop_Inr:
  "summary_loop rows s = Inr t \<Longrightarrow>
     target_total t = target_total s \<and>
     dispatched t = dispatched s + length (filter row_dispatched rows) \<and>
     responded t = responded s +
       length (filter (\<lambda>r. is_one_of (row_status r) confirmed_statuses) rows) \<and>
     unreachable t = unreachable s +
       length (filter (\<lambda>r. row_status r = PStr (str ''UNREACHABLE'')) rows) \<and>
     sum_list (map snd (by_status t)) = sum_list (map snd (by_status s)) + length rows"
proof (induction rows arbitrary: s)
  case (Cons row rows)
  then obtain s' where s': "summary_step row s = Inr s'" and t: "summary_loop rows s' = Inr t"
    by (auto simp: bind_res_eq_Inr)
  from s' obtain a where a: "coerce_call_attempts (dget_or row ''callAttempts'' (PInt 0)) = Inr a"
    by (auto simp: summary_step_def bind_res_eq_Inr)
  have d: "row_dispatched row \<longleftrightarrow> a > 0" using a by (simp add: row_dispatched_def)
  from s' a Cons.IH [OF t] show ?case
    by (simp add: summary_step_def Let_def row_status_def [symmetric] d bump_total split: if_splits)
       (auto simp: bump_total)
qed simp

lemma row_terminal_status:
  "row_terminal row \<longleftrightarrow>
     is_one_of (row_status row) confirmed_statuses \<or> row_status row = PStr (str ''UNREACHABLE'')"
  by (cases "dfind row ''voiceStatus''")
    (auto simp: row_terminal_def row_status_def dget_def dget_or_def terminal_voice_statuses_def
      confirmed_statuses_def is_one_of_iff)

text \<open>The rewrite the timeout asks for, applied to the rows of one cycle.\<close>

definition rewrite_row :: "(pystr \<times> string) list \<Rightarrow> pydict \<Rightarrow> pydict" where
  "rewrite_row muts row =
     (case map_of muts (str_of (dget row ''employeeId'')) of
        Some st \<Rightarrow> dset row (str ''voiceStatus'') (PStr (str st))
      | None \<Rightarrow> row)"

lemma timeout_rows_Inr:
  "timeout_rows rows = Inr out \<Longrightarrow>
     out = map (\<lambda>row. (str_of (dget row ''employeeId''), ''UNREACHABLE''))
       (filter (\<lambda>row. is_one_of (dget row ''voiceStatus'') timeout_rewrite_statuses) rows)"
  by (induction rows arbitrary: out) (auto simp: bind_res_eq_Inr in_set_Inr split: if_splits)

lemma map_of_constant: "(k, v) \<in> set (map (\<lambda>x. (f x, c)) xs) \<Longrightarrow> map_of (map (\<lambda>x. (f x, c)) xs) k = Some c"
  by (induction xs) auto

lemma map_of_constant_range: "map_of (map (\<lambda>x. (f x, c)) xs) k = Some v \<Longrightarrow> v = c"
  by (induction xs) (auto split: if_splits)

lemma rewrite_row_terminal:
  assumes out: "timeout_rows rows = Inr out" and row: "row \<in> set rows"
    and valid: "is_one_of (dget row ''voiceStatus'') valid_voice_statuses"
  shows "row_terminal (rewrite_row out row)"
proof -
  let ?id = "str_of (dget row ''employeeId'')"
  show ?thesis
  proof (cases "map_of out ?id")
    case (Some st)
    then have "st = ''UNREACHABLE''"
      unfolding timeout_rows_Inr [OF out] by (rule map_of_constant_range)
    with Some show ?thesis
      by (simp add: rewrite_row_def row_terminal_def terminal_voice_statuses_def)
  next
    case None
    have "\<not> is_one_of (dget row ''voiceStatus'') timeout_rewrite_statuses"
    proof
      assume "is_one_of (dget row ''voiceStatus'') timeout_rewrite_statuses"
      with row have "(?id, ''UNREACHABLE'') \<in> set out"
        unfolding timeout_rows_Inr [OF out] by force
      with None show False by (force simp: map_of_eq_None_iff)
    qed
    with valid None show ?thesis
      by (auto simp: rewrite_row_def row_terminal_def terminal_voice_statuses_def is_one_of_iff
          valid_voice_statuses_def confirmed_statuses_def timeout_rewrite_statuses_def)
  qed
qed

section \<open>Properties\<close>

text \<open>
  Completion and the pending counter agree, and both read an absent \<open>voiceStatus\<close>
  as pending: \<open>count_pending_responses\<close> returns the number of rows whose status is none of the
  four terminal ones, and when it returns \<open>n\<close>, \<open>is_cycle_completed\<close> returns whether \<open>n\<close> is 0.
\<close>

theorem completed_iff_none_pending:
  assumes "count_pending_responses (rows_val rows) = Inr n"
  shows "is_cycle_completed (rows_val rows) = Inr (n = 0) \<and>
    n = length (filter (\<lambda>row. \<not> is_one_of (dget row ''voiceStatus'')
      [''SAFE'', ''INJURED'', ''UNAVAILABLE'', ''UNREACHABLE'']) rows)"
proof
  have c: "hashable_statuses rows" "n = length (filter (\<lambda>row. \<not> row_terminal row) rows)"
    using assms count_pending_Inr [of rows n] by (simp_all add: count_pending_responses_def)
  then show "is_cycle_completed (rows_val rows) = Inr (n = 0)"
    by (simp add: is_cycle_completed_def all_terminal_value list_all_iff filter_empty_conv)
  show "n = length (filter (\<lambda>row. \<not> is_one_of (dget row ''voiceStatus'')
      [''SAFE'', ''INJURED'', ''UNAVAILABLE'', ''UNREACHABLE'']) rows)"
    using c(2) by (simp add: row_terminal_def terminal_voice_statuses_def confirmed_statuses_def)
qed

theorem completed_iff_none_pending_witness:
  "is_cycle_completed (rows_val [[(str ''voiceStatus'', PStr (str ''SAFE''))], []]) = Inr (1 = (0::nat))"
  by (rule completed_iff_none_pending [where n = 1, THEN conjunct1])
    (simp add: count_pending_responses_def in_set_def terminal_voice_statuses_def confirmed_statuses_def)

text \<open>
  The summary adds up: the histogram counts every row once, and the employees who
  answered plus the unreachable ones are exactly the rows that are no longer pending, so the
  cycle is complete just when they are all of them.
\<close>

theorem summary_adds_up:
  assumes "compute_summary (rows_val rows) = Inr s" and "count_pending_responses (rows_val rows) = Inr n"
  shows "target_total s = length rows \<and> sum_list (map snd (by_status s)) = target_total s \<and>
    responded s + unreachable s + n = target_total s \<and> dispatched s \<le> target_total s"
proof -
  have n: "n = length (filter (\<lambda>row. \<not> row_terminal row) rows)"
    using assms(2) count_pending_Inr [of rows n] by (simp add: count_pending_responses_def)
  have disj: "length (filter (\<lambda>r. is_one_of (row_status r) confirmed_statuses) rows) +
      length (filter (\<lambda>r. row_status r = PStr (str ''UNREACHABLE'')) rows) =
      length (filter row_terminal rows)"
    by (induction rows) (auto simp: row_terminal_status confirmed_statuses_def)
  note loop = summary_loop_Inr [OF assms(1) [unfolded compute_summary_def require_list_rows
        bind_res.simps]]
  show ?thesis
    using loop disj n sum_length_filter_compl [of row_terminal rows]
      length_filter_le [of row_dispatched rows] by simp
qed

theorem summary_adds_up_witness:
  "(let rows = [[(str ''voiceStatus'', PStr (str ''SAFE'')), (str ''callAttempts'', PDec 2)], []] in
    \<exists>s. compute_summary (rows_val rows) = Inr s \<and> target_total s = 2 \<and> responded s + unreachable s + 1 = 2)"
proof -
  let ?rows = "[[(str ''voiceStatus'', PStr (str ''SAFE'')), (str ''callAttempts'', PDec 2)], []]"
  have c: "count_pending_responses (rows_val ?rows) = Inr 1"
    by (simp add: count_pending_responses_def in_set_def terminal_voice_statuses_def confirmed_statuses_def)
  obtain s where s: "compute_summary (rows_val ?rows) = Inr s"
    by (simp add: compute_summary_def summary_step_def coerce_call_attempts_def Let_def)
  show ?thesis using summary_adds_up [OF s c] s by (auto simp: Let_def)
qed

text \<open>
  The timeout closes the cycle: on rows whose statuses are in the vocabulary, once
  the mutations \<open>apply_timeout\<close> returns are applied, \<open>is_cycle_completed\<close> holds; each mutation
  sets \<open>UNREACHABLE\<close> on a row that was \<open>PENDING\<close> or \<open>OTHER\<close>.
\<close>

theorem timeout_completes_cycle:
  assumes "list_all (\<lambda>row. is_one_of (dget row ''voiceStatus'') valid_voice_statuses) rows"
    and "apply_timeout (rows_val rows) = Inr out"
  shows "is_cycle_completed (rows_val (map (rewrite_row out) rows)) = Inr True \<and>
    (\<forall>(e, st) \<in> set out. st = ''UNREACHABLE'' \<and>
       (\<exists>row \<in> set rows. dget row ''employeeId'' = PStr e \<and>
          is_one_of (dget row ''voiceStatus'') [''PENDING'', ''OTHER'']))"
proof -
  have out: "timeout_rows rows = Inr out" using assms(2) by (simp add: apply_timeout_def)
  have tm: "list_all row_terminal (map (rewrite_row out) rows)"
    using assms(1) rewrite_row_terminal [OF out] by (auto simp: list_all_iff)
  then have "hashable_statuses (map (rewrite_row out) rows)"
    by (auto simp: hashable_statuses_def list_all_iff row_terminal_def intro: is_one_of_hashable)
  with tm have "is_cycle_completed (rows_val (map (rewrite_row out) rows)) = Inr True"
    by (simp add: is_cycle_completed_def all_terminal_value)
  moreover have ids: "timeout_rows rows = Inr out \<Longrightarrow> (e, st) \<in> set out \<Longrightarrow> st = ''UNREACHABLE'' \<and>
       (\<exists>row \<in> set rows. dget row ''employeeId'' = PStr e \<and>
          is_one_of (dget row ''voiceStatus'') [''PENDING'', ''OTHER''])" for e st
    by (induction rows arbitrary: out)
      (auto simp: bind_res_eq_Inr in_set_Inr timeout_rewrite_statuses_def nonempty_str_iff
        split: if_splits)
  ultimately show ?thesis using out by auto
qed

theorem timeout_completes_cycle_witness:
  "\<exists>out. apply_timeout (rows_val [[(str ''employeeId'', PStr (str ''E1'')), (str ''voiceStatus'', PStr (str ''OTHER''))]]) = Inr out \<and>
    is_cycle_completed (rows_val (map (rewrite_row out) [[(str ''employeeId'', PStr (str ''E1'')), (str ''voiceStatus'', PStr (str ''OTHER''))]])) = Inr True"
proof -
  let ?rows = "[[(str ''employeeId'', PStr (str ''E1'')), (str ''voiceStatus'', PStr (str ''OTHER''))]]"
  obtain out where o: "apply_timeout (rows_val ?rows) = Inr out"
    by (simp add: apply_timeout_def in_set_def timeout_rewrite_statuses_def)
  show ?thesis using timeout_completes_cycle [OF _ o] o by (simp add: valid_voice_statuses_def)
qed

end
