(* ===== verification/Auth_Audit.thy ===== *)
theory Auth_Audit
  imports Effects Py_Iso
begin

text \<open>
  Who may call and what is recorded: \<open>backend/shared/auth/authorization.py\<close> and \<open>lockout.py\<close>,
  \<open>backend/shared/audit/mask.py\<close> and \<open>logger.py\<close>, \<open>backend/shared/api/cors.py\<close>.
\<close>

section \<open>Authorization\<close>

definition is_authorized :: "pyval \<Rightarrow> pyval \<Rightarrow> bool" where
  "is_authorized claims required_group =
     (if \<not> nonempty_str required_group then False
      else case claims of
        PDict d \<Rightarrow>
          (case dfind d ''cognito:groups'' of
             None \<Rightarrow> False
           | Some PNone \<Rightarrow> False
           | Some (PStr raw) \<Rightarrow> str_of required_group \<in> set (py_split raw)
           | Some (PList raw) \<Rightarrow> required_group \<in> set (filter is_str raw)
           | Some _ \<Rightarrow> False)
      | _ \<Rightarrow> False)"

section \<open>Lockout\<close>

text \<open>\<open>xs[i:]\<close>: a negative index counts from the end, and \<open>xs[-0:]\<close> is the whole list.\<close>

definition py_from :: "'a list \<Rightarrow> int \<Rightarrow> 'a list" where
  "py_from xs i = (if i < 0 then drop (nat (int (length xs) + i)) xs else drop (nat i) xs)"

definition default_threshold :: int where
  "default_threshold = 5"

definition default_window_sec :: int where
  "default_window_sec = 30 * 60"

definition is_locked :: "int list \<Rightarrow> int \<Rightarrow> int \<Rightarrow> int \<Rightarrow> bool" where
  "is_locked failed_ats now_epoch_sec threshold window_sec =
     (if int (length failed_ats) < threshold then False
      else let cutoff = now_epoch_sec - window_sec;
               tail = py_from (sort failed_ats) (- threshold) in
        list_all (\<lambda>t. t > cutoff) tail)"

section \<open>Masking\<close>

text \<open>\<open>s[-k:]\<close> for a positive \<open>k\<close>.\<close>

definition last_chars :: "nat \<Rightarrow> pystr \<Rightarrow> pystr" where
  "last_chars k s = drop (length s - k) s"

definition mask_phone :: "pystr \<Rightarrow> pystr" where
  "mask_phone s =
     (if s = [] then s
      else if hd s \<noteq> 43 then
        (if length s \<le> 4 then s else replicate (length s - 4) 42 @ last_chars 4 s)
      else
        let body = tl s; n = length body in
        if n \<le> 4 then s else 43 # replicate (n - 4) 42 @ last_chars 4 body)"

section \<open>Audit records\<close>

definition reserved_keys :: "string list" where
  "reserved_keys = [''event'', ''timestamp'', ''principal'', ''target'', ''outcome'', ''phoneMasked'']"

text \<open>The Lambda's environment: \<open>AUDIT_LOG_GROUP_NAME\<close> and \<open>AWS_LAMBDA_FUNCTION_NAME\<close>.\<close>

record audit_env =
  log_group_name :: "pystr option"
  function_name :: "pystr option"

definition audit_now_iso :: "pystr prog" where
  "audit_now_iso = bindP now_us (\<lambda>t. ret (iso_z_seconds t))"

text \<open>
  Milliseconds since 1970-01-01. The division is exact here; the code multiplies a float, which
  can be one millisecond lower.
\<close>

definition epoch_us :: int where
  "epoch_us = 62135596800000000"

definition now_epoch_ms :: "int prog" where
  "now_epoch_ms = bindP now_us (\<lambda>t. ret ((t - epoch_us) div 1000))"

definition audit_function_name :: "'a audit_env_scheme \<Rightarrow> pystr" where
  "audit_function_name env = (case function_name env of None \<Rightarrow> str ''local'' | Some f \<Rightarrow> f)"

definition today_yyyymmdd :: "pystr prog" where
  "today_yyyymmdd = bindP now_us (\<lambda>t. ret (iso_date (nat t div 1000000 div 86400)))"

definition stream_name :: "'a audit_env_scheme \<Rightarrow> pystr prog" where
  "stream_name env = bindP today_yyyymmdd (\<lambda>d. ret (audit_function_name env @ [47] @ d))"

text \<open>The set of known streams, a module global, is threaded through.\<close>

definition ensure_log_stream :: "pystr list \<Rightarrow> pystr \<Rightarrow> pystr \<Rightarrow> pystr list prog" where
  "ensure_log_stream created lgroup stream =
     (let cache_key = lgroup @ str ''::'' @ stream in
      if cache_key \<in> set created then ret created
      else thenP
        (catchP (aws (CreateLogStream lgroup stream))
          (\<lambda>e. if e = ClientError (str ''ResourceAlreadyExistsException'') then ret PNone else raise e))
        (ret (cache_key # created)))"

definition audit_extra :: "pydict option \<Rightarrow> pydict \<Rightarrow> pydict" where
  "audit_extra extra rec =
     (case extra of
        None \<Rightarrow> rec
      | Some kvs \<Rightarrow>
          foldl (\<lambda>r (k, v). if is_one_of (PStr k) reserved_keys then r else dset r k v) rec kvs)"

definition audit_record ::
  "pystr \<Rightarrow> pystr \<Rightarrow> pyval \<Rightarrow> pystr \<Rightarrow> pystr \<Rightarrow> pystr option \<Rightarrow> pydict option \<Rightarrow> pydict" where
  "audit_record event_type ts_iso who target outcome phone extra =
     (let rec =
        [(str ''event'', PStr event_type), (str ''timestamp'', PStr ts_iso),
         (str ''principal'', who), (str ''target'', PStr target),
         (str ''outcome'', PStr outcome)] in
      audit_extra extra
        (case phone of
           None \<Rightarrow> rec
         | Some p \<Rightarrow> dset rec (str ''phoneMasked'') (PStr (mask_phone p))))"

definition write_audit_log ::
  "'a audit_env_scheme \<Rightarrow> pystr list \<Rightarrow> pystr \<Rightarrow> pyval \<Rightarrow> pystr \<Rightarrow> pystr \<Rightarrow> pystr option \<Rightarrow> pystr option \<Rightarrow>
     pydict option \<Rightarrow> pystr list prog" where
  "write_audit_log env created event_type who target outcome timestamp phone extra =
     (case log_group_name env of
        None \<Rightarrow> raise KeyError
      | Some lgroup \<Rightarrow>
          bindP (case timestamp of
                   Some (c # cs) \<Rightarrow> ret (c # cs)
                 | _ \<Rightarrow> audit_now_iso) (\<lambda>ts_iso.
          bindP (stream_name env) (\<lambda>stream.
          bindP (ensure_log_stream created lgroup stream) (\<lambda>created'.
          bindP now_epoch_ms (\<lambda>ms.
          thenP
            (aws (PutLogEvents lgroup stream ms
              (audit_record event_type ts_iso who target outcome phone extra)))
            (ret created'))))))"

section \<open>CORS headers\<close>

definition default_origin :: "pystr option \<Rightarrow> pystr" where
  "default_origin cors_allowed_origin =
     (case cors_allowed_origin of
        Some (c # cs) \<Rightarrow> c # cs
      | _ \<Rightarrow> str ''*'')"

definition build_cors_headers :: "pystr option \<Rightarrow> pystr option \<Rightarrow> pydict" where
  "build_cors_headers cors_allowed_origin allowed_origin =
     (let origin = (case allowed_origin of
          Some o' \<Rightarrow> o' | None \<Rightarrow> default_origin cors_allowed_origin) in
      [(str ''Access-Control-Allow-Origin'', PStr origin),
       (str ''Access-Control-Allow-Headers'',
        PStr (str ''Content-Type,Authorization,Idempotency-Key,X-Idempotency-Key'')),
       (str ''Access-Control-Allow-Methods'', PStr (str ''GET,POST,PUT,DELETE,PATCH,OPTIONS''))])"

definition dict_update :: "pydict \<Rightarrow> pydict \<Rightarrow> pydict" where
  "dict_update d e = foldl (\<lambda>r (k, v). dset r k v) d e"

definition with_cors_headers :: "pystr option \<Rightarrow> pydict \<Rightarrow> pystr option \<Rightarrow> pydict" where
  "with_cors_headers cors_allowed_origin headers allowed_origin =
     dict_update (build_cors_headers cors_allowed_origin allowed_origin) headers"

section \<open>Facts\<close>

lemma sorted_suffix_above:
  fixes xs :: "int list"
  assumes "sorted xs" and "k \<le> length xs"
  shows "list_all (\<lambda>t. t > c) (drop (length xs - k) xs) \<longleftrightarrow> k \<le> length (filter (\<lambda>t. t > c) xs)"
  using assms
proof (induction xs)
  case (Cons x xs)
  show ?case
  proof (cases "k \<le> length xs")
    case True
    show ?thesis
    proof (cases "x > c")
      case True
      then have "\<forall>t\<in>set xs. t > c" using Cons.prems(1) by auto
      with True Cons.prems(2) show ?thesis
        by (auto simp: list_all_iff filter_True dest!: in_set_dropD)
    next
      case False
      with Cons \<open>k \<le> length xs\<close> show ?thesis by (simp add: Suc_diff_le)
    qed
  next
    case False
    then have k: "k = Suc (length xs)" using Cons.prems(2) by simp
    let ?f = "length (filter (\<lambda>t. t > c) xs)"
    have le: "?f \<le> length xs" by (rule length_filter_le)
    have eq: "?f = length xs \<longleftrightarrow> (\<forall>t\<in>set xs. t > c)"
      by (metis filter_True filter_id_conv length_filter_less linorder_less_linear order_less_irrefl)
    show ?thesis
    proof (cases "x > c")
      case True
      then show ?thesis using k eq le by (auto simp: list_all_iff simp del: length_filter_le)
    next
      case False
      then show ?thesis using k le by (simp add: list_all_iff del: length_filter_le)
    qed
  qed
qed simp

lemma locked_iff:
  assumes "1 \<le> threshold"
  shows "is_locked h now threshold w \<longleftrightarrow>
    threshold \<le> int (length (filter (\<lambda>t. t > now - w) h))"
proof -
  have mset: "length (filter P (sort h)) = length (filter P h)" for P
    by (metis filter_sort length_sort)
  have le: "int (length (filter (\<lambda>t. t > now - w) h)) \<le> int (length h)" by simp
  show ?thesis
  proof (cases "int (length h) < threshold")
    case True
    with le have "\<not> threshold \<le> int (length (filter (\<lambda>t. t > now - w) h))" by linarith
    with True show ?thesis by (simp add: is_locked_def)
  next
    case False
    then have k: "nat threshold \<le> length (sort h)" by simp
    have "py_from (sort h) (- threshold) = drop (length (sort h) - nat threshold) (sort h)"
      using assms False by (simp add: py_from_def nat_diff_distrib' flip: nat_minus_as_int)
    with False assms sorted_suffix_above [OF sorted_sort k, of "now - w"] mset show ?thesis
      by (simp add: is_locked_def Let_def nat_le_iff)
  qed
qed

lemma length_last_chars: "length (last_chars k s) = min k (length s)"
  by (simp add: last_chars_def)

text \<open>A fold of \<open>dset\<close> never touches a key outside the folded list.\<close>

lemma audit_extra_keeps_reserved:
  "k \<in> set reserved_keys \<Longrightarrow> dfind (audit_extra extra rec) k = dfind rec k"
proof (cases extra)
  case (Some kvs)
  assume k: "k \<in> set reserved_keys"
  have "dfind (foldl (\<lambda>r (k, v). if is_one_of (PStr k) reserved_keys then r else dset r k v) rec kvs) k =
      dfind rec k"
  proof (induction kvs arbitrary: rec)
    case (Cons kv kvs)
    obtain k' v where kv: "kv = (k', v)" by force
    have "k' \<noteq> str k" if "\<not> is_one_of (PStr k') reserved_keys" using that k by auto
    then have "dfind (if is_one_of (PStr k') reserved_keys then rec else dset rec k' v) k = dfind rec k"
      by (auto simp: dfind_def map_of_dset)
    with Cons.IH kv show ?case by simp
  qed simp
  with Some show ?thesis by (simp add: audit_extra_def)
qed (simp add: audit_extra_def)

lemma dict_update_find: "dfind (dict_update d e) k =
    (case map_of (rev e) (str k) of Some v \<Rightarrow> Some v | None \<Rightarrow> dfind d k)"
proof (induction e arbitrary: d)
  case (Cons kv e)
  obtain k' v where kv: "kv = (k', v)" by force
  have "dict_update d (kv # e) = dict_update (dset d k' v) e" by (simp add: dict_update_def kv)
  with Cons kv show ?case
    by (auto simp: dfind_def map_of_dset map_add_def split: option.splits)
qed (simp add: dict_update_def)

section \<open>Properties\<close>

text \<open>
  Access is granted exactly to the members of the group: the claims are a dictionary
  whose \<open>cognito:groups\<close> claim is a list that contains the group as a string, or a string one of
  whose whitespace-separated tokens is the group; in the second case a group whose name holds
  whitespace is never granted.
\<close>

theorem authorized_iff_member:
  "is_authorized claims g =
     (\<exists>d s. claims = PDict d \<and> g = PStr s \<and> s \<noteq> [] \<and>
        ((\<exists>xs. dfind d ''cognito:groups'' = Some (PList xs) \<and> PStr s \<in> set xs) \<or>
         (\<exists>raw. dfind d ''cognito:groups'' = Some (PStr raw) \<and> s \<in> set (py_split raw) \<and>
            list_all (\<lambda>c. \<not> is_space c) s)))"
proof (cases claims)
  case (PDict d)
  show ?thesis
    by (cases g) (auto simp: is_authorized_def PDict list_all_iff dest: py_split_tokens
        split: option.splits pyval.splits)
qed (auto simp: is_authorized_def)

text \<open>
  The lock is a count over the window: for a positive threshold the account is
  locked exactly when at least that many of the recorded failures, in any order, are strictly
  newer than the start of the window; so the order in which they were recorded never matters.
\<close>

theorem locked_iff_recent_failures:
  assumes "1 \<le> threshold"
  shows "is_locked h now threshold w =
      (threshold \<le> int (length (filter (\<lambda>t. t > now - w) h))) \<and>
    is_locked (rev h) now threshold w = is_locked h now threshold w"
  using assms by (simp add: locked_iff flip: rev_filter)

theorem locked_iff_recent_failures_witness:
  "is_locked [100, 900, 200, 800, 700] 1000 2 250 \<and> is_locked [700, 800, 200, 900, 100] 1000 2 250"
  using locked_iff_recent_failures [of 2 "[100, 900, 200, 800, 700]" 1000 250] by simp

text \<open>
  With a threshold of 0 the lock is not "at least 0 recent failures": the slice
  \<open>[-0:]\<close> is the whole list, so a single failure at or before the start of the window unlocks an
  account that the documented condition declares locked.
\<close>

theorem lockout_threshold_zero:
  "is_locked h now 0 w = list_all (\<lambda>t. t > now - w) h"
  by (auto simp: is_locked_def py_from_def Let_def list_all_iff)

text \<open>
  Masking keeps the length and hides everything but the last four: for an E.164
  number with more than four digits the mask starts with \<open>+\<close>, ends with the last four
  characters, and every character between is \<open>*\<close>.
\<close>

theorem mask_hides_all_but_four:
  assumes "4 < length body"
  shows "mask_phone (43 # body) = [43] @ replicate (length body - 4) 42 @ last_chars 4 (43 # body) \<and>
    length (mask_phone (43 # body)) = length (43 # body) \<and>
    last_chars 4 (mask_phone (43 # body)) = last_chars 4 (43 # body)"
proof -
  have "length body - 3 = Suc (length body - 4)" using assms by simp
  with assms show ?thesis by (simp add: mask_phone_def last_chars_def Let_def)
qed

theorem mask_hides_all_but_four_witness:
  "length (mask_phone (str ''+819012345678'')) = 13"
proof -
  have "str ''+819012345678'' = 43 # str ''819012345678''" by (simp add: str_def)
  moreover have "length (mask_phone (43 # str ''819012345678'')) = length (43 # str ''819012345678'')"
    by (rule mask_hides_all_but_four [THEN conjunct2, THEN conjunct1]) simp
  ultimately show ?thesis by simp
qed

text \<open>
  An audit record cannot be forged through its extra fields: whatever the caller
  passes as \<open>extra\<close>, the reserved fields of the record sent to the log are the given event,
  principal, target and outcome, and the phone number appears in them masked only. Writing the
  record ends in success only after \<open>PutLogEvents\<close> with that record.
\<close>

theorem audit_record_authentic:
  assumes "exec (write_audit_log env created ev who target outcome ts phone extra) tr (Inr created')"
  shows "\<exists>lg stream ms rec. last (calls tr) = PutLogEvents lg stream ms rec \<and>
    log_group_name env = Some lg \<and>
    dget rec ''event'' = PStr ev \<and> dget rec ''principal'' = who \<and>
    dget rec ''target'' = PStr target \<and> dget rec ''outcome'' = PStr outcome \<and>
    dget rec ''phoneMasked'' = (case phone of None \<Rightarrow> PNone | Some p \<Rightarrow> PStr (mask_phone p))"
proof -
  obtain lg where lg: "log_group_name env = Some lg"
    using assms by (auto simp: write_audit_log_def split: option.splits)
  obtain stream ms t tr0 where
    c: "calls tr = tr0 @ [PutLogEvents lg stream ms (audit_record ev t who target outcome phone extra)]"
    using assms lg by (auto simp: write_audit_log_def exec_simps)
  have "dget (audit_record ev t who target outcome phone extra) ''event'' = PStr ev"
    "dget (audit_record ev t who target outcome phone extra) ''principal'' = who"
    "dget (audit_record ev t who target outcome phone extra) ''target'' = PStr target"
    "dget (audit_record ev t who target outcome phone extra) ''outcome'' = PStr outcome"
    "dget (audit_record ev t who target outcome phone extra) ''phoneMasked'' =
      (case phone of None \<Rightarrow> PNone | Some p \<Rightarrow> PStr (mask_phone p))"
    by (auto simp: audit_record_def Let_def dget_def audit_extra_keeps_reserved reserved_keys_def
        split: option.split)
  with lg c show ?thesis by auto
qed

theorem audit_record_authentic_witness:
  "\<exists>tr. last (calls tr) = PutLogEvents (str ''G'') (str ''local'' @ [47] @ iso_date 739616) 1767225600000
     (audit_record (str ''E'') [84] (PStr (str ''P'')) (str ''X'') (str ''OK'') None
        (Some [(str ''event'', PNone)])) \<and>
   (\<exists>lg stream ms rec. last (calls tr) = PutLogEvents lg stream ms rec \<and> dget rec ''event'' = PStr (str ''E''))"
proof -
  let ?env = "\<lparr>log_group_name = Some (str ''G''), function_name = None\<rparr>"
  let ?t = "63902822400000000 :: int"
  have d: "stream_name ?env = bindP now_us (\<lambda>t. ret (str ''local'' @ [47] @ iso_date (nat t div 1000000 div 86400)))"
    by (simp add: stream_name_def today_yyyymmdd_def audit_function_name_def bindP_assoc)
  have day: "nat ?t div 1000000 div 86400 = 739616" by simp
  obtain tr where tr: "exec (write_audit_log ?env [] (str ''E'') (PStr (str ''P'')) (str ''X'') (str ''OK'')
      (Some [84]) None (Some [(str ''event'', PNone)])) tr
      (Inr [str ''G'' @ str ''::'' @ str ''local'' @ [47] @ iso_date 739616])"
    and last: "last (calls tr) = PutLogEvents (str ''G'') (str ''local'' @ [47] @ iso_date 739616) 1767225600000
     (audit_record (str ''E'') [84] (PStr (str ''P'')) (str ''X'') (str ''OK'') None
        (Some [(str ''event'', PNone)]))"
  proof
    let ?q1 = "CreateLogStream (str ''G'') (str ''local'' @ [47] @ iso_date 739616)"
    let ?q2 = "PutLogEvents (str ''G'') (str ''local'' @ [47] @ iso_date 739616) 1767225600000
     (audit_record (str ''E'') [84] (PStr (str ''P'')) (str ''X'') (str ''OK'') None
        (Some [(str ''event'', PNone)]))"
    let ?tr = "[EnvEv ClockUs ?t, CallEv ?q1 (Inr PNone), EnvEv ClockUs ?t, CallEv ?q2 (Inr PNone)]"
    show "exec (write_audit_log ?env [] (str ''E'') (PStr (str ''P'')) (str ''X'') (str ''OK'')
      (Some [84]) None (Some [(str ''event'', PNone)])) ?tr
      (Inr [str ''G'' @ str ''::'' @ str ''local'' @ [47] @ iso_date 739616])"
      using day
      by (simp add: write_audit_log_def d now_us_def ensure_log_stream_def now_epoch_ms_def
          epoch_us_def exec_Call exec_Env aws_def)
    show "last (calls ?tr) = ?q2" by simp
  qed
  show ?thesis using audit_record_authentic [OF tr] last by auto
qed

text \<open>
  Merging the CORS headers never overrides the caller: every header the handler
  passes keeps its value, and the three CORS headers it does not pass are present.
\<close>

theorem cors_keeps_caller_headers:
  "dfind (with_cors_headers env headers origin) k =
     (case map_of (rev headers) (str k) of
        Some v \<Rightarrow> Some v
      | None \<Rightarrow> dfind (build_cors_headers env origin) k) \<and>
   dfind (build_cors_headers env (Some o')) ''Access-Control-Allow-Origin'' = Some (PStr o')"
  by (simp add: with_cors_headers_def dict_update_find) (simp add: build_cors_headers_def Let_def)

end
