(* ===== verification/Ddb.thy ===== *)
theory Ddb
  imports Effects "HOL-Library.AList"
begin

text \<open>
  The documented behaviour of DynamoDB that the handlers rely on: what a conditional write does to
  the one row it addresses. The locale \<open>dynamodb\<close> states the laws over any service; the in-memory
  store at the end satisfies them, and the properties that run a handler are witnessed on it.
  Pagination, which every \<open>Query\<close> and \<open>Scan\<close> of the code goes through, is here too.
\<close>

section \<open>Rows\<close>

definition ccfe :: pystr where
  "ccfe = str ''ConditionalCheckFailedException''"

fun key_attrs :: "ddb_table \<Rightarrow> string list" where
  "key_attrs CycleTable = [''cycleId'']"
| "key_attrs ResponseTable = [''cycleId'', ''employeeId'']"
| "key_attrs DictTable = [''category'', ''keyword'']"
| "key_attrs HistoryTable = [''version'', ''categoryKeyword'']"
| "key_attrs EmployeeTable = [''employeeId'']"
| "key_attrs InboundTable = [''contactId'']"
| "key_attrs TranscriptMetaTable = [''cycleId'', ''employeeIdSeq'']"
| "key_attrs RecordingMetaTable = [''cycleId'', ''employeeIdSeq'']"
| "key_attrs LockoutTable = [''userIdentifier'']"

text \<open>A number is stored as a \<open>Decimal\<close>, whatever Python number was sent.\<close>

fun ddb_norm :: "pyval \<Rightarrow> pyval" where
  "ddb_norm (PInt i) = PDec (of_int i)"
| "ddb_norm (PFloat r) = PDec r"
| "ddb_norm (PList xs) = PList (map ddb_norm xs)"
| "ddb_norm (PDict d) = PDict (map (\<lambda>(k, v). (k, ddb_norm v)) d)"
| "ddb_norm v = v"

definition norm_row :: "pydict \<Rightarrow> pydict" where
  "norm_row d = map (\<lambda>(k, v). (k, ddb_norm v)) d"

definition key_of :: "ddb_table \<Rightarrow> pydict \<Rightarrow> pyval list" where
  "key_of t d = map (\<lambda>k. ddb_norm (dget d k)) (key_attrs t)"

fun cond_holds :: "cond \<Rightarrow> pydict option \<Rightarrow> bool" where
  "cond_holds NoCond r = True"
| "cond_holds (AttrNotExists a) r = (case r of None \<Rightarrow> True | Some d \<Rightarrow> \<not> has_key d a)"
| "cond_holds (AttrExists a) r = (case r of None \<Rightarrow> False | Some d \<Rightarrow> has_key d a)"
| "cond_holds (AttrEq a v) r =
     (case r of None \<Rightarrow> False | Some d \<Rightarrow> dfind d a = Some (ddb_norm v))"
| "cond_holds (CondAnd c1 c2) r = (cond_holds c1 r \<and> cond_holds c2 r)"
| "cond_holds (CondOr c1 c2) r = (cond_holds c1 r \<or> cond_holds c2 r)"

fun dec_of :: "pyval \<Rightarrow> rat" where
  "dec_of (PDec r) = r"
| "dec_of _ = 0"

text \<open>
  \<open>SET a = v\<close>, \<open>SET a = list_append(if_not_exists(a, []), vs)\<close>, \<open>ADD a n\<close> and \<open>REMOVE a\<close>.
\<close>

fun apply_upd :: "pydict \<Rightarrow> upd \<Rightarrow> pydict" where
  "apply_upd d (SetAttr a v) = dset d (str a) (ddb_norm v)"
| "apply_upd d (ListAppend a vs) =
     dset d (str a) (PList (elems_of (dget d a) @ map ddb_norm vs))"
| "apply_upd d (AddNum a n) = dset d (str a) (PDec (dec_of (dget d a) + of_int n))"
| "apply_upd d (RemoveAttr a) = filter (\<lambda>kv. fst kv \<noteq> str a) d"

definition apply_upds :: "pydict \<Rightarrow> upd list \<Rightarrow> pydict" where
  "apply_upds d us = foldl apply_upd d us"

text \<open>The row a request writes, and its new value: \<open>None\<close> when the condition fails.\<close>

fun write_target :: "req \<Rightarrow> (ddb_table \<times> pyval list) option" where
  "write_target (PutItem t item c) = Some (t, key_of t item)"
| "write_target (UpdateItem t key us c) = Some (t, key_of t key)"
| "write_target (DeleteItem t key c) = Some (t, key_of t key)"
| "write_target _ = None"

fun write_row :: "req \<Rightarrow> pydict option \<Rightarrow> pydict option option" where
  "write_row (PutItem t item c) r = (if cond_holds c r then Some (Some (norm_row item)) else None)"
| "write_row (UpdateItem t key us c) r =
     (if cond_holds c r
      then Some (Some (apply_upds (case r of None \<Rightarrow> norm_row key | Some d \<Rightarrow> d) us)) else None)"
| "write_row (DeleteItem t key c) r = (if cond_holds c r then Some None else None)"
| "write_row _ r = Some r"

lemma apply_upds_Nil [simp]: "apply_upds d [] = d"
  by (simp add: apply_upds_def)

lemma apply_upds_Cons [simp]: "apply_upds d (u # us) = apply_upds (apply_upd d u) us"
  by (simp add: apply_upds_def)

fun upd_attr :: "upd \<Rightarrow> string" where
  "upd_attr (SetAttr a v) = a"
| "upd_attr (ListAppend a vs) = a"
| "upd_attr (AddNum a n) = a"
| "upd_attr (RemoveAttr a) = a"

lemma dfind_remove [simp]:
  "dfind (filter (\<lambda>kv. fst kv \<noteq> str a) d) k = (if k = a then None else dfind d k)"
  by (induction d) (auto simp: dfind_def)

text \<open>An update leaves every attribute it does not name alone.\<close>

lemma apply_upd_other: "upd_attr u \<noteq> a \<Longrightarrow> dfind (apply_upd d u) a = dfind d a"
  by (cases u) auto

lemma apply_upds_other: "a \<notin> upd_attr ` set us \<Longrightarrow> dfind (apply_upds d us) a = dfind d a"
  by (induction us arbitrary: d) (auto simp: apply_upd_other)

lemma ddb_norm_str [simp]: "ddb_norm (PStr s) = PStr s"
  by simp

lemma ddb_norm_eq_PStr [simp]: "ddb_norm v = PStr s \<longleftrightarrow> v = PStr s"
  by (cases v) auto

lemma dfind_norm_row: "dfind (norm_row d) k = map_option ddb_norm (dfind d k)"
  by (induction d) (auto simp: norm_row_def dfind_def)

section \<open>Transactions\<close>

text \<open>
  The typed form of a value (\<open>{"S": ...}\<close>) and the value it stands for. The decimal text of an \<open>N\<close> is
  represented by its number.
\<close>

fun unmarshal :: "pyval \<Rightarrow> pyval" where
  "unmarshal (PDict [(t, PList xs)]) = (if t = str ''L'' then PList (map unmarshal xs) else PNone)"
| "unmarshal (PDict [(t, PDict d)]) =
     (if t = str ''M'' then PDict (map (\<lambda>(k, v). (k, unmarshal v)) d) else PNone)"
| "unmarshal (PDict [(t, v)]) = (if t = str ''NULL'' then PNone else v)"
| "unmarshal _ = PNone"

definition unmarshal_row :: "pydict \<Rightarrow> pydict" where
  "unmarshal_row d = map (\<lambda>(k, v). (k, unmarshal v)) d"

fun twrite_target :: "twrite \<Rightarrow> ddb_table \<times> pyval list" where
  "twrite_target (TPut t item) = (t, key_of t (unmarshal_row item))"
| "twrite_target (TDelete t key) = (t, key_of t (unmarshal_row key))"

fun twrite_row :: "twrite \<Rightarrow> pydict option" where
  "twrite_row (TPut t item) = Some (norm_row (unmarshal_row item))"
| "twrite_row (TDelete t key) = None"

type_synonym db_rows = "ddb_table \<Rightarrow> pyval list \<Rightarrow> pydict option"

definition apply_twrite :: "twrite \<Rightarrow> db_rows \<Rightarrow> db_rows" where
  "apply_twrite w rows =
     (let t = fst (twrite_target w) in rows(t := (rows t)(snd (twrite_target w) := twrite_row w)))"

definition apply_twrites :: "twrite list \<Rightarrow> db_rows \<Rightarrow> db_rows" where
  "apply_twrites ws rows = fold apply_twrite ws rows"

lemma apply_twrites_Nil [simp]: "apply_twrites [] rows = rows"
  by (simp add: apply_twrites_def)

lemma apply_twrites_Cons [simp]: "apply_twrites (w # ws) rows = apply_twrites ws (apply_twrite w rows)"
  by (simp add: apply_twrites_def)

lemma apply_twrites_append: "apply_twrites (vs @ ws) rows = apply_twrites ws (apply_twrites vs rows)"
  by (simp add: apply_twrites_def)

lemma apply_twrite_at:
  "apply_twrite w rows t k = (if twrite_target w = (t, k) then twrite_row w else rows t k)"
  by (cases "twrite_target w") (auto simp: apply_twrite_def)

section \<open>The laws\<close>

text \<open>
  \<open>row s t k\<close> is the row with primary key \<open>k\<close> in table \<open>t\<close>. A write is atomic: its condition is
  evaluated on the row as it is, a failed condition changes nothing and is reported with the code
  \<open>ConditionalCheckFailedException\<close>, a successful one changes that row only. Requests to other
  services and readings of the environment change no row.
\<close>

text \<open>The requests that write several rows at once.\<close>

fun multi_write :: "req \<Rightarrow> bool" where
  "multi_write (BatchPut t items) = True"
| "multi_write (TransactWrite ws) = True"
| "multi_write _ = False"

definition readonly :: "req \<Rightarrow> bool" where
  "readonly q \<longleftrightarrow> write_target q = None \<and> \<not> multi_write q"

locale dynamodb =
  fixes W :: "'s ops" and row :: "'s \<Rightarrow> ddb_table \<Rightarrow> pyval list \<Rightarrow> pydict option"
  assumes write_ok:
    "write_target q = Some (t, k) \<Longrightarrow> write_row q (row s t k) = Some r \<Longrightarrow>
       (\<exists>v. fst (answer W s q) = Inr v) \<and>
       row (snd (answer W s q)) = (row s)(t := (row s t)(k := r))"
  and write_fails:
    "write_target q = Some (t, k) \<Longrightarrow> write_row q (row s t k) = None \<Longrightarrow>
       fst (answer W s q) = Inl ccfe \<and> row (snd (answer W s q)) = row s"
  and get_reads:
    "fst (answer W s (GetItem t key)) =
       Inr (PDict (case row s t (key_of t key) of None \<Rightarrow> [] | Some d \<Rightarrow> [(str ''Item'', PDict d)]))"
  and frame:
    "write_target q = None \<Longrightarrow> \<not> multi_write q \<Longrightarrow>
       row (snd (answer W s q)) = row s"
  and frame_reading: "row (snd (reading W s e)) = row s"
begin

lemma run_write:
  assumes "write_target q = Some (t, k)"
  shows "\<exists>v s'. run W (aws q) s =
     (case write_row q (row s t k) of
        Some r \<Rightarrow> (Inr v, s') | None \<Rightarrow> (Inl (ClientError ccfe), s')) \<and>
     row s' = (case write_row q (row s t k) of
        Some r \<Rightarrow> (row s)(t := (row s t)(k := r)) | None \<Rightarrow> row s)"
proof (cases "write_row q (row s t k)")
  case None
  then show ?thesis using write_fails [OF assms None]
    by (auto simp: run_aws split: prod.splits)
next
  case (Some r)
  then show ?thesis using write_ok [OF assms Some]
    by (auto simp: run_aws split: prod.splits)
qed

lemma run_write_ok:
  assumes "write_target q = Some (t, k)" "write_row q (row s t k) = Some r"
  obtains v s' where "run W (aws q) s = (Inr v, s')" "row s' = (row s)(t := (row s t)(k := r))"
  using run_write [OF assms(1), of s] assms(2) by auto

lemma run_write_fails:
  assumes "write_target q = Some (t, k)" "write_row q (row s t k) = None"
  obtains s' where "run W (aws q) s = (Inl (ClientError ccfe), s')" "row s' = row s"
  using run_write [OF assms(1), of s] assms(2) by auto

lemma run_get:
  obtains s' where "run W (aws (GetItem t key)) s =
     (Inr (PDict (case row s t (key_of t key) of
        None \<Rightarrow> [] | Some d \<Rightarrow> [(str ''Item'', PDict d)])), s')" "row s' = row s"
  using get_reads [of s t key] frame [of "GetItem t key" s]
  by (cases "answer W s (GetItem t key)") (auto simp: run_aws)

lemma run_now_frame: obtains n s' where "run W now_us s = (Inr n, s')" "row s' = row s"
  using frame_reading [of s ClockUs] by (cases "reading W s ClockUs") (auto simp: run_now)

text \<open>An invariant of the rows, kept by every request of a program.\<close>

lemma run_rows_invariant:
  assumes "all_calls P p" and "I (row s)"
    and "\<And>q s. P q \<Longrightarrow> I (row s) \<Longrightarrow> I (row (snd (answer W s q)))"
  shows "I (row (snd (run W p s)))"
  using assms(1,2) by (rule run_invariant [where I = "\<lambda>s. I (row s)"]) (simp_all add: assms(3) frame_reading)

lemma run_readonly: "all_calls readonly p \<Longrightarrow> run W p s = (x, s') \<Longrightarrow> row s' = row s"
  using run_rows_invariant [of readonly p "\<lambda>r. r = row s" s] frame by (auto simp: readonly_def)

text \<open>
  A request leaves a row with a property alone when it is no write, writes another row, or its
  condition cannot hold on such a row.
\<close>

lemma keeps_row:
  assumes "\<not> multi_write q" and "row s t k = r"
    and "write_target q = Some (t, k) \<Longrightarrow> write_row q r = None"
  shows "row (snd (answer W s q)) t k = r"
proof (cases "write_target q")
  case None
  with assms(1,2) show ?thesis using frame [OF None assms(1)] by simp
next
  case (Some tk)
  obtain t' k' where tk: "tk = (t', k')" by (cases tk)
  show ?thesis
  proof (cases "(t', k') = (t, k)")
    case True
    then show ?thesis using write_fails [of q t k s] assms Some tk by simp
  next
    case False
    then show ?thesis
      using write_ok [of q t' k' s] write_fails [of q t' k' s] Some tk assms(2)
      by (cases "write_row q (row s t' k')") auto
  qed
qed

text \<open>The row after a request, from the row before it.\<close>

lemma row_after:
  assumes "\<not> multi_write q"
  shows "row (snd (answer W s q)) t k =
    (if write_target q = Some (t, k) then
       (case write_row q (row s t k) of None \<Rightarrow> row s t k | Some r \<Rightarrow> r)
     else row s t k)"
proof (cases "write_target q")
  case None
  then show ?thesis using frame [OF None assms] by simp
next
  case (Some tk)
  obtain t' k' where tk: "tk = (t', k')" by (cases tk)
  then show ?thesis using write_ok [of q t' k' s] write_fails [of q t' k' s] Some
    by (cases "write_row q (row s t' k')") auto
qed

lemma run_put_row:
  assumes "run W (aws (PutItem t item NoCond)) s = (Inr v, s')"
  shows "row s' = (row s)(t := (row s t)(key_of t item := Some (norm_row item)))"
proof -
  obtain v' s'' where "run W (aws (PutItem t item NoCond)) s = (Inr v', s'')"
      "row s'' = (row s)(t := (row s t)(key_of t item := Some (norm_row item)))"
    by (rule run_write_ok [where q = "PutItem t item NoCond" and s = s and r = "Some (norm_row item)"]) simp_all
  with assms show ?thesis by simp
qed

lemma run_set_row:
  assumes "run W (aws (UpdateItem t key [SetAttr a x] NoCond)) s = (Inr v, s')"
    and "row s t (key_of t key) = Some d"
  shows "row s' = (row s)(t := (row s t)(key_of t key := Some (dset d (str a) (ddb_norm x))))"
proof -
  obtain v' s'' where "run W (aws (UpdateItem t key [SetAttr a x] NoCond)) s = (Inr v', s'')"
      "row s'' = (row s)(t := (row s t)(key_of t key := Some (dset d (str a) (ddb_norm x))))"
    by (rule run_write_ok [where q = "UpdateItem t key [SetAttr a x] NoCond" and s = s
          and t = t and k = "key_of t key" and r = "Some (dset d (str a) (ddb_norm x))"]) (simp_all add: assms(2))
  with assms(1) show ?thesis by simp
qed

lemma run_other_frame:
  assumes "write_target q = None" "\<not> multi_write q"
  shows "row (snd (run W (aws q) s)) = row s"
  using frame [OF assms, of s] by (auto simp: run_aws split: prod.splits sum.splits)

end

section \<open>Pagination\<close>

text \<open>
  The \<open>while True\<close> loop over \<open>LastEvaluatedKey\<close>. The fuel bounds the number of pages; running out
  is the result \<open>PageLimit\<close>, which no branch of the source has.
\<close>

definition page_items :: "pyval \<Rightarrow> pydict list" where
  "page_items resp = map items_of (elems_of (dget_or (items_of resp) ''Items'' (PList [])))"

fun pages :: "(pyval \<Rightarrow> bool) \<Rightarrow> nat \<Rightarrow> (pyval \<Rightarrow> req) \<Rightarrow> pyval \<Rightarrow> pydict list prog" where
  "pages stop 0 q last_key = raise PageLimit"
| "pages stop (Suc n) q last_key =
     bindP (aws (q last_key)) (\<lambda>resp.
       let next_key = dget (items_of resp) ''LastEvaluatedKey'' in
       if stop next_key then ret (page_items resp)
       else bindP (pages stop n q next_key) (\<lambda>more. ret (page_items resp @ more)))"

text \<open>The two tests that end the loop: \<open>last_key is None\<close> and \<open>not last_key\<close>.\<close>

definition is_none :: "pyval \<Rightarrow> bool" where
  "is_none v \<longleftrightarrow> v = PNone"

definition is_falsy :: "pyval \<Rightarrow> bool" where
  "is_falsy v \<longleftrightarrow> \<not> truthy v"

lemma is_none_PNone [simp]: "is_none PNone"
  by (simp add: is_none_def)

lemma is_falsy_PNone [simp]: "is_falsy PNone"
  by (simp add: is_falsy_def)

text \<open>The loop only stops for want of fuel after a request per unit of it.\<close>

lemma pages_limit: "exec (pages stop n q k) tr (Inl PageLimit) \<Longrightarrow> length (calls tr) = n"
proof (induction n arbitrary: k tr)
  case (Suc n)
  then show ?case by (auto simp: exec_simps Let_def split: if_splits)
qed simp

lemma pages_calls: "(\<And>k. P (q k)) \<Longrightarrow> all_calls P (pages stop n q k)"
  by (induction n arbitrary: k) (auto simp: Let_def intro!: all_calls_bindP)

lemma pages_reads:
  assumes "exec (pages stop n q k) tr r" and "c \<in> set (calls tr)"
  shows "\<exists>k'. c = q k'"
proof -
  have "all_calls (\<lambda>c. \<exists>k'. c = q k') (pages stop n q k)" by (rule pages_calls) blast
  from all_calls_exec [OF assms(1) this] assms(2) show ?thesis by (simp add: list_all_iff)
qed

section \<open>Requests the handlers share\<close>

text \<open>\<open>except ClientError\<close> that swallows some codes and re-raises the others.\<close>

definition on_codes :: "pystr list \<Rightarrow> 'a prog \<Rightarrow> 'a \<Rightarrow> 'a prog" where
  "on_codes codes p x =
     catchP p (\<lambda>e. case e of ClientError c \<Rightarrow> if c \<in> set codes then ret x else raise e | _ \<Rightarrow> raise e)"

definition cycle_key :: "pystr \<Rightarrow> pydict" where
  "cycle_key cycle_id = [(str ''cycleId'', PStr cycle_id)]"

definition response_key :: "pystr \<Rightarrow> pystr \<Rightarrow> pydict" where
  "response_key cycle_id employee_id =
     [(str ''cycleId'', PStr cycle_id), (str ''employeeId'', PStr employee_id)]"

lemma exec_on_codes_write:
  "exec (on_codes codes (thenP (aws q) (ret x)) y) tr r \<longleftrightarrow>
     (\<exists>v. tr = [CallEv q (Inr v)] \<and> r = Inr x) \<or>
     (\<exists>c. tr = [CallEv q (Inl c)] \<and> r = (if c \<in> set codes then Inr y else Inl (ClientError c)))"
proof -
  have "on_codes codes (thenP (aws q) (ret x)) y =
      Call q (\<lambda>a. case a of Inl c \<Rightarrow> if c \<in> set codes then ret y else raise (ClientError c) | Inr v \<Rightarrow> ret x)"
    by (auto simp: on_codes_def aws_def fun_eq_iff split: sum.split)
  then show ?thesis by (auto simp: exec_Call split_sum_ex)
qed

lemma all_calls_on_codes [intro]: "all_calls P p \<Longrightarrow> all_calls P (on_codes codes p x)"
  by (auto simp: on_codes_def split: pyerr.split intro!: all_calls_catchP)

context dynamodb begin

lemma run_on_codes_write:
  assumes t: "write_target q = Some (t, k)"
  obtains s' where "run W (on_codes [ccfe] (thenP (aws q) (ret x)) y) s =
      (Inr (if write_row q (row s t k) = None then y else x), s')"
    "row s' = (case write_row q (row s t k) of
       None \<Rightarrow> row s | Some r \<Rightarrow> (row s)(t := (row s t)(k := r)))"
proof (cases "write_row q (row s t k)")
  case None
  obtain s' where "run W (aws q) s = (Inl (ClientError ccfe), s')" "row s' = row s"
    by (rule run_write_fails [OF t None])
  then show thesis using None
    by (intro that [of s']) (simp_all add: on_codes_def run_catchP run_bindP)
next
  case (Some r)
  obtain v s' where "run W (aws q) s = (Inr v, s')" "row s' = (row s)(t := (row s t)(k := r))"
    by (rule run_write_ok [OF t Some])
  then show thesis using Some
    by (intro that [of s']) (simp_all add: on_codes_def run_catchP run_bindP)
qed
end

section \<open>An in-memory store\<close>

text \<open>
  The rows as a list, the clock, and the requests that are not for DynamoDB. A query returns one
  page: the rows that match, in the order of the list (reversed when \<open>ScanIndexForward\<close> is false),
  cut at \<open>Limit\<close>.
\<close>

record store =
  st_rows :: "((ddb_table \<times> pyval list) \<times> pydict) list"
  st_clock :: int
  st_log :: "req list"

definition store_row :: "store \<Rightarrow> ddb_table \<Rightarrow> pyval list \<Rightarrow> pydict option" where
  "store_row s t k = map_of (st_rows s) (t, k)"

definition put_row ::
  "((ddb_table \<times> pyval list) \<times> pydict) list \<Rightarrow> ddb_table \<times> pyval list \<Rightarrow> pydict option \<Rightarrow>
     ((ddb_table \<times> pyval list) \<times> pydict) list" where
  "put_row rows k r =
     (case r of None \<Rightarrow> filter (\<lambda>e. fst e \<noteq> k) rows
      | Some d \<Rightarrow> (k, d) # filter (\<lambda>e. fst e \<noteq> k) rows)"

lemma map_of_put_row: "map_of (put_row rows k r) = (map_of rows)(k := r)"
proof -
  have "map_of (filter (\<lambda>e. fst e \<noteq> k) rows) = (map_of rows)(k := None)"
    by (induction rows) (auto simp: fun_eq_iff)
  then show ?thesis by (cases r) (auto simp: put_row_def fun_eq_iff)
qed

definition table_rows :: "store \<Rightarrow> ddb_table \<Rightarrow> pydict list" where
  "table_rows s t = map snd (filter (\<lambda>e. fst (fst e) = t) (AList.clearjunk (st_rows s)))"

definition one_page :: "pydict list \<Rightarrow> pyval" where
  "one_page rows = PDict [(str ''Items'', PList (map PDict rows))]"

definition query_rows :: "store \<Rightarrow> ddb_table \<Rightarrow> string \<Rightarrow> pyval \<Rightarrow> bool \<Rightarrow> nat option \<Rightarrow> pydict list" where
  "query_rows s t a v fwd lmt =
     (let rows = filter (\<lambda>d. dfind d a = Some (ddb_norm v)) (table_rows s t);
          rows' = (if fwd then rows else rev rows) in
      case lmt of None \<Rightarrow> rows' | Some n \<Rightarrow> take n rows')"

definition sort_key :: "string \<Rightarrow> pydict \<Rightarrow> pystr" where
  "sort_key b d = str_of (dget d b)"

definition prefix_rows :: "store \<Rightarrow> ddb_table \<Rightarrow> string \<Rightarrow> pyval \<Rightarrow> string \<Rightarrow> pystr \<Rightarrow> pydict list" where
  "prefix_rows s t a v b p =
     sort_by (\<lambda>x y. str_le (sort_key b x) (sort_key b y))
       (filter (\<lambda>d. dfind d a = Some (ddb_norm v) \<and> prefix p (sort_key b d)) (table_rows s t))"

fun store_answer :: "store \<Rightarrow> req \<Rightarrow> resp \<times> store" where
  "store_answer s (GetItem t key) =
     (Inr (PDict (case store_row s t (key_of t key) of
        None \<Rightarrow> [] | Some d \<Rightarrow> [(str ''Item'', PDict d)])), s)"
| "store_answer s (Query t index a v fwd lmt start) = (Inr (one_page (query_rows s t a v fwd lmt)), s)"
| "store_answer s (Scan t start) = (Inr (one_page (table_rows s t)), s)"
| "store_answer s (BatchPut t items) =
     (Inr (PDict []),
      s\<lparr>st_rows := foldl (\<lambda>rows d. put_row rows (t, key_of t d) (Some (norm_row d))) (st_rows s) items\<rparr>)"
| "store_answer s (QueryKeys t key) =
     (Inr (one_page (case store_row s t (key_of t key) of None \<Rightarrow> [] | Some d \<Rightarrow> [d])), s)"
| "store_answer s (QueryPrefix t a v b p fwd n) =
     (Inr (one_page (take n ((if fwd then id else rev) (prefix_rows s t a v b p)))), s)"
| "store_answer s (ScanEq t eqs) =
     (Inr (one_page (filter (\<lambda>d. list_all (\<lambda>(k, v). map_of d k = Some (ddb_norm v)) eqs) (table_rows s t))), s)"
| "store_answer s (ScanLimit t n start) = (Inr (one_page (take n (table_rows s t))), s)"
| "store_answer s (TransactWrite ws) =
     (if distinct (map twrite_target ws) \<and> length ws \<le> 100
      then (Inr (PDict []),
        s\<lparr>st_rows := fold (\<lambda>w rows. put_row rows (twrite_target w) (twrite_row w)) ws (st_rows s)\<rparr>)
      else (Inl (str ''ValidationException''), s))"
| "store_answer s q =
     (case write_target q of
        None \<Rightarrow> (Inr (PDict []), s\<lparr>st_log := st_log s @ [q]\<rparr>)
      | Some (t, k) \<Rightarrow>
          (case write_row q (store_row s t k) of
             None \<Rightarrow> (Inl ccfe, s)
           | Some r \<Rightarrow> (Inr (PDict []), s\<lparr>st_rows := put_row (st_rows s) (t, k) r\<rparr>)))"

definition store_ops :: "store ops" where
  "store_ops = \<lparr>answer = store_answer,
     reading = (\<lambda>s e. (case e of ClockUs \<Rightarrow> st_clock s | _ \<Rightarrow> 0, s))\<rparr>"

lemma store_row_put:
  "store_row (s\<lparr>st_rows := put_row (st_rows s) (t, k) r\<rparr>) =
     (store_row s)(t := (store_row s t)(k := r))"
  by (simp add: store_row_def map_of_put_row fun_eq_iff)

lemma store_writes:
  assumes "write_target q = Some (t, k)"
  shows "store_answer s q =
    (case write_row q (store_row s t k) of
       None \<Rightarrow> (Inl ccfe, s)
     | Some r \<Rightarrow> (Inr (PDict []), s\<lparr>st_rows := put_row (st_rows s) (t, k) r\<rparr>))"
  using assms by (cases q) auto

lemma store_keeps_rows:
  assumes "write_target q = None" "\<not> multi_write q"
  shows "store_row (snd (store_answer s q)) = store_row s"
  using assms by (cases q) (auto simp: store_row_def fun_eq_iff)

interpretation store: dynamodb store_ops store_row
proof unfold_locales
  show "write_target q = Some (t, k) \<Longrightarrow> write_row q (store_row s t k) = Some r \<Longrightarrow>
       (\<exists>v. fst (answer store_ops s q) = Inr v) \<and>
       store_row (snd (answer store_ops s q)) = (store_row s)(t := (store_row s t)(k := r))" for q t k s r
    by (simp add: store_ops_def store_writes store_row_put)
  show "write_target q = Some (t, k) \<Longrightarrow> write_row q (store_row s t k) = None \<Longrightarrow>
       fst (answer store_ops s q) = Inl ccfe \<and> store_row (snd (answer store_ops s q)) = store_row s"
    for q t k s
    by (simp add: store_ops_def store_writes)
qed (simp_all add: store_ops_def store_keeps_rows)

lemma table_rows_set: "set (table_rows s t) = {d. \<exists>k. store_row s t k = Some d}"
proof -
  have "d \<in> set (table_rows s t) \<longleftrightarrow> (\<exists>k. ((t, k), d) \<in> set (AList.clearjunk (st_rows s)))" for d
    by (force simp: table_rows_def image_iff)
  moreover have "((t, k), d) \<in> set (AList.clearjunk (st_rows s)) \<longleftrightarrow> store_row s t k = Some d" for k d
    using map_of_eq_Some_iff [OF distinct_clearjunk [of "st_rows s"], of "(t, k)" d]
    by (simp add: store_row_def map_of_clearjunk)
  ultimately show ?thesis by blast
qed

section \<open>Complete queries\<close>

text \<open>
  A query of a table by its partition key that is followed to its last page, with no write in
  between, has returned every row with that key and nothing else.
\<close>

locale dynamodb_query = dynamodb +
  assumes pages_complete:
    "run W (pages stop n (Query t None a v True None) PNone) s = (Inr rows, s') \<Longrightarrow>
       set rows = {d. \<exists>k. row s t k = Some d \<and> dfind d a = Some (ddb_norm v)}"

lemma store_query_page:
  "run store_ops (aws (Query t index a v fwd lmt start)) s =
     (Inr (one_page (query_rows s t a v fwd lmt)), s)"
  by (simp add: run_aws store_ops_def)

lemma page_items_one_page [simp]: "page_items (one_page rows) = rows"
  by (simp add: page_items_def one_page_def comp_def)

lemma next_key_one_page [simp]: "dget (items_of (one_page rows)) ''LastEvaluatedKey'' = PNone"
  by (simp add: one_page_def)

lemma store_pages:
  "run store_ops (pages stop n (Query t None a v True None) PNone) s =
     (if n = 0 \<or> \<not> stop PNone then Inl PageLimit else Inr (query_rows s t a v True None), s)"
  by (induction n) (simp_all add: run_bindP store_query_page Let_def)

interpretation store: dynamodb_query store_ops store_row
proof unfold_locales
  fix stop n t a v s rows s'
  assume "run store_ops (pages stop n (Query t None a v True None) PNone) s = (Inr rows, s')"
  then have "rows = query_rows s t a v True None" by (auto simp: store_pages split: if_splits)
  then show "set rows = {d. \<exists>k. store_row s t k = Some d \<and> dfind d a = Some (ddb_norm v)}"
    using table_rows_set [of s t] by (auto simp: query_rows_def)
qed

text \<open>
  The first page of a global secondary index that has caught up with its table: it lists rows with the
  asked value only, and is not empty when there is such a row that has the attributes of the index's key.
\<close>

locale dynamodb_index = dynamodb +
  fixes index_attrs :: "string \<Rightarrow> string list"
  assumes index_rows: "answer W s (Query t (Some i) a v fwd (Some n) PNone) = (Inr resp, s') \<Longrightarrow>
      d \<in> set (page_items resp) \<Longrightarrow> dfind d a = Some (ddb_norm v)"
    and index_finds: "answer W s (Query t (Some i) a v fwd (Some n) PNone) = (Inr resp, s') \<Longrightarrow> 0 < n \<Longrightarrow>
      row s t k = Some d \<Longrightarrow> dfind d a = Some (ddb_norm v) \<Longrightarrow>
      (\<forall>x\<in>set (index_attrs i). dfind d x \<noteq> None) \<Longrightarrow> page_items resp \<noteq> []"

interpretation store: dynamodb_index store_ops store_row "\<lambda>_. [''status'', ''startedAt'']"
proof unfold_locales
  fix s t i a v fwd n resp s' d k
  assume "answer store_ops s (Query t (Some i) a v fwd (Some n) PNone) = (Inr resp, s')"
  then have r: "page_items resp = query_rows s t a v fwd (Some n)" by (auto simp: store_ops_def)
  show "dfind d a = Some (ddb_norm v)" if "d \<in> set (page_items resp)"
    using that by (auto simp: r query_rows_def Let_def dest!: in_set_takeD split: if_splits)
  show "page_items resp \<noteq> []" if "0 < n" "store_row s t k = Some d" "dfind d a = Some (ddb_norm v)"
  proof -
    have "d \<in> set (table_rows s t)" using that(2) by (auto simp: table_rows_set)
    then have "filter (\<lambda>d. dfind d a = Some (ddb_norm v)) (table_rows s t) \<noteq> []"
      using that(3) by (auto simp: filter_empty_conv)
    then show ?thesis using that(1) by (simp add: r query_rows_def Let_def)
  qed
qed

section \<open>Running a handler on the store\<close>

lemma run_store_write:
  assumes "write_target q = Some (t, k)" "write_row q (store_row s t k) = Some r"
  shows "run store_ops (aws q) s = (Inr (PDict []), s\<lparr>st_rows := put_row (st_rows s) (t, k) r\<rparr>)"
  using assms by (simp add: run_aws store_ops_def store_writes)

lemma run_store_fails:
  assumes "write_target q = Some (t, k)" "write_row q (store_row s t k) = None"
  shows "run store_ops (aws q) s = (Inl (ClientError ccfe), s)"
  using assms by (simp add: run_aws store_ops_def store_writes)

lemma run_store_get:
  "run store_ops (aws (GetItem t key)) s =
     (Inr (PDict (case store_row s t (key_of t key) of
        None \<Rightarrow> [] | Some d \<Rightarrow> [(str ''Item'', PDict d)])), s)"
  by (simp add: run_aws store_ops_def)

lemma run_store_batch: "\<exists>s'. run store_ops (aws (BatchPut t items)) s = (Inr (PDict []), s')"
  by (simp add: run_aws store_ops_def)

lemma run_store_now: "run store_ops now_us s = (Inr (st_clock s), s)"
  by (simp add: run_now store_ops_def)

lemma store_scan:
  "run store_ops (pages stop n (Scan t) PNone) s =
     (if n = 0 \<or> \<not> stop PNone then Inl PageLimit else Inr (table_rows s t), s)"
  by (induction n) (simp_all add: run_bindP run_aws store_ops_def Let_def)

text \<open>A scan followed to its last page has returned every row of the table and nothing else.\<close>

locale dynamodb_scan = dynamodb +
  assumes scan_complete:
    "run W (pages stop n (Scan t) PNone) s = (Inr rows, s') \<Longrightarrow>
       set rows = {d. \<exists>k. row s t k = Some d}"

interpretation store: dynamodb_scan store_ops store_row
proof unfold_locales
  fix stop n t s rows s'
  assume "run store_ops (pages stop n (Scan t) PNone) s = (Inr rows, s')"
  then have "rows = table_rows s t"
    by (auto simp: store_scan split: if_splits)
  then show "set rows = {d. \<exists>k. store_row s t k = Some d}" by (simp add: table_rows_set)
qed

text \<open>
  A transaction is applied as a whole or refused without an effect; a query for both key attributes
  returns the one row with that key.
\<close>

locale dynamodb_transact = dynamodb_scan +
  assumes transact: "answer W s (TransactWrite ws) = (Inr v, s') \<Longrightarrow> row s' = apply_twrites ws (row s)"
    and transact_refused: "answer W s (TransactWrite ws) = (Inl c, s') \<Longrightarrow> row s' = row s"
    and query_keys: "answer W s (QueryKeys t key) = (Inr v, s') \<Longrightarrow>
       page_items v = (case row s t (key_of t key) of None \<Rightarrow> [] | Some d \<Rightarrow> [d])"

lemma store_row_twrites:
  "map_of (fold (\<lambda>w rows. put_row rows (twrite_target w) (twrite_row w)) ws rows) (t, k) =
     apply_twrites ws (\<lambda>t k. map_of rows (t, k)) t k"
proof (induction ws arbitrary: rows)
  case (Cons w ws)
  have "(\<lambda>t k. map_of (put_row rows (twrite_target w) (twrite_row w)) (t, k)) =
      apply_twrite w (\<lambda>t k. map_of rows (t, k))"
    by (auto simp: fun_eq_iff map_of_put_row apply_twrite_at)
  then show ?case using Cons [of "put_row rows (twrite_target w) (twrite_row w)"] by simp
qed simp

interpretation store: dynamodb_transact store_ops store_row
proof unfold_locales
  fix s ws v s'
  assume "answer store_ops s (TransactWrite ws) = (Inr v, s')"
  then show "store_row s' = apply_twrites ws (store_row s)"
    by (auto simp: store_ops_def store_row_def [abs_def] store_row_twrites fun_eq_iff split: if_splits)
qed (auto simp: store_ops_def split: if_splits)

text \<open>
  A query with a prefix of the sort key returns the rows in the order of that key, the first \<open>Limit\<close> of
  them from the end it was asked to start at.
\<close>

locale dynamodb_prefix = dynamodb +
  assumes query_prefix: "answer W s (QueryPrefix t a v b p fwd n) = (Inr resp, s') \<Longrightarrow>
     \<exists>rows. set rows = {d. \<exists>k. row s t k = Some d \<and> dfind d a = Some (ddb_norm v) \<and> prefix p (sort_key b d)} \<and>
       sorted_wrt (\<lambda>x y. str_le (sort_key b x) (sort_key b y)) rows \<and>
       page_items resp = take n (if fwd then rows else rev rows)"

interpretation store: dynamodb_prefix store_ops store_row
proof unfold_locales
  fix s t a v b p fwd n resp s'
  assume "answer store_ops s (QueryPrefix t a v b p fwd n) = (Inr resp, s')"
  then have "page_items resp = take n (if fwd then prefix_rows s t a v b p else rev (prefix_rows s t a v b p))"
    by (auto simp: store_ops_def split: if_splits)
  moreover have "set (prefix_rows s t a v b p) =
      {d. \<exists>k. store_row s t k = Some d \<and> dfind d a = Some (ddb_norm v) \<and> prefix p (sort_key b d)}"
    by (auto simp: prefix_rows_def set_sort_by table_rows_set)
  moreover have "sorted_wrt (\<lambda>x y. str_le (sort_key b x) (sort_key b y)) (prefix_rows s t a v b p)"
    unfolding prefix_rows_def by (rule sorted_sort_by) (auto intro: str_le_trans simp: str_le_total)
  ultimately show "\<exists>rows. set rows =
        {d. \<exists>k. store_row s t k = Some d \<and> dfind d a = Some (ddb_norm v) \<and> prefix p (sort_key b d)} \<and>
      sorted_wrt (\<lambda>x y. str_le (sort_key b x) (sort_key b y)) rows \<and>
      page_items resp = take n (if fwd then rows else rev rows)"
    by blast
qed

end
