(* ===== verification/Cycle_Finalizer.thy ===== *)
theory Cycle_Finalizer
  imports Ddb Finalize
begin

text \<open>
  The Lambda \<open>cycle_finalizer\<close>: the three triggers that end or flag a cycle (the end of the map,
  the 30-minute warning, the 60-minute timeout), with their guarded writes.
\<close>

section \<open>Input\<close>

definition valid_triggers :: "string list" where
  "valid_triggers = [''MAP_COMPLETED'', ''TIMER_30MIN'', ''TIMER_60MIN'']"

definition finalizer_now_iso :: "pystr prog" where
  "finalizer_now_iso = bindP now_us (\<lambda>t. ret (iso_z_seconds t))"

definition finalizer_validate_event :: "pyval \<Rightarrow> (pyval \<times> pystr \<times> pydict) res" where
  "finalizer_validate_event event = (case event of
     PDict ev \<Rightarrow>
       bind_res (in_set (dget ev ''trigger'') valid_triggers) (\<lambda>known.
         if \<not> known then Inl ValueError
         else if \<not> nonempty_str (dget ev ''cycleId'') then Inl ValueError
         else Inr (dget ev ''trigger'', str_of (dget ev ''cycleId''), ev))
   | _ \<Rightarrow> Inl ValueError)"

section \<open>Requests\<close>

definition query_responses :: "nat \<Rightarrow> pystr \<Rightarrow> pydict list prog" where
  "query_responses fuel cycle_id =
     pages is_falsy fuel (Query ResponseTable None ''cycleId'' (PStr cycle_id) True None) PNone"

definition get_cycle :: "pystr \<Rightarrow> pyval prog" where
  "get_cycle cycle_id =
     bindP (aws (GetItem CycleTable (cycle_key cycle_id))) (\<lambda>resp.
       ret (dget (items_of resp) ''Item''))"

definition still_running :: cond where
  "still_running = AttrEq ''status'' (PStr (str ''RUNNING''))"

definition set_cycle_status :: "pystr \<Rightarrow> string \<Rightarrow> pystr option \<Rightarrow> bool prog" where
  "set_cycle_status cycle_id new_status completed_at =
     on_codes [ccfe]
       (thenP
         (aws (UpdateItem CycleTable (cycle_key cycle_id)
           (SetAttr ''status'' (PStr (str new_status)) #
            (case completed_at of None \<Rightarrow> [] | Some ca \<Rightarrow> [SetAttr ''completedAt'' (PStr ca)]))
           still_running))
         (ret True))
       False"

definition set_sla_warning_flag :: "pystr \<Rightarrow> bool prog" where
  "set_sla_warning_flag cycle_id =
     on_codes [ccfe]
       (thenP
         (aws (UpdateItem CycleTable (cycle_key cycle_id)
           [SetAttr ''slaWarning30min'' (PBool True)] still_running))
         (ret True))
       False"

definition not_yet_answered :: cond where
  "not_yet_answered =
     CondOr (AttrEq ''voiceStatus'' (PStr (str ''PENDING'')))
       (AttrEq ''voiceStatus'' (PStr (str ''OTHER'')))"

definition force_response_unreachable :: "pystr \<Rightarrow> pystr \<Rightarrow> unit prog" where
  "force_response_unreachable cycle_id employee_id =
     on_codes [ccfe]
       (thenP
         (aws (UpdateItem ResponseTable (response_key cycle_id employee_id)
           [SetAttr ''voiceStatus'' (PStr (str ''UNREACHABLE''))] not_yet_answered))
         (ret ()))
       ()"

definition resource_not_found :: pystr where
  "resource_not_found = str ''ResourceNotFoundException''"

definition delete_timer_rules :: "pystr \<Rightarrow> unit prog" where
  "delete_timer_rules cycle_id =
     for_each (\<lambda>p.
       let rule_name = str p @ [45] @ cycle_id in
       thenP (on_codes [resource_not_found] (thenP (aws (RemoveTargets rule_name)) (ret ())) ())
         (on_codes [resource_not_found] (thenP (aws (DeleteRule rule_name)) (ret ())) ()))
       [''cycle-30min'', ''cycle-60min'']"

definition publish_operator_notification :: "pystr \<Rightarrow> pydict \<Rightarrow> unit prog" where
  "publish_operator_notification subject message = thenP (aws (SnsPublish subject message)) (ret ())"

definition put_cycle_metric :: "string \<Rightarrow> pystr \<Rightarrow> unit prog" where
  "put_cycle_metric metric_name cycle_id = thenP (aws (PutMetricData metric_name cycle_id)) (ret ())"

definition stop_sfn_execution :: "pystr \<Rightarrow> unit prog" where
  "stop_sfn_execution execution_arn =
     on_codes [str ''ExecutionDoesNotExist'', str ''InvalidArn'']
       (thenP (aws (StopExecution (PStr execution_arn))) (ret ())) ()"

text \<open>
  The summary inside a notification is JSON: a histogram key that is \<open>None\<close>, a boolean or a number
  of type \<open>int\<close> becomes its text, and any other non-string key makes \<open>json.dumps\<close> raise
  \<open>TypeError\<close>.
\<close>

definition json_key :: "pyval \<Rightarrow> pystr res" where
  "json_key k = (case k of
     PStr s \<Rightarrow> Inr s
   | PNone \<Rightarrow> Inr (str ''null'')
   | PBool b \<Rightarrow> Inr (str (if b then ''true'' else ''false''))
   | PInt i \<Rightarrow> Inr (int_str i)
   | _ \<Rightarrow> Inl TypeError)"

definition summary_json :: "summary \<Rightarrow> pyval res" where
  "summary_json s =
     bind_res (map_res (\<lambda>(k, n). map_sum id (\<lambda>t. (t, PInt (int n))) (json_key k)) (by_status s))
       (\<lambda>hist. Inr (PDict
         [(str ''targetTotal'', PInt (int (target_total s))),
          (str ''dispatched'', PInt (int (dispatched s))),
          (str ''responded'', PInt (int (responded s))),
          (str ''unreachable'', PInt (int (unreachable s))),
          (str ''byStatus'', PDict hist)]))"

section \<open>The triggers\<close>

text \<open>The result dictionaries, by their \<open>status\<close> entry.\<close>

datatype finalizer_result =
    Incomplete nat
  | CycleCompleted summary
  | AlreadyTerminal "summary option"
  | NoOp
  | NoWarningNeeded
  | WarningApplied summary
  | TimeoutApplied nat summary

definition handle_map_completed :: "nat \<Rightarrow> pystr \<Rightarrow> finalizer_result prog" where
  "handle_map_completed fuel cycle_id =
     bindP (query_responses fuel cycle_id) (\<lambda>responses.
     bindP (lift (is_cycle_completed (rows_val responses))) (\<lambda>done.
     if \<not> done then
       bindP (lift (count_pending_responses (rows_val responses))) (\<lambda>pending.
       ret (Incomplete pending))
     else
       bindP (lift (compute_summary (rows_val responses))) (\<lambda>summary.
       bindP finalizer_now_iso (\<lambda>now.
       bindP (set_cycle_status cycle_id ''COMPLETED'' (Some now)) (\<lambda>flipped.
       if flipped then thenP (delete_timer_rules cycle_id) (ret (CycleCompleted summary))
       else ret (AlreadyTerminal (Some summary)))))))"

definition cycle_is_running :: "pyval \<Rightarrow> bool" where
  "cycle_is_running cycle \<longleftrightarrow> cycle \<noteq> PNone \<and> dget (items_of cycle) ''status'' = PStr (str ''RUNNING'')"

definition handle_timer_30min :: "nat \<Rightarrow> pystr \<Rightarrow> finalizer_result prog" where
  "handle_timer_30min fuel cycle_id =
     bindP (get_cycle cycle_id) (\<lambda>cycle.
     if \<not> cycle_is_running cycle then ret NoOp
     else
       bindP (query_responses fuel cycle_id) (\<lambda>responses.
       bindP (lift (is_first_dispatch_incomplete (rows_val responses))) (\<lambda>incomplete.
       if \<not> incomplete then ret NoWarningNeeded
       else
         bindP (set_sla_warning_flag cycle_id) (\<lambda>flagged.
         if \<not> flagged then ret NoOp
         else
           thenP (put_cycle_metric ''SlaWarning30Min'' cycle_id)
           (bindP (lift (compute_summary (rows_val responses))) (\<lambda>summary.
           bindP (lift (summary_json summary)) (\<lambda>js.
           thenP (publish_operator_notification
               (str ''[SafetyConfirmation] SLA 30min warning ('' @ cycle_id @ str '')'')
               [(str ''cycleId'', PStr cycle_id), (str ''event'', PStr (str ''SLA_WARNING_30MIN'')),
                (str ''summary'', js)])
           (ret (WarningApplied summary)))))))))"

text \<open>The timeout in three parts: after the flip to \<open>TIMEOUT\<close>, from the query to the flip, all.\<close>

definition timeout_notify :: "nat \<Rightarrow> pystr \<Rightarrow> nat \<Rightarrow> finalizer_result prog" where
  "timeout_notify fuel cycle_id stopped =
     thenP (put_cycle_metric ''CycleTimeout'' cycle_id)
     (bindP (query_responses fuel cycle_id) (\<lambda>responses_after.
     bindP (lift (compute_summary (rows_val responses_after))) (\<lambda>summary.
     bindP (lift (summary_json summary)) (\<lambda>js.
     thenP (publish_operator_notification
         (str ''[SafetyConfirmation] Cycle timeout ('' @ cycle_id @ str '')'')
         [(str ''cycleId'', PStr cycle_id), (str ''event'', PStr (str ''CYCLE_TIMEOUT_60MIN'')),
          (str ''summary'', js), (str ''stoppedResponses'', PInt (int stopped))])
     (thenP (delete_timer_rules cycle_id)
     (ret (TimeoutApplied stopped summary)))))))"

definition timeout_rewrite :: "nat \<Rightarrow> pystr \<Rightarrow> finalizer_result prog" where
  "timeout_rewrite fuel cycle_id =
     bindP (query_responses fuel cycle_id) (\<lambda>responses.
     bindP (lift (apply_timeout (rows_val responses))) (\<lambda>rewrites.
     thenP (for_each (\<lambda>(employee_id, _). force_response_unreachable cycle_id employee_id) rewrites)
     (bindP finalizer_now_iso (\<lambda>now.
     bindP (set_cycle_status cycle_id ''TIMEOUT'' (Some now)) (\<lambda>flipped.
     if \<not> flipped then ret (AlreadyTerminal None)
     else timeout_notify fuel cycle_id (length rewrites))))))"

definition handle_timer_60min :: "nat \<Rightarrow> pystr \<Rightarrow> pydict \<Rightarrow> finalizer_result prog" where
  "handle_timer_60min fuel cycle_id event =
     bindP (get_cycle cycle_id) (\<lambda>cycle.
     if \<not> cycle_is_running cycle then ret NoOp
     else
       thenP (if nonempty_str (dget event ''executionArn'')
              then stop_sfn_execution (str_of (dget event ''executionArn'')) else ret ())
       (timeout_rewrite fuel cycle_id))"

definition finalizer_lambda_handler :: "nat \<Rightarrow> pyval \<Rightarrow> finalizer_result prog" where
  "finalizer_lambda_handler fuel event =
     bindP (lift (finalizer_validate_event event)) (\<lambda>(trigger, cycle_id, ev).
       if trigger = PStr (str ''MAP_COMPLETED'') then handle_map_completed fuel cycle_id
       else if trigger = PStr (str ''TIMER_30MIN'') then handle_timer_30min fuel cycle_id
       else handle_timer_60min fuel cycle_id ev)"

section \<open>What the finalizer may write\<close>

text \<open>
  Every write is guarded: the status of a cycle changes only from \<open>RUNNING\<close>, and a Response row is
  set to \<open>UNREACHABLE\<close> only from \<open>PENDING\<close> or \<open>OTHER\<close>.
\<close>

fun guarded :: "req \<Rightarrow> bool" where
  "guarded (UpdateItem t k us c) =
     ((t = CycleTable \<and> c = still_running) \<or>
      (t = ResponseTable \<and> c = not_yet_answered \<and>
       us = [SetAttr ''voiceStatus'' (PStr (str ''UNREACHABLE''))]))"
| "guarded (PutItem t i c) = False"
| "guarded (DeleteItem t k c) = False"
| "guarded (BatchPut t items) = False"
| "guarded (TransactWrite ws) = False"
| "guarded _ = True"

lemmas finalizer_steps =
  query_responses_def get_cycle_def set_cycle_status_def set_sla_warning_flag_def
  force_response_unreachable_def delete_timer_rules_def publish_operator_notification_def
  put_cycle_metric_def stop_sfn_execution_def finalizer_now_iso_def

lemma guarded_steps:
  "all_calls guarded (query_responses fuel c)" "all_calls guarded (get_cycle c)"
  "all_calls guarded (set_cycle_status c st ca)" "all_calls guarded (set_sla_warning_flag c)"
  "all_calls guarded (force_response_unreachable c e)" "all_calls guarded (delete_timer_rules c)"
  "all_calls guarded (publish_operator_notification sb m)" "all_calls guarded (put_cycle_metric mn c)"
  "all_calls guarded (stop_sfn_execution arn)" "all_calls guarded finalizer_now_iso"
  by (auto simp: finalizer_steps Let_def
      intro!: all_calls_bindP all_calls_on_codes all_calls_for_each pages_calls)

lemma guarded_timer_60min: "all_calls guarded (handle_timer_60min fuel c ev)"
  by (auto simp: handle_timer_60min_def timeout_rewrite_def timeout_notify_def
      intro!: all_calls_bindP guarded_steps all_calls_for_each)

lemma guarded_finalizer: "all_calls guarded (finalizer_lambda_handler fuel event)"
  by (auto simp: finalizer_lambda_handler_def handle_map_completed_def handle_timer_30min_def
      intro!: all_calls_bindP guarded_steps guarded_timer_60min)

definition answered :: "pydict \<Rightarrow> bool" where
  "answered d \<longleftrightarrow> \<not> is_one_of (dget d ''voiceStatus'') [''PENDING'', ''OTHER'']"

definition left_running :: "pydict \<Rightarrow> bool" where
  "left_running d \<longleftrightarrow> dget d ''status'' \<noteq> PStr (str ''RUNNING'')"

lemma still_running_fails: "left_running d \<Longrightarrow> \<not> cond_holds still_running (Some d)"
  by (auto simp: left_running_def still_running_def dget_def)

lemma not_yet_answered_iff: "cond_holds not_yet_answered (Some d) \<longleftrightarrow> \<not> answered d"
  by (auto simp: answered_def not_yet_answered_def dget_def is_one_of_iff split: option.splits)

text \<open>The value a Response row has after a forced update.\<close>

definition flipped_row :: "pydict option \<Rightarrow> pydict option" where
  "flipped_row r = (case r of
     None \<Rightarrow> None
   | Some d \<Rightarrow>
       Some (if answered d then d else dset d (str ''voiceStatus'') (PStr (str ''UNREACHABLE''))))"

lemma answered_flipped: "flipped_row r = Some d \<Longrightarrow> answered d"
  by (auto simp: flipped_row_def answered_def split: option.splits if_splits)

lemma flipped_idem [simp]: "flipped_row (flipped_row r) = flipped_row r"
  by (auto simp: flipped_row_def answered_def split: option.split)

context dynamodb begin

lemma guarded_keeps_cycle:
  assumes "guarded q" "row s CycleTable k = Some d" "left_running d"
  shows "row (snd (answer W s q)) CycleTable k = Some d"
proof (rule keeps_row)
  show "\<not> multi_write q" using assms(1) by (cases q) auto
  show "write_row q (Some d) = None" if "write_target q = Some (CycleTable, k)"
    using assms(1,3) that still_running_fails [of d] by (cases q) auto
qed (rule assms(2))

lemma guarded_keeps_response:
  assumes "guarded q" "row s ResponseTable k = Some d" "answered d"
  shows "row (snd (answer W s q)) ResponseTable k = Some d"
proof (rule keeps_row)
  show "\<not> multi_write q" using assms(1) by (cases q) auto
  show "write_row q (Some d) = None" if "write_target q = Some (ResponseTable, k)"
    using assms(1,3) that not_yet_answered_iff [of d] by (cases q) auto
qed (rule assms(2))

lemma guarded_run_keeps:
  assumes "all_calls guarded p"
  shows "row s CycleTable k = Some d \<Longrightarrow> left_running d \<Longrightarrow> row (snd (run W p s)) CycleTable k = Some d"
    and "row s ResponseTable k = Some d \<Longrightarrow> answered d \<Longrightarrow> row (snd (run W p s)) ResponseTable k = Some d"
  using run_rows_invariant [OF assms, of "\<lambda>r. r CycleTable k = Some d" s]
    run_rows_invariant [OF assms, of "\<lambda>r. r ResponseTable k = Some d" s]
    guarded_keeps_cycle guarded_keeps_response by blast+

lemma run_force:
  obtains s' where "run W (force_response_unreachable c e) s = (Inr (), s')"
    "row s' = (row s)(ResponseTable := (row s ResponseTable)([PStr c, PStr e] :=
       flipped_row (row s ResponseTable [PStr c, PStr e])))"
proof -
  let ?q = "UpdateItem ResponseTable (response_key c e)
      [SetAttr ''voiceStatus'' (PStr (str ''UNREACHABLE''))] not_yet_answered"
  let ?r = "row s ResponseTable [PStr c, PStr e]"
  have t: "write_target ?q = Some (ResponseTable, [PStr c, PStr e])"
    by (simp add: key_of_def response_key_def)
  have w: "write_row ?q ?r = (case ?r of None \<Rightarrow> None | Some d \<Rightarrow>
      if answered d then None else Some (flipped_row ?r))"
    by (auto simp: not_yet_answered_iff flipped_row_def split: option.split)
      (simp add: not_yet_answered_def)
  obtain s' where run: "run W (force_response_unreachable c e) s =
      (Inr (if write_row ?q ?r = None then () else ()), s')"
    and row': "row s' = (case write_row ?q ?r of None \<Rightarrow> row s
      | Some r \<Rightarrow> (row s)(ResponseTable := (row s ResponseTable)([PStr c, PStr e] := r)))"
    unfolding force_response_unreachable_def by (rule run_on_codes_write [OF t])
  have "row s' = (row s)(ResponseTable := (row s ResponseTable)([PStr c, PStr e] := flipped_row ?r))"
    unfolding row' w by (auto simp: flipped_row_def fun_eq_iff split: option.split)
  with run show thesis using that by simp
qed

lemma run_force_all:
  obtains s' where "run W (for_each (\<lambda>(e, _). force_response_unreachable c e) xs) s = (Inr (), s')"
    "row s' = (row s)(ResponseTable := (\<lambda>k.
       if \<exists>e\<in>fst ` set xs. k = [PStr c, PStr e] then flipped_row (row s ResponseTable k)
       else row s ResponseTable k))"
proof (induction xs arbitrary: s thesis)
  case Nil
  show ?case by (rule Nil [of s]) simp_all
next
  case (Cons x xs)
  obtain e st where x: "x = (e, st)" by force
  obtain s1 where r1: "run W (force_response_unreachable c e) s = (Inr (), s1)"
    "row s1 = (row s)(ResponseTable := (row s ResponseTable)([PStr c, PStr e] :=
       flipped_row (row s ResponseTable [PStr c, PStr e])))" by (rule run_force)
  obtain s2 where r2: "run W (for_each (\<lambda>(e, _). force_response_unreachable c e) xs) s1 = (Inr (), s2)"
    "row s2 = (row s1)(ResponseTable := (\<lambda>k.
       if \<exists>e\<in>fst ` set xs. k = [PStr c, PStr e] then flipped_row (row s1 ResponseTable k)
       else row s1 ResponseTable k))" by (rule Cons.IH)
  show ?case
  proof (rule Cons.prems)
    show "run W (for_each (\<lambda>(e, _). force_response_unreachable c e) (x # xs)) s = (Inr (), s2)"
      using r1(1) r2(1) by (simp add: x run_bindP)
    show "row s2 = (row s)(ResponseTable := (\<lambda>k.
       if \<exists>e\<in>fst ` set (x # xs). k = [PStr c, PStr e] then flipped_row (row s ResponseTable k)
       else row s ResponseTable k))"
      unfolding r2(2) r1(2) by (auto simp: x fun_eq_iff)
  qed
qed

end

lemma readonly_steps:
  "all_calls readonly (query_responses fuel c)" "all_calls readonly (get_cycle c)"
  "all_calls readonly (delete_timer_rules c)" "all_calls readonly (publish_operator_notification sb m)"
  "all_calls readonly (put_cycle_metric mn c)" "all_calls readonly (stop_sfn_execution arn)"
  "all_calls readonly finalizer_now_iso"
  by (auto simp: finalizer_steps readonly_def Let_def
      intro!: all_calls_bindP all_calls_on_codes all_calls_for_each pages_calls)

text \<open>A Response row the timeout sees and rewrites is among the mutations.\<close>

lemma timeout_rows_ids:
  "timeout_rows rows = Inr out \<Longrightarrow> d \<in> set rows \<Longrightarrow> \<not> answered d \<Longrightarrow>
     nonempty_str (dget d ''employeeId'')"
proof (induction rows arbitrary: out)
  case (Cons r rows)
  then show ?case
    by (cases "d = r")
      (auto simp: bind_res_eq_Inr in_set_Inr answered_def timeout_rewrite_statuses_def split: if_splits)
qed simp

lemma apply_timeout_covers:
  assumes "apply_timeout (rows_val rows) = Inr out" and "d \<in> set rows" and "\<not> answered d"
  obtains e where "dget d ''employeeId'' = PStr e" "e \<in> fst ` set out"
proof -
  have out: "timeout_rows rows = Inr out" using assms(1) by (simp add: apply_timeout_def)
  obtain e where e: "dget d ''employeeId'' = PStr e"
    using timeout_rows_ids [OF out assms(2,3)] by (auto simp: nonempty_str_iff)
  have "d \<in> set (filter (\<lambda>row. is_one_of (dget row ''voiceStatus'') timeout_rewrite_statuses) rows)"
    using assms(2,3) by (simp add: answered_def timeout_rewrite_statuses_def)
  then have "e \<in> fst ` set out"
    unfolding timeout_rows_Inr [OF out] using e by (force simp: image_iff)
  with e show thesis by (rule that)
qed

lemma readonly_notify: "all_calls readonly (timeout_notify fuel c n)"
  by (auto simp: timeout_notify_def intro!: all_calls_bindP readonly_steps)

context dynamodb begin

lemma run_set_status:
  assumes "run W (set_cycle_status c st (Some ca)) s = (Inr True, s')"
  shows "\<exists>d. row s' = (row s)(CycleTable := (row s CycleTable)([PStr c] :=
    Some (dset (dset d (str ''status'') (PStr (str st))) (str ''completedAt'') (PStr ca))))"
proof -
  let ?q = "UpdateItem CycleTable (cycle_key c) [SetAttr ''status'' (PStr (str st)),
      SetAttr ''completedAt'' (PStr ca)] still_running"
  have t: "write_target ?q = Some (CycleTable, [PStr c])" by (simp add: key_of_def cycle_key_def)
  obtain s2 where r: "run W (on_codes [ccfe] (thenP (aws ?q) (ret True)) False) s =
      (Inr (if write_row ?q (row s CycleTable [PStr c]) = None then False else True), s2)"
    and row2: "row s2 = (case write_row ?q (row s CycleTable [PStr c]) of None \<Rightarrow> row s
      | Some r \<Rightarrow> (row s)(CycleTable := (row s CycleTable)([PStr c] := r)))"
    by (rule run_on_codes_write [OF t])
  have "s2 = s'" "write_row ?q (row s CycleTable [PStr c]) \<noteq> None"
    using r assms by (auto simp: set_cycle_status_def split: if_splits)
  then show ?thesis using row2 by (auto split: if_splits)
qed

end

context dynamodb_query begin

lemma timeout_rewrites:
  assumes run: "run W (timeout_rewrite fuel c) s = (Inr (TimeoutApplied n summ), s')"
    and keys: "\<And>k d. row s ResponseTable k = Some d \<Longrightarrow> key_of ResponseTable d = k"
  shows "(\<forall>k d. row s' ResponseTable k = Some d \<and> dget d ''cycleId'' = PStr c \<longrightarrow> answered d) \<and>
    (\<exists>d t. row s' CycleTable [PStr c] = Some d \<and> dget d ''status'' = PStr (str ''TIMEOUT'') \<and>
       dget d ''completedAt'' = PStr (iso_z_seconds t))"
proof -
  obtain rows s1 where q: "run W (query_responses fuel c) s = (Inr rows, s1)"
    and r1: "run W (bindP (lift (apply_timeout (rows_val rows))) (\<lambda>rewrites.
     thenP (for_each (\<lambda>(employee_id, _). force_response_unreachable c employee_id) rewrites)
     (bindP finalizer_now_iso (\<lambda>now.
     bindP (set_cycle_status c ''TIMEOUT'' (Some now)) (\<lambda>flipped.
     if \<not> flipped then ret (AlreadyTerminal None)
     else timeout_notify fuel c (length rewrites)))))) s1 = (Inr (TimeoutApplied n summ), s')"
    using run unfolding timeout_rewrite_def by (rule run_bindP_InrE)
  obtain out where out: "apply_timeout (rows_val rows) = Inr out"
    using r1 by (cases "apply_timeout (rows_val rows)") auto
  obtain s2 where f: "run W (for_each (\<lambda>(e, _). force_response_unreachable c e) out) s1 = (Inr (), s2)"
    and row2: "row s2 = (row s1)(ResponseTable := (\<lambda>k.
       if \<exists>e\<in>fst ` set out. k = [PStr c, PStr e] then flipped_row (row s1 ResponseTable k)
       else row s1 ResponseTable k))" by (rule run_force_all)
  have r2: "run W (bindP finalizer_now_iso (\<lambda>now.
     bindP (set_cycle_status c ''TIMEOUT'' (Some now)) (\<lambda>flipped.
     if \<not> flipped then ret (AlreadyTerminal None)
     else timeout_notify fuel c (length out)))) s2 = (Inr (TimeoutApplied n summ), s')"
    using r1 f out by (simp add: run_bindP)
  obtain t s3 where now: "run W finalizer_now_iso s2 = (Inr (iso_z_seconds t), s3)"
    by (cases "reading W s2 ClockUs") (auto simp: finalizer_now_iso_def run_bindP run_now)
  obtain b s4 where st: "run W (set_cycle_status c ''TIMEOUT'' (Some (iso_z_seconds t))) s3 = (Inr b, s4)"
    and r4: "run W (if \<not> b then ret (AlreadyTerminal None) else timeout_notify fuel c (length out)) s4 =
      (Inr (TimeoutApplied n summ), s')"
    using r2 now by (auto simp: run_bindP split: prod.splits sum.splits)
  then have b: "b" by (auto split: if_splits)
  have rows1: "row s1 = row s" by (rule run_readonly [OF readonly_steps(1) q])
  have rows3: "row s3 = row s2" by (rule run_readonly [OF readonly_steps(7) now])
  have rows': "row s' = row s4" by (rule run_readonly [OF readonly_notify]) (use r4 b in simp)
  obtain d4 where row4: "row s4 = (row s3)(CycleTable := (row s3 CycleTable)([PStr c] :=
      Some (dset (dset d4 (str ''status'') (PStr (str ''TIMEOUT''))) (str ''completedAt'')
        (PStr (iso_z_seconds t)))))" using run_set_status [of c "''TIMEOUT''" "iso_z_seconds t" s3 s4] st b by auto
  have ans: "answered d" if d: "row s' ResponseTable k = Some d" "dget d ''cycleId'' = PStr c" for k d
  proof (rule ccontr)
    assume na: "\<not> answered d"
    have d2: "row s2 ResponseTable k = Some d" using d(1) rows' row4 rows3 by simp
    have unflipped: "\<not> (\<exists>e\<in>fst ` set out. k = [PStr c, PStr e])"
      using d2 na row2 answered_flipped by (auto split: if_splits)
    then have d0: "row s ResponseTable k = Some d" using d2 row2 rows1 by simp
    have "dfind d ''cycleId'' = Some (ddb_norm (PStr c))"
      using d(2) by (auto simp: dget_def split: option.splits)
    with d0 have "d \<in> set rows"
      using pages_complete [OF q [unfolded query_responses_def]] by auto
    then obtain e where e: "dget d ''employeeId'' = PStr e" "e \<in> fst ` set out"
      using apply_timeout_covers [OF out _ na] by blast
    have "k = [PStr c, PStr e]" using keys [OF d0] d(2) e(1) by (simp add: key_of_def)
    with unflipped e(2) show False by blast
  qed
  have "row s' CycleTable [PStr c] = Some (dset (dset d4 (str ''status'') (PStr (str ''TIMEOUT'')))
      (str ''completedAt'') (PStr (iso_z_seconds t)))" using rows' row4 by simp
  then show ?thesis using ans by (intro conjI exI) auto
qed

lemma timeout_closes:
  assumes run: "run W (handle_timer_60min fuel c ev) s = (Inr (TimeoutApplied n summ), s')"
    and keys: "\<And>k d. row s ResponseTable k = Some d \<Longrightarrow> key_of ResponseTable d = k"
  shows "(\<forall>k d. row s' ResponseTable k = Some d \<and> dget d ''cycleId'' = PStr c \<longrightarrow> answered d) \<and>
    (\<exists>d t. row s' CycleTable [PStr c] = Some d \<and> dget d ''status'' = PStr (str ''TIMEOUT'') \<and>
       dget d ''completedAt'' = PStr (iso_z_seconds t))"
proof -
  obtain cyc s1 where g: "run W (get_cycle c) s = (Inr cyc, s1)"
    and r: "run W (if \<not> cycle_is_running cyc then ret NoOp
      else thenP (if nonempty_str (dget ev ''executionArn'')
              then stop_sfn_execution (str_of (dget ev ''executionArn'')) else ret ())
        (timeout_rewrite fuel c)) s1 = (Inr (TimeoutApplied n summ), s')"
    using run unfolding handle_timer_60min_def by (rule run_bindP_InrE)
  from r have "run W (thenP (if nonempty_str (dget ev ''executionArn'')
              then stop_sfn_execution (str_of (dget ev ''executionArn'')) else ret ())
        (timeout_rewrite fuel c)) s1 = (Inr (TimeoutApplied n summ), s')" by (auto split: if_splits)
  then obtain u s2 where stop: "run W (if nonempty_str (dget ev ''executionArn'')
              then stop_sfn_execution (str_of (dget ev ''executionArn'')) else ret ()) s1 = (Inr u, s2)"
    and r2: "run W (timeout_rewrite fuel c) s2 = (Inr (TimeoutApplied n summ), s')"
    by (rule run_bindP_InrE)
  have "row s1 = row s" by (rule run_readonly [OF readonly_steps(2) g])
  moreover have "row s2 = row s1" by (rule run_readonly [OF _ stop]) (simp add: readonly_steps)
  ultimately have "\<And>k d. row s2 ResponseTable k = Some d \<Longrightarrow> key_of ResponseTable d = k"
    using keys by simp
  from timeout_rewrites [OF r2 this] show ?thesis .
qed

end

section \<open>Properties\<close>

text \<open>
  Property C6. No trigger overwrites a final state: on any service with DynamoDB's write laws,
  whatever event the finalizer is given and however it ends, a cycle that is no longer \<open>RUNNING\<close>
  keeps its row, and so does every Response row with a status other than \<open>PENDING\<close> and \<open>OTHER\<close>.
\<close>

theorem finalizer_never_overwrites:
  assumes "dynamodb W row"
  shows "(row s CycleTable k = Some d \<and> left_running d \<longrightarrow>
      row (snd (run W (finalizer_lambda_handler fuel event) s)) CycleTable k = Some d) \<and>
    (row s ResponseTable k' = Some d' \<and> answered d' \<longrightarrow>
      row (snd (run W (finalizer_lambda_handler fuel event) s)) ResponseTable k' = Some d')"
  using dynamodb.guarded_run_keeps [OF assms guarded_finalizer] by blast

definition sample_cycle_store :: "string \<Rightarrow> store" where
  "sample_cycle_store st = \<lparr>st_rows =
     [((CycleTable, [PStr (str ''C'')]),
        [(str ''cycleId'', PStr (str ''C'')), (str ''status'', PStr (str st))]),
      ((ResponseTable, [PStr (str ''C''), PStr (str ''E'')]),
        [(str ''cycleId'', PStr (str ''C'')), (str ''employeeId'', PStr (str ''E'')),
         (str ''voiceStatus'', PStr (str ''OTHER''))])],
      st_clock = 63902822400000000, st_log = []\<rparr>"

theorem finalizer_never_overwrites_witness:
  "store_row (snd (run store_ops (finalizer_lambda_handler 5 (PDict
      [(str ''trigger'', PStr (str ''TIMER_60MIN'')), (str ''cycleId'', PStr (str ''C''))]))
      (sample_cycle_store ''COMPLETED''))) CycleTable [PStr (str ''C'')] =
    Some [(str ''cycleId'', PStr (str ''C'')), (str ''status'', PStr (str ''COMPLETED''))]"
proof -
  have "store_row (sample_cycle_store ''COMPLETED'') CycleTable [PStr (str ''C'')] =
      Some [(str ''cycleId'', PStr (str ''C'')), (str ''status'', PStr (str ''COMPLETED''))]"
    by (simp add: sample_cycle_store_def store_row_def)
  then show ?thesis
    using finalizer_never_overwrites [OF store.dynamodb_axioms] by (simp add: left_running_def)
qed


text \<open>A run of the timeout on the sample store, where employee \<open>E\<close> is still at \<open>OTHER\<close>.\<close>

lemma sample_rows:
  "query_rows (sample_cycle_store ''RUNNING'') ResponseTable ''cycleId'' (PStr (str ''C'')) True None =
     [[(str ''cycleId'', PStr (str ''C'')), (str ''employeeId'', PStr (str ''E'')),
       (str ''voiceStatus'', PStr (str ''OTHER''))]]"
  by (simp add: query_rows_def table_rows_def sample_cycle_store_def)

lemma sample_apply:
  "apply_timeout (rows_val [[(str ''cycleId'', PStr (str ''C'')), (str ''employeeId'', PStr (str ''E'')),
       (str ''voiceStatus'', PStr (str ''OTHER''))]]) = Inr [(str ''E'', ''UNREACHABLE'')]"
  by (simp add: apply_timeout_def in_set_def timeout_rewrite_statuses_def)

abbreviation sample_answered :: store where
  "sample_answered \<equiv> \<lparr>st_rows =
     [((ResponseTable, [PStr (str ''C''), PStr (str ''E'')]),
        [(str ''cycleId'', PStr (str ''C'')), (str ''employeeId'', PStr (str ''E'')),
         (str ''voiceStatus'', PStr (str ''UNREACHABLE''))]),
      ((CycleTable, [PStr (str ''C'')]),
        [(str ''cycleId'', PStr (str ''C'')), (str ''status'', PStr (str ''RUNNING''))])],
      st_clock = 63902822400000000, st_log = []\<rparr>"

lemma sample_force:
  "run store_ops (force_response_unreachable (str ''C'') (str ''E'')) (sample_cycle_store ''RUNNING'') =
     (Inr (), sample_answered)"
  by (simp add: force_response_unreachable_def on_codes_def run_simps store_ops_def response_key_def
      key_of_def store_row_def sample_cycle_store_def not_yet_answered_def put_row_def)

lemma sample_flip:
  "run store_ops (set_cycle_status (str ''C'') ''TIMEOUT'' (Some t)) sample_answered =
     (Inr True, sample_answered\<lparr>st_rows :=
      [((CycleTable, [PStr (str ''C'')]),
        [(str ''cycleId'', PStr (str ''C'')), (str ''status'', PStr (str ''TIMEOUT'')),
         (str ''completedAt'', PStr t)]),
       ((ResponseTable, [PStr (str ''C''), PStr (str ''E'')]),
        [(str ''cycleId'', PStr (str ''C'')), (str ''employeeId'', PStr (str ''E'')),
         (str ''voiceStatus'', PStr (str ''UNREACHABLE''))])]\<rparr>)"
  by (simp add: set_cycle_status_def on_codes_def run_simps store_ops_def cycle_key_def
      key_of_def store_row_def still_running_def put_row_def)

abbreviation sample_timed_out :: "pystr \<Rightarrow> store" where
  "sample_timed_out t \<equiv> sample_answered\<lparr>st_rows :=
      [((CycleTable, [PStr (str ''C'')]),
        [(str ''cycleId'', PStr (str ''C'')), (str ''status'', PStr (str ''TIMEOUT'')),
         (str ''completedAt'', PStr t)]),
       ((ResponseTable, [PStr (str ''C''), PStr (str ''E'')]),
        [(str ''cycleId'', PStr (str ''C'')), (str ''employeeId'', PStr (str ''E'')),
         (str ''voiceStatus'', PStr (str ''UNREACHABLE''))])]\<rparr>"

lemma sample_summary:
  "\<exists>summ js. compute_summary (rows_val (query_rows (sample_timed_out t) ResponseTable ''cycleId''
      (PStr (str ''C'')) True None)) = Inr summ \<and> summary_json summ = Inr js"
  by (simp add: query_rows_def table_rows_def compute_summary_def summary_json_def json_key_def
      summary_step_def coerce_call_attempts_def Let_def)

lemma sample_log: "query_rows (s\<lparr>st_log := l\<rparr>) t a v b n = query_rows s t a v b n"
  by (simp add: query_rows_def table_rows_def)

lemma sample_delete_rules:
  "\<exists>l. run store_ops (delete_timer_rules c) (s\<lparr>st_log := x\<rparr>) = (Inr (), s\<lparr>st_log := l\<rparr>)"
  by (simp add: delete_timer_rules_def on_codes_def run_simps store_ops_def Let_def) blast

lemma sample_notify:
  "\<exists>summ l. run store_ops (timeout_notify 1 (str ''C'') 1) (sample_timed_out t) =
    (Inr (TimeoutApplied 1 summ), (sample_timed_out t)\<lparr>st_log := l\<rparr>)"
proof -
  obtain summ js where j: "compute_summary (rows_val (query_rows (sample_timed_out t) ResponseTable ''cycleId''
      (PStr (str ''C'')) True None)) = Inr summ" "summary_json summ = Inr js"
    using sample_summary by blast
  have metric: "run store_ops (put_cycle_metric m c) s = (Inr (), s\<lparr>st_log := st_log s @ [PutMetricData m c]\<rparr>)"
    for m c s by (simp add: put_cycle_metric_def run_simps store_ops_def)
  have notify: "run store_ops (publish_operator_notification m c) s = (Inr (), s\<lparr>st_log := st_log s @ [SnsPublish m c]\<rparr>)"
    for m c s by (simp add: publish_operator_notification_def run_simps store_ops_def)
  obtain l where l: "run store_ops (delete_timer_rules (str ''C''))
       (sample_timed_out t\<lparr>st_log := x\<rparr>) = (Inr (), sample_timed_out t\<lparr>st_log := l x\<rparr>)" for x
  proof -
    have "\<exists>f. \<forall>x. run store_ops (delete_timer_rules (str ''C''))
       (sample_timed_out t\<lparr>st_log := x\<rparr>) = (Inr (), sample_timed_out t\<lparr>st_log := f x\<rparr>)"
      by (rule choice) (intro allI sample_delete_rules)
    then show ?thesis using that by blast
  qed
  show ?thesis
    by (simp add: timeout_notify_def query_responses_def run_bindP metric notify store_pages
       sample_log j l del: pages.simps store.select_convs store.update_convs) blast
qed

lemma sample_timeout:
  "\<exists>summ t l. run store_ops (handle_timer_60min 1 (str ''C'') []) (sample_cycle_store ''RUNNING'') =
    (Inr (TimeoutApplied 1 summ), (sample_timed_out t)\<lparr>st_log := l\<rparr>)"
proof -
  have get: "run store_ops (get_cycle (str ''C'')) (sample_cycle_store ''RUNNING'') =
     (Inr (PDict [(str ''cycleId'', PStr (str ''C'')), (str ''status'', PStr (str ''RUNNING''))]),
      sample_cycle_store ''RUNNING'')"
    by (simp add: get_cycle_def run_simps store_ops_def cycle_key_def key_of_def store_row_def
        sample_cycle_store_def)
  have now: "run store_ops finalizer_now_iso sample_answered =
     (Inr (iso_z_seconds 63902822400000000), sample_answered)"
    by (simp add: finalizer_now_iso_def run_simps store_ops_def)
  obtain summ l where "run store_ops (timeout_notify 1 (str ''C'') 1)
      (sample_timed_out (iso_z_seconds 63902822400000000)) =
    (Inr (TimeoutApplied 1 summ), sample_timed_out (iso_z_seconds 63902822400000000)\<lparr>st_log := l\<rparr>)"
    using sample_notify by blast
  then have "run store_ops (handle_timer_60min 1 (str ''C'') []) (sample_cycle_store ''RUNNING'') =
    (Inr (TimeoutApplied 1 summ), sample_timed_out (iso_z_seconds 63902822400000000)\<lparr>st_log := l\<rparr>)"
    by (simp add: handle_timer_60min_def timeout_rewrite_def query_responses_def run_bindP get now
        cycle_is_running_def store_pages sample_rows sample_apply sample_force sample_flip
        del: pages.simps store.select_convs store.update_convs)
  then show ?thesis by blast
qed


end
