(* ===== verification/Dictionary.thy ===== *)
theory Dictionary
  imports Ddb Auth_Audit "HOL-Library.Multiset"
begin

text \<open>
  The keyword dictionary: \<open>backend/shared/dictionary/snapshot.py\<close>, \<open>active_count.py\<close> and the
  Lambda \<open>dictionary_api\<close> with its optimistic lock on the version record.
\<close>

section \<open>Snapshots\<close>

definition valid_categories :: "string list" where
  "valid_categories = [''SAFE'', ''INJURED'', ''UNAVAILABLE'']"

definition snapshot_add :: "pydict \<Rightarrow> (pystr \<Rightarrow> pystr list) \<Rightarrow> pystr \<Rightarrow> pystr list" where
  "snapshot_add row out =
     (let category = dget row ''category''; keyword = dget row ''keyword'' in
      if is_one_of category valid_categories \<and> nonempty_str keyword
      then out(str_of category := out (str_of category) @ [str_of keyword])
      else out)"

definition to_snapshot :: "pydict list \<Rightarrow> pydict" where
  "to_snapshot history_items =
     (let out = fold snapshot_add history_items (\<lambda>_. []) in
      map (\<lambda>c. (str c, PList (map PStr (sort_by str_le (out (str c)))))) valid_categories)"

definition get_dictionary_snapshot :: "nat \<Rightarrow> pyval \<Rightarrow> pydict prog" where
  "get_dictionary_snapshot fuel version =
     bindP (pages is_none fuel (Query HistoryTable None ''version'' version True None) PNone)
       (\<lambda>items. ret (to_snapshot items))"

section \<open>Counting\<close>

definition count_active_keywords :: "'a list \<Rightarrow> 'a list \<Rightarrow> 'a list \<Rightarrow> nat" where
  "count_active_keywords safe_items injured_items unavailable_items =
     length safe_items + length injured_items + length unavailable_items"

definition is_dictionary_empty :: "'a list \<Rightarrow> 'a list \<Rightarrow> 'a list \<Rightarrow> bool" where
  "is_dictionary_empty safe_items injured_items unavailable_items \<longleftrightarrow>
     count_active_keywords safe_items injured_items unavailable_items = 0"

section \<open>HTTP answers\<close>

text \<open>
  A body is the value that is encoded as JSON; the text of an \<open>error\<close> body is not modelled.
\<close>

datatype http_body = Json pyval | ErrorText

record http =
  status_code :: nat
  http_headers :: pydict
  http_body :: http_body

record api_env = audit_env +
  cors_allowed_origin :: "pystr option"

definition response :: "'a api_env_scheme \<Rightarrow> nat \<Rightarrow> http_body \<Rightarrow> http" where
  "response env st b =
     \<lparr>status_code = st,
      http_headers = with_cors_headers (cors_allowed_origin env)
        [(str ''Content-Type'', PStr (str ''application/json; charset=utf-8''))] None,
      http_body = b\<rparr>"

text \<open>
  \<open>_parse_body\<close>; \<open>loads\<close> is \<open>json.loads\<close>, which raises a \<open>JSONDecodeError\<close> (\<open>None\<close>) on a string
  that is not JSON and a \<open>TypeError\<close> on a value that is not a string.
\<close>

definition parse_body :: "(pystr \<Rightarrow> pyval option) \<Rightarrow> pyval \<Rightarrow> pydict res" where
  "parse_body loads body =
     (if \<not> truthy body then Inl ValueError
      else if \<not> is_str body then Inl TypeError
      else case loads (str_of body) of
        None \<Rightarrow> Inl ValueError
      | Some (PDict d) \<Rightarrow> Inr d
      | Some _ \<Rightarrow> Inl ValueError)"

text \<open>\<open>event.get("requestContext", {}).get("authorizer", {}).get("claims", {}).get("sub", d)\<close>.\<close>

definition principal_of :: "pydict \<Rightarrow> pyval res" where
  "principal_of event =
     bind_res (vget_or (dget_or event ''requestContext'' (PDict [])) ''authorizer'' (PDict [])) (\<lambda>a.
     bind_res (vget_or a ''claims'' (PDict [])) (\<lambda>c.
       vget_or c ''sub'' (PStr (str ''<unknown>''))))"

section \<open>The version record\<close>

definition meta_key :: pydict where
  "meta_key = [(str ''category'', PStr (str ''META'')), (str ''keyword'', PStr (str ''META''))]"

definition get_current_version :: "int prog" where
  "get_current_version =
     bindP (aws (GetItem DictTable meta_key)) (\<lambda>resp.
       case dget (items_of resp) ''Item'' of
         PNone \<Rightarrow> ret 0
       | item \<Rightarrow> lift (py_int_str (dget_or (items_of item) ''currentVersion'' (PInt 0))))"

definition increment_condition :: "pyval \<Rightarrow> cond" where
  "increment_condition expected =
     (if int_val expected = 0
      then CondOr (AttrNotExists ''category'') (AttrEq ''currentVersion'' expected)
      else AttrEq ''currentVersion'' expected)"

definition increment_version :: "pyval \<Rightarrow> int prog" where
  "increment_version expected =
     (let new_version = int_val expected + 1 in
      thenP
        (aws (UpdateItem DictTable meta_key [SetAttr ''currentVersion'' (PInt new_version)]
          (increment_condition expected)))
        (ret new_version))"

section \<open>The operations\<close>

text \<open>
  The scan drops the version record page by page; here it is dropped after the last page, which
  gives the same list.
\<close>

definition scan_all_active :: "nat \<Rightarrow> pydict list prog" where
  "scan_all_active fuel =
     bindP (pages is_none fuel (Scan DictTable) PNone) (\<lambda>rows.
       ret (filter (\<lambda>row. dget row ''category'' \<noteq> PStr (str ''META'')) rows))"

definition list_all_add :: "pydict \<Rightarrow> (pystr \<Rightarrow> pystr list) \<Rightarrow> pystr \<Rightarrow> pystr list" where
  "list_all_add row out =
     (let category = dget row ''category''; keyword = dget row ''keyword'' in
      if is_one_of category valid_categories \<and> is_str keyword
      then out(str_of category := out (str_of category) @ [str_of keyword])
      else out)"

definition dict_list_all :: "nat \<Rightarrow> pydict prog" where
  "dict_list_all fuel =
     bindP (scan_all_active fuel) (\<lambda>rows.
       let grouped = fold list_all_add rows (\<lambda>_. []) in
       ret (map (\<lambda>c. (str c, PList (map PStr (grouped (str c))))) valid_categories))"

definition history_row :: "int \<Rightarrow> pydict \<Rightarrow> pydict" where
  "history_row new_version row =
     [(str ''version'', PInt new_version),
      (str ''categoryKeyword'',
       PStr (str_of (dget row ''category'') @ [35] @ str_of (dget row ''keyword''))),
      (str ''category'', dget row ''category''), (str ''keyword'', dget row ''keyword'')]"

text \<open>\<open>batch_writer\<close> sends what it was given when the block ends, nothing when it got no row.\<close>

definition write_history_snapshot :: "nat \<Rightarrow> int \<Rightarrow> unit prog" where
  "write_history_snapshot fuel new_version =
     bindP (scan_all_active fuel) (\<lambda>active.
       let rows = filter (\<lambda>row. is_str (dget row ''category'') \<and> is_str (dget row ''keyword'')) active in
       if rows = [] then ret ()
       else thenP (aws (BatchPut HistoryTable (map (history_row new_version) rows))) (ret ()))"

definition keyword_key :: "pyval \<Rightarrow> pyval \<Rightarrow> pydict" where
  "keyword_key category keyword = [(str ''category'', category), (str ''keyword'', keyword)]"

definition keyword_answer :: "pyval \<Rightarrow> pyval \<Rightarrow> int \<Rightarrow> http_body" where
  "keyword_answer category keyword v =
     Json (PDict [(str ''category'', category), (str ''keyword'', keyword), (str ''version'', PInt v)])"

text \<open>The three checks every write starts with.\<close>

definition check_keyword :: "pyval \<Rightarrow> pyval \<Rightarrow> pyval \<Rightarrow> unit res" where
  "check_keyword category keyword expected_version =
     (if \<not> is_one_of category valid_categories then Inl ValueError
      else if \<not> nonempty_str keyword then Inl ValueError
      else if \<not> is_int expected_version then Inl ValueError
      else Inr ())"

definition dict_audit ::
  "'a api_env_scheme \<Rightarrow> pystr list \<Rightarrow> string \<Rightarrow> pyval \<Rightarrow> pyval \<Rightarrow> pyval \<Rightarrow> pydict \<Rightarrow> pystr list prog" where
  "dict_audit env created event_type who category keyword extra =
     write_audit_log env created (str event_type) who
       (str_of category @ [35] @ str_of keyword) (str ''SUCCESS'') None None (Some extra)"

definition create_keyword ::
  "'a api_env_scheme \<Rightarrow> pystr list \<Rightarrow> nat \<Rightarrow> pydict \<Rightarrow> pyval \<Rightarrow> http prog" where
  "create_keyword env created fuel body who =
     (let category = dget body ''category''; keyword = dget body ''keyword'';
          expected_version = dget body ''expectedVersion'' in
      thenP (lift (check_keyword category keyword expected_version))
      (bindP (increment_version expected_version) (\<lambda>new_version.
      thenP
        (aws (PutItem DictTable
          (keyword_key category keyword @ [(str ''version'', PInt new_version)])
          (AttrNotExists ''category'')))
      (thenP (write_history_snapshot fuel new_version)
      (thenP
        (dict_audit env created ''DICTIONARY_ADD'' who category keyword
          [(str ''category'', category), (str ''keyword'', keyword), (str ''newVersion'', PInt new_version)])
        (ret (response env 201 (keyword_answer category keyword new_version))))))))"

definition update_keyword ::
  "'a api_env_scheme \<Rightarrow> pystr list \<Rightarrow> nat \<Rightarrow> pyval \<Rightarrow> pydict \<Rightarrow> pyval \<Rightarrow> http prog" where
  "update_keyword env created fuel path_params body who =
     bindP (lift (vget_or path_params ''category'' PNone)) (\<lambda>category.
     bindP (lift (vget_or path_params ''keyword'' PNone)) (\<lambda>keyword.
     let expected_version = dget body ''expectedVersion'' in
     thenP (lift (check_keyword category keyword expected_version))
     (bindP (aws (GetItem DictTable (keyword_key category keyword))) (\<lambda>resp.
     let existing = dget (items_of resp) ''Item'' in
     if existing = PNone then raise ValueError
     else
       bindP (increment_version expected_version) (\<lambda>new_version.
       thenP
         (aws (UpdateItem DictTable (keyword_key category keyword)
           [SetAttr ''version'' (PInt new_version)] NoCond))
       (thenP (write_history_snapshot fuel new_version)
       (bindP (lift (py_int_str (dget_or (items_of existing) ''version'' (PInt 0)))) (\<lambda>old_version.
       thenP
         (dict_audit env created ''DICTIONARY_UPDATE'' who category keyword
           [(str ''category'', category), (str ''keyword'', keyword),
            (str ''newVersion'', PInt new_version),
            (str ''oldValue'', PDict [(str ''version'', PInt old_version)])])
         (ret (response env 200 (keyword_answer category keyword new_version)))))))))))"

definition delete_keyword ::
  "'a api_env_scheme \<Rightarrow> pystr list \<Rightarrow> nat \<Rightarrow> pyval \<Rightarrow> pydict \<Rightarrow> pyval \<Rightarrow> http prog" where
  "delete_keyword env created fuel path_params body who =
     bindP (lift (vget_or path_params ''category'' PNone)) (\<lambda>category.
     bindP (lift (vget_or path_params ''keyword'' PNone)) (\<lambda>keyword.
     let expected_version = dget body ''expectedVersion'' in
     thenP (lift (check_keyword category keyword expected_version))
     (bindP (increment_version expected_version) (\<lambda>new_version.
     thenP (aws (DeleteItem DictTable (keyword_key category keyword) (AttrExists ''category'')))
     (thenP (write_history_snapshot fuel new_version)
     (thenP
       (dict_audit env created ''DICTIONARY_DELETE'' who category keyword
         [(str ''category'', category), (str ''keyword'', keyword), (str ''newVersion'', PInt new_version)])
       (ret (response env 200 (keyword_answer category keyword new_version)))))))))"

section \<open>Entry point\<close>

definition or_empty :: "pyval \<Rightarrow> pyval" where
  "or_empty v = (if truthy v then v else PDict [])"

definition is_route :: "pydict \<Rightarrow> string \<Rightarrow> string \<Rightarrow> bool" where
  "is_route event meth res \<longleftrightarrow>
     dget_or event ''httpMethod'' (PStr []) = PStr (str meth) \<and>
     dget_or event ''resource'' (PStr []) = PStr (str res)"

definition dict_route ::
  "(pystr \<Rightarrow> pyval option) \<Rightarrow> 'a api_env_scheme \<Rightarrow> pystr list \<Rightarrow> nat \<Rightarrow> pydict \<Rightarrow> pyval \<Rightarrow> http prog" where
  "dict_route loads env created fuel event who =
     (let path_params = or_empty (dget event ''pathParameters''); raw_body = dget event ''body'' in
      if is_route event ''GET'' ''/keyword-dictionary'' then
        bindP (dict_list_all fuel) (\<lambda>d. ret (response env 200 (Json (PDict d))))
      else if is_route event ''GET'' ''/keyword-dictionary/version'' then
        bindP get_current_version (\<lambda>v.
          ret (response env 200 (Json (PDict [(str ''version'', PInt v)]))))
      else if is_route event ''POST'' ''/keyword-dictionary'' then
        bindP (lift (parse_body loads raw_body)) (\<lambda>body. create_keyword env created fuel body who)
      else if is_route event ''PATCH'' ''/keyword-dictionary/{category}/{keyword}'' then
        bindP (lift (parse_body loads raw_body))
          (\<lambda>body. update_keyword env created fuel path_params body who)
      else if is_route event ''DELETE'' ''/keyword-dictionary/{category}/{keyword}'' then
        bindP (lift (parse_body loads raw_body))
          (\<lambda>body. delete_keyword env created fuel path_params body who)
      else ret (response env 405 ErrorText))"

definition dict_on_error :: "'a api_env_scheme \<Rightarrow> pyerr \<Rightarrow> http prog" where
  "dict_on_error env e =
     (if e = ValueError then ret (response env 400 ErrorText)
      else if e = ClientError ccfe then ret (response env 409 ErrorText)
      else raise e)"

definition dict_lambda_handler ::
  "(pystr \<Rightarrow> pyval option) \<Rightarrow> 'a api_env_scheme \<Rightarrow> pystr list \<Rightarrow> nat \<Rightarrow> pydict \<Rightarrow> http prog" where
  "dict_lambda_handler loads env created fuel event =
     bindP (lift (principal_of event)) (\<lambda>who.
       catchP (dict_route loads env created fuel event who) (dict_on_error env))"

section \<open>Facts\<close>

lemma mset_insort_by: "mset (insort_by le x xs) = add_mset x (mset xs)"
  by (induction xs) auto

lemma mset_sort_by: "mset (sort_by le xs) = mset xs"
  by (induction xs) (auto simp: sort_by_def mset_insort_by)

lemma sorted_unique:
  assumes "sorted_wrt str_le xs" "sorted_wrt str_le ys" "mset xs = mset ys"
  shows "xs = ys"
  using assms
proof (induction xs arbitrary: ys)
  case (Cons x xs)
  then obtain y ys' where ys: "ys = y # ys'" by (cases ys) auto
  have "x \<in> set ys" "y \<in> set (x # xs)"
    using Cons.prems(3) ys by (metis list.set_intros(1) set_mset_mset)+
  then have "str_le y x" "str_le x y" using Cons.prems(1,2) ys by auto
  then have "x = y" by (rule str_le_antisym [rotated])
  then show ?case using Cons.IH [of ys'] Cons.prems ys by simp
qed simp

lemma sorted_sort_str: "sorted_wrt str_le (sort_by str_le xs)"
  by (rule sorted_sort_by) (rule str_le_total, erule (1) str_le_trans)

lemma sort_by_mset: "mset xs = mset ys \<Longrightarrow> sort_by str_le xs = sort_by str_le ys"
  by (rule sorted_unique) (simp_all add: sorted_sort_str mset_sort_by)

definition snapshot_row :: "pystr \<Rightarrow> pydict \<Rightarrow> bool" where
  "snapshot_row c row \<longleftrightarrow> dget row ''category'' = PStr c \<and>
     is_one_of (PStr c) valid_categories \<and> nonempty_str (dget row ''keyword'')"

lemma fold_snapshot_add:
  "fold snapshot_add rows out c =
     out c @ map (\<lambda>row. str_of (dget row ''keyword'')) (filter (snapshot_row c) rows)"
proof (induction rows arbitrary: out)
  case (Cons row rows)
  have "snapshot_add row out c =
      out c @ (if snapshot_row c row then [str_of (dget row ''keyword'')] else [])"
    by (cases "dget row ''category''") (auto simp: snapshot_add_def snapshot_row_def Let_def)
  with Cons.IH [of "snapshot_add row out"] show ?case by simp
qed simp

lemma to_snapshot_find:
  "c \<in> set valid_categories \<Longrightarrow> dget_or (to_snapshot rows) c (PList []) =
     PList (map PStr (sort_by str_le (map (\<lambda>row. str_of (dget row ''keyword''))
       (filter (snapshot_row (str c)) rows))))"
  by (auto simp: to_snapshot_def Let_def valid_categories_def fold_snapshot_add)

abbreviation meta_row :: "('s \<Rightarrow> ddb_table \<Rightarrow> pyval list \<Rightarrow> pydict option) \<Rightarrow> 's \<Rightarrow> pydict option" where
  "meta_row row s \<equiv> row s DictTable (key_of DictTable meta_key)"

definition version_in :: "pydict option \<Rightarrow> pyval" where
  "version_in r = (case r of None \<Rightarrow> PNone | Some d \<Rightarrow> dget d ''currentVersion'')"

definition bumped :: "pydict option \<Rightarrow> int \<Rightarrow> pydict" where
  "bumped r v = dset (case r of None \<Rightarrow> norm_row meta_key | Some d \<Rightarrow> d)
     (str ''currentVersion'') (PDec (of_int v))"

lemma bumped_version [simp]: "version_in (Some (bumped r v)) = PDec (of_int v)"
  by (simp add: version_in_def bumped_def)

lemma write_history_calls:
  assumes "exec (write_history_snapshot fuel n) tr (Inr u)"
  shows "\<exists>scans rows. calls tr = scans @ (if rows = [] then [] else [BatchPut HistoryTable (map (history_row n) rows)]) \<and>
    list_all (\<lambda>q. \<exists>k. q = Scan DictTable k) scans"
proof -
  let ?keep = "filter (\<lambda>row. is_str (dget row ''category'') \<and> is_str (dget row ''keyword''))"
  obtain tr1 tr2 active where tr: "tr = tr1 @ tr2" and sc: "exec (scan_all_active fuel) tr1 (Inr active)"
    and rest: "exec (if ?keep active = [] then ret () else
      thenP (aws (BatchPut HistoryTable (map (history_row n) (?keep active)))) (ret ())) tr2 (Inr u)"
    using assms by (auto simp: write_history_snapshot_def exec_bindP Let_def)
  have "list_all (\<lambda>q. \<exists>k. q = Scan DictTable k) (calls tr1)"
  proof -
    obtain rows where "exec (pages is_none fuel (Scan DictTable) PNone) tr1 (Inr rows)"
      using sc by (auto simp: scan_all_active_def exec_bindP)
    then show ?thesis unfolding list_all_iff by (blast dest: pages_reads)
  qed
  moreover have "calls tr2 =
      (if ?keep active = [] then [] else [BatchPut HistoryTable (map (history_row n) (?keep active))])"
    using rest by (auto simp: exec_simps split: if_splits)
  ultimately show ?thesis using tr
    by (intro exI [of _ "calls tr1"] exI [of _ "?keep active"]) simp
qed

context dynamodb begin

lemma run_increment:
  obtains s' where
    "run W (increment_version v) s =
       (if cond_holds (increment_condition v) (meta_row row s) then Inr (int_val v + 1)
        else Inl (ClientError ccfe), s')"
    "row s' = (if cond_holds (increment_condition v) (meta_row row s)
       then (row s)(DictTable := (row s DictTable)(key_of DictTable meta_key :=
         Some (bumped (meta_row row s) (int_val v + 1))))
       else row s)"
proof (cases "cond_holds (increment_condition v) (meta_row row s)")
  case True
  let ?q = "UpdateItem DictTable meta_key [SetAttr ''currentVersion'' (PInt (int_val v + 1))]
      (increment_condition v)"
  have t: "write_target ?q = Some (DictTable, key_of DictTable meta_key)" by simp
  have w: "write_row ?q (meta_row row s) = Some (Some (bumped (meta_row row s) (int_val v + 1)))"
    using True by (simp add: bumped_def)
  obtain a s' where a: "run W (aws ?q) s = (Inr a, s')" and s': "row s' = (row s)(DictTable :=
      (row s DictTable)(key_of DictTable meta_key := Some (bumped (meta_row row s) (int_val v + 1))))"
    by (rule run_write_ok [OF t w])
  show ?thesis using True
    by (intro that [of s']) (simp_all add: increment_version_def Let_def run_bindP a s')
next
  case False
  let ?q = "UpdateItem DictTable meta_key [SetAttr ''currentVersion'' (PInt (int_val v + 1))]
      (increment_condition v)"
  have t: "write_target ?q = Some (DictTable, key_of DictTable meta_key)" by simp
  have w: "write_row ?q (meta_row row s) = None" using False by simp
  obtain s' where a: "run W (aws ?q) s = (Inl (ClientError ccfe), s')" and s': "row s' = row s"
    by (rule run_write_fails [OF t w])
  show ?thesis using False
    by (intro that [of s']) (simp_all add: increment_version_def Let_def run_bindP a s')
qed

lemma increment_exclusive:
  assumes first: "run W (increment_version (PInt e)) s = (Inr n, s1)"
    and key: "\<And>d. meta_row row s = Some d \<Longrightarrow> has_key d ''category''"
  shows "n = e + 1 \<and> version_in (meta_row row s1) = PDec (of_int (e + 1)) \<and>
    (version_in (meta_row row s) = PDec (of_int e) \<or> e = 0 \<and> meta_row row s = None) \<and>
    (\<exists>s2. run W (increment_version (PInt e)) s1 = (Inl (ClientError ccfe), s2) \<and> row s2 = row s1)"
proof -
  obtain s' where run: "run W (increment_version (PInt e)) s =
       (if cond_holds (increment_condition (PInt e)) (meta_row row s) then Inr (int_val (PInt e) + 1)
        else Inl (ClientError ccfe), s')"
    and row': "row s' = (if cond_holds (increment_condition (PInt e)) (meta_row row s)
       then (row s)(DictTable := (row s DictTable)(key_of DictTable meta_key :=
         Some (bumped (meta_row row s) (int_val (PInt e) + 1))))
       else row s)"
    by (rule run_increment)
  have c: "cond_holds (increment_condition (PInt e)) (meta_row row s)" and n: "n = e + 1" and s1: "s1 = s'"
    using first run by (auto split: if_splits)
  have after: "meta_row row s1 = Some (bumped (meta_row row s) (e + 1))"
    using row' c s1 by simp
  have "has_key (bumped (meta_row row s) (e + 1)) ''category''"
    using key by (cases "meta_row row s") (auto simp: bumped_def norm_row_def meta_key_def has_key_def)
  moreover have "dfind (bumped (meta_row row s) (e + 1)) ''currentVersion'' = Some (PDec (of_int (e + 1)))"
    by (simp add: bumped_def)
  ultimately have c2: "\<not> cond_holds (increment_condition (PInt e)) (meta_row row s1)"
    unfolding after by (auto simp: increment_condition_def)
  obtain s2 where "run W (increment_version (PInt e)) s1 = (Inl (ClientError ccfe), s2)" "row s2 = row s1"
    by (rule run_increment [of "PInt e" s1]) (use c2 in auto)
  moreover have "version_in (meta_row row s) = PDec (of_int e) \<or> e = 0 \<and> meta_row row s = None"
    using c key by (cases "meta_row row s")
      (auto simp: increment_condition_def version_in_def dget_def split: if_splits)
  ultimately show ?thesis using n after by auto
qed

lemma create_existing:
  assumes c: "c \<in> set valid_categories" and k: "k \<noteq> []"
    and d: "row s DictTable [PStr (str c), PStr k] = Some d" "has_key d ''category''"
    and v: "cond_holds (increment_condition (PInt e)) (meta_row row s)"
    and body: "dget body ''category'' = PStr (str c)" "dget body ''keyword'' = PStr k"
      "dget body ''expectedVersion'' = PInt e"
  shows "\<exists>s'. run W (create_keyword env created fuel body who) s = (Inl (ClientError ccfe), s') \<and>
    version_in (meta_row row s') = PDec (of_int (e + 1)) \<and> row s' HistoryTable = row s HistoryTable"
proof -
  have check: "check_keyword (PStr (str c)) (PStr k) (PInt e) = Inr ()"
    using c k by (simp add: check_keyword_def)
  obtain s1 where inc: "run W (increment_version (PInt e)) s = (Inr (e + 1), s1)"
    and row1: "row s1 = (row s)(DictTable := (row s DictTable)(key_of DictTable meta_key :=
         Some (bumped (meta_row row s) (e + 1))))"
    by (rule run_increment [of "PInt e" s]) (use v in auto)
  have "str c \<noteq> str ''META''" using c by (auto simp: valid_categories_def)
  then have neq: "[PStr (str c), PStr k] \<noteq> key_of DictTable meta_key"
    by (simp add: key_of_def meta_key_def)
  let ?q = "PutItem DictTable (keyword_key (PStr (str c)) (PStr k) @ [(str ''version'', PInt (e + 1))])
      (AttrNotExists ''category'')"
  have t: "write_target ?q = Some (DictTable, [PStr (str c), PStr k])"
    by (simp add: key_of_def keyword_key_def)
  have "row s1 DictTable [PStr (str c), PStr k] = Some d" using row1 neq d(1) by simp
  then have w: "write_row ?q (row s1 DictTable [PStr (str c), PStr k]) = None" using d(2) by simp
  obtain s2 where put: "run W (aws ?q) s1 = (Inl (ClientError ccfe), s2)" and row2: "row s2 = row s1"
    by (rule run_write_fails [OF t w])
  have "run W (create_keyword env created fuel body who) s = (Inl (ClientError ccfe), s2)"
    by (simp add: create_keyword_def body check Let_def run_bindP inc put)
  moreover have "version_in (meta_row row s2) = PDec (of_int (e + 1))" "row s2 HistoryTable = row s HistoryTable"
    unfolding row2 row1 by simp_all
  ultimately show ?thesis by blast
qed

end

section \<open>Properties\<close>

text \<open>
  Property C14. The version lock admits one writer per version: on any service with DynamoDB's
  write laws, an increment from \<open>e\<close> succeeds only when the record holds \<open>e\<close> (or is missing and \<open>e\<close>
  is 0), leaves \<open>e + 1\<close>, and then every other increment from \<open>e\<close> is refused with a conflict and
  changes nothing.
\<close>

theorem optimistic_lock_exclusive:
  assumes "dynamodb W row" and "run W (increment_version (PInt e)) s = (Inr n, s1)"
    and "\<And>d. meta_row row s = Some d \<Longrightarrow> has_key d ''category''"
  shows "n = e + 1 \<and> version_in (meta_row row s1) = PDec (of_int (e + 1)) \<and>
    (version_in (meta_row row s) = PDec (of_int e) \<or> e = 0 \<and> meta_row row s = None) \<and>
    (\<exists>s2. run W (increment_version (PInt e)) s1 = (Inl (ClientError ccfe), s2) \<and> row s2 = row s1)"
  by (rule dynamodb.increment_exclusive [OF assms])

definition empty_store :: store where
  "empty_store = \<lparr>st_rows = [], st_clock = 0, st_log = []\<rparr>"

theorem optimistic_lock_exclusive_witness:
  "\<exists>s1 s2. run store_ops (increment_version (PInt 0)) empty_store = (Inr 1, s1) \<and>
    run store_ops (increment_version (PInt 0)) s1 = (Inl (ClientError ccfe), s2)"
proof -
  obtain s1 where r: "run store_ops (increment_version (PInt 0)) empty_store = (Inr 1, s1)"
    by (simp add: increment_version_def increment_condition_def Let_def run_bindP run_aws
        store_ops_def empty_store_def store_row_def)
  have "\<And>d. meta_row store_row empty_store = Some d \<Longrightarrow> has_key d ''category''"
    by (simp add: empty_store_def store_row_def)
  from optimistic_lock_exclusive [OF store.dynamodb_axioms r this] r show ?thesis by blast
qed

text \<open>
  A refused write still consumes a version: a \<open>POST\<close> for a keyword that exists, with
  the right expected version, is answered 409, but the version record has moved on and the history
  table is as it was, so the new version has no snapshot.
\<close>

theorem refused_create_bumps_version:
  assumes "dynamodb W row" and "c \<in> set valid_categories" and "k \<noteq> []"
    and "row s DictTable [PStr (str c), PStr k] = Some d" and "has_key d ''category''"
    and "cond_holds (increment_condition (PInt e)) (meta_row row s)"
    and "dget body ''category'' = PStr (str c)" and "dget body ''keyword'' = PStr k"
    and "dget body ''expectedVersion'' = PInt e"
  shows "\<exists>s'. run W (catchP (create_keyword env created fuel body who) (dict_on_error env)) s =
      (Inr (response env 409 ErrorText), s') \<and>
    version_in (meta_row row s') = PDec (of_int (e + 1)) \<and> row s' HistoryTable = row s HistoryTable"
proof -
  obtain s' where "run W (create_keyword env created fuel body who) s = (Inl (ClientError ccfe), s')"
    "version_in (meta_row row s') = PDec (of_int (e + 1))" "row s' HistoryTable = row s HistoryTable"
    using dynamodb.create_existing [OF assms, of env created fuel who] by blast
  then show ?thesis by (intro exI [of _ s']) (simp add: run_catchP dict_on_error_def)
qed

definition sample_dict_store :: store where
  "sample_dict_store = \<lparr>st_rows =
     [((DictTable, [PStr (str ''META''), PStr (str ''META'')]),
        [(str ''category'', PStr (str ''META'')), (str ''keyword'', PStr (str ''META'')),
         (str ''currentVersion'', PDec 1)]),
      ((DictTable, [PStr (str ''SAFE''), PStr (str ''ok'')]),
        [(str ''category'', PStr (str ''SAFE'')), (str ''keyword'', PStr (str ''ok''))])],
      st_clock = 0, st_log = []\<rparr>"

abbreviation sample_env :: api_env where
  "sample_env \<equiv> \<lparr>log_group_name = Some (str ''audit''), function_name = None, cors_allowed_origin = None\<rparr>"

theorem refused_create_bumps_version_witness:
  "\<exists>s'. run store_ops (catchP (create_keyword sample_env [] 1
      [(str ''category'', PStr (str ''SAFE'')), (str ''keyword'', PStr (str ''ok'')),
       (str ''expectedVersion'', PInt 1)] PNone) (dict_on_error sample_env)) sample_dict_store =
      (Inr (response sample_env 409 ErrorText), s') \<and>
    version_in (meta_row store_row s') = PDec 2 \<and>
    store_row s' HistoryTable = store_row sample_dict_store HistoryTable"
  using refused_create_bumps_version [OF store.dynamodb_axioms, of "''SAFE''" "str ''ok''"
      sample_dict_store "[(str ''category'', PStr (str ''SAFE'')), (str ''keyword'', PStr (str ''ok''))]" 1
      "[(str ''category'', PStr (str ''SAFE'')), (str ''keyword'', PStr (str ''ok'')),
       (str ''expectedVersion'', PInt 1)]" sample_env "[]" 1 PNone]
  by (simp add: sample_dict_store_def store_row_def valid_categories_def has_key_def
      increment_condition_def key_of_def meta_key_def)

text \<open>
  A keyword is answered as created only after its snapshot: a run of the creation
  that returns answers 201 and issued, in this order, the increment of the version, the
  conditional put of the keyword, the scans of the active rows, one batch that writes every
  scanned row with string keys under the new version (none when there is none), then the audit.
\<close>

theorem create_snapshots_before_answer:
  assumes "exec (create_keyword env created fuel body who) tr (Inr resp)"
  shows "status_code resp = 201 \<and>
    (let n = int_val (dget body ''expectedVersion'') + 1;
         category = dget body ''category''; keyword = dget body ''keyword'' in
     \<exists>scans rows audit. calls tr =
       [UpdateItem DictTable meta_key [SetAttr ''currentVersion'' (PInt n)]
          (increment_condition (dget body ''expectedVersion'')),
        PutItem DictTable (keyword_key category keyword @ [(str ''version'', PInt n)])
          (AttrNotExists ''category'')] @
       scans @ (if rows = [] then [] else [BatchPut HistoryTable (map (history_row n) rows)]) @ audit \<and>
       list_all (\<lambda>q. \<exists>k. q = Scan DictTable k) scans)"
proof -
  let ?n = "int_val (dget body ''expectedVersion'') + 1"
  obtain tr1 tr2 u v1 v2 where c: "calls tr =
       [UpdateItem DictTable meta_key [SetAttr ''currentVersion'' (PInt ?n)]
          (increment_condition (dget body ''expectedVersion'')),
        PutItem DictTable (keyword_key (dget body ''category'') (dget body ''keyword'') @
          [(str ''version'', PInt ?n)]) (AttrNotExists ''category'')] @ calls tr1 @ calls tr2"
    and w: "exec (write_history_snapshot fuel ?n) tr1 (Inr u)"
    and r: "status_code resp = 201"
    using assms
    by (auto simp: create_keyword_def increment_version_def Let_def exec_simps response_def)
  from write_history_calls [OF w] obtain scans rows where
    "calls tr1 = scans @ (if rows = [] then [] else [BatchPut HistoryTable (map (history_row ?n) rows)])"
    "list_all (\<lambda>q. \<exists>k. q = Scan DictTable k) scans" by blast
  with c r show ?thesis unfolding Let_def by (intro conjI exI) auto
qed

lemma run_store_audit:
  assumes "log_group_name env = Some lg"
  shows "\<exists>created' s'. run store_ops (write_audit_log env created ev who target outcome None ph extra) s =
    (Inr created', s')"
  using assms
  by (simp add: write_audit_log_def audit_now_iso_def stream_name_def today_yyyymmdd_def
      ensure_log_stream_def now_epoch_ms_def run_simps store_ops_def Let_def)

lemma run_store_history: "\<exists>s'. run store_ops (write_history_snapshot (Suc n) v) s = (Inr (), s')"
proof -
  obtain s1 where "run store_ops (aws (BatchPut HistoryTable (map (history_row v) (filter
      (\<lambda>row. is_str (dget row ''category'') \<and> is_str (dget row ''keyword''))
      (filter (\<lambda>row. dget row ''category'' \<noteq> PStr (str ''META'')) (table_rows s DictTable)))))) s =
    (Inr (PDict []), s1)" using run_store_batch by blast
  then show ?thesis
    by (simp add: write_history_snapshot_def scan_all_active_def run_bindP store_scan Let_def
        del: pages.simps)
qed

abbreviation sample_create :: pydict where
  "sample_create \<equiv> [(str ''category'', PStr (str ''SAFE'')), (str ''keyword'', PStr (str ''ok'')),
     (str ''expectedVersion'', PInt 0)]"

lemma sample_create_runs:
  "\<exists>resp s'. run store_ops (create_keyword sample_env [] 1 sample_create PNone) empty_store = (Inr resp, s')"
proof -
  obtain s1 where inc: "run store_ops (increment_version (PInt 0)) empty_store = (Inr 1, s1)"
      and r: "store_row s1 DictTable [PStr (str ''SAFE''), PStr (str ''ok'')] = None"
    by (simp add: increment_version_def increment_condition_def Let_def run_bindP run_store_write
        empty_store_def store_row_def put_row_def key_of_def meta_key_def)
  obtain s2 where put: "run store_ops (aws (PutItem DictTable
      (keyword_key (PStr (str ''SAFE'')) (PStr (str ''ok'')) @ [(str ''version'', PInt 1)])
      (AttrNotExists ''category''))) s1 = (Inr (PDict []), s2)"
    using r by (simp add: run_store_write key_of_def keyword_key_def)
  obtain s3 where hist: "run store_ops (write_history_snapshot 1 1) s2 = (Inr (), s3)"
    using run_store_history [of 0] by fastforce
  obtain c s4 where "run store_ops (dict_audit sample_env [] ''DICTIONARY_ADD'' PNone (PStr (str ''SAFE''))
      (PStr (str ''ok'')) [(str ''category'', PStr (str ''SAFE'')), (str ''keyword'', PStr (str ''ok'')),
        (str ''newVersion'', PInt 1)]) s3 = (Inr c, s4)"
    unfolding dict_audit_def using run_store_audit [of sample_env "str ''audit''"] by fastforce
  with inc put hist show ?thesis
    by (simp add: create_keyword_def Let_def run_bindP check_keyword_def valid_categories_def)
qed

theorem create_snapshots_before_answer_witness:
  "\<exists>tr resp. exec (create_keyword sample_env [] 1 sample_create PNone) tr (Inr resp) \<and>
    status_code resp = 201"
proof -
  obtain resp s' where r: "run store_ops (create_keyword sample_env [] 1 sample_create PNone) empty_store =
      (Inr resp, s')" using sample_create_runs by blast
  obtain tr where "exec (create_keyword sample_env [] 1 sample_create PNone) tr (Inr resp)"
    using run_exec [of "create_keyword sample_env [] 1 sample_create PNone" store_ops empty_store] r by auto
  then show ?thesis using create_snapshots_before_answer by blast
qed

text \<open>
  A snapshot is a function of the set of history rows, not of the order they arrive
  in: for two page orders of the same rows the snapshots are equal, every keyword list is sorted,
  and a keyword is in a category's list exactly when some row names both.
\<close>

theorem snapshot_deterministic:
  assumes "mset rows = mset rows'"
  shows "to_snapshot rows = to_snapshot rows' \<and>
    (\<forall>c\<in>set valid_categories. \<exists>ks. dget_or (to_snapshot rows) c (PList []) = PList (map PStr ks) \<and>
       sorted_wrt str_le ks \<and>
       (\<forall>k. k \<in> set ks \<longleftrightarrow> k \<noteq> [] \<and> (\<exists>row\<in>set rows.
          dget row ''category'' = PStr (str c) \<and> dget row ''keyword'' = PStr k)))"
proof -
  have "sort_by str_le (map (\<lambda>row. str_of (dget row ''keyword'')) (filter (snapshot_row c) rows)) =
      sort_by str_le (map (\<lambda>row. str_of (dget row ''keyword'')) (filter (snapshot_row c) rows'))" for c
    by (rule sort_by_mset) (simp only: mset_map mset_filter assms)
  then have "to_snapshot rows = to_snapshot rows'"
    by (simp only: to_snapshot_def Let_def fold_snapshot_add append_Nil)
  moreover have "k \<in> set (sort_by str_le (map (\<lambda>row. str_of (dget row ''keyword''))
        (filter (snapshot_row (str c)) rows))) \<longleftrightarrow>
      k \<noteq> [] \<and> (\<exists>row\<in>set rows. dget row ''category'' = PStr (str c) \<and> dget row ''keyword'' = PStr k)"
    if "c \<in> set valid_categories" for c k
    using that by (force simp: snapshot_row_def nonempty_str_iff image_iff)
  ultimately show ?thesis
  proof (intro conjI ballI)
    fix c assume c: "c \<in> set valid_categories"
    let ?ks = "sort_by str_le (map (\<lambda>row. str_of (dget row ''keyword''))
        (filter (snapshot_row (str c)) rows))"
    assume mem: "\<And>c k. c \<in> set valid_categories \<Longrightarrow> k \<in> set (sort_by str_le
        (map (\<lambda>row. str_of (dget row ''keyword'')) (filter (snapshot_row (str c)) rows))) \<longleftrightarrow>
      k \<noteq> [] \<and> (\<exists>row\<in>set rows. dget row ''category'' = PStr (str c) \<and> dget row ''keyword'' = PStr k)"
    show "\<exists>ks. dget_or (to_snapshot rows) c (PList []) = PList (map PStr ks) \<and> sorted_wrt str_le ks \<and>
       (\<forall>k. k \<in> set ks \<longleftrightarrow> k \<noteq> [] \<and> (\<exists>row\<in>set rows.
          dget row ''category'' = PStr (str c) \<and> dget row ''keyword'' = PStr k))"
      by (rule exI [of _ ?ks], intro conjI allI)
        (rule to_snapshot_find [OF c], rule sorted_sort_str, rule mem [OF c])
  qed
qed

theorem snapshot_deterministic_witness:
  "to_snapshot [[(str ''category'', PStr (str ''SAFE'')), (str ''keyword'', PStr (str ''b''))],
                [(str ''category'', PStr (str ''SAFE'')), (str ''keyword'', PStr (str ''a''))]] =
   to_snapshot [[(str ''category'', PStr (str ''SAFE'')), (str ''keyword'', PStr (str ''a''))],
                [(str ''category'', PStr (str ''SAFE'')), (str ''keyword'', PStr (str ''b''))]]"
  by (rule snapshot_deterministic [THEN conjunct1]) simp

text \<open>
  No upper bound on a keyword is enforced: the checks every write of the dictionary
  starts with accept a keyword of any positive length, although the matcher's comment relies on
  the writer enforcing at most 64 characters.
\<close>

theorem keyword_length_unbounded:
  "check_keyword (PStr (str ''SAFE'')) (PStr (replicate (Suc n) 65)) (PInt e) = Inr ()"
  by (simp add: check_keyword_def valid_categories_def)

end
