(* ===== verification/Keyword.thy ===== *)
theory Keyword
  imports Py_Text
begin

text \<open>
  \<open>backend/shared/keyword/matcher.py\<close> and \<open>transcript.py\<close>: the classification of a transcript by
  the keyword dictionary, and the reading of Amazon Transcribe's result file.

  \<open>str.lower\<close> is the argument \<open>lower\<close> of the matcher: its Unicode tables are not modelled and no
  property needs more of it than the hypotheses it names.
\<close>

section \<open>Substrings\<close>

text \<open>\<open>p in s\<close> on strings.\<close>

fun contains :: "pystr \<Rightarrow> pystr \<Rightarrow> bool" where
  "contains p [] = (p = [])"
| "contains p (c # s) = (prefix p (c # s) \<or> contains p s)"

lemma contains_sublist: "contains p s \<longleftrightarrow> sublist p s"
  by (induction s) (auto simp: sublist_Cons_right)

section \<open>The matcher\<close>

definition priority_order :: "string list" where
  "priority_order = [''INJURED'', ''UNAVAILABLE'', ''SAFE'']"

text \<open>
  The loop over a category's keywords; \<open>matched\<close> accumulates in order and is also the set \<open>seen\<close>.
\<close>

fun match_keywords ::
  "(pystr \<Rightarrow> pystr) \<Rightarrow> pystr \<Rightarrow> pyval list \<Rightarrow> pystr list \<Rightarrow> pystr list res" where
  "match_keywords lower text_lower [] matched = Inr matched"
| "match_keywords lower text_lower (kw # kws) matched =
     (case kw of
        PStr k \<Rightarrow>
          (if k = [] then match_keywords lower text_lower kws matched
           else if k \<in> set matched then match_keywords lower text_lower kws matched
           else if contains (lower k) text_lower
           then match_keywords lower text_lower kws (matched @ [k])
           else match_keywords lower text_lower kws matched)
      | _ \<Rightarrow> Inl ValueError)"

fun match_categories ::
  "(pystr \<Rightarrow> pystr) \<Rightarrow> pystr \<Rightarrow> pydict \<Rightarrow> string list \<Rightarrow> (string \<times> pystr list) res" where
  "match_categories lower text_lower dictionary [] = Inr (''OTHER'', [])"
| "match_categories lower text_lower dictionary (category # categories) =
     (case dget_or dictionary category (PList []) of
        PList keywords \<Rightarrow>
          bind_res (match_keywords lower text_lower keywords []) (\<lambda>matched.
            if matched \<noteq> [] then Inr (category, matched)
            else match_categories lower text_lower dictionary categories)
      | _ \<Rightarrow> Inl ValueError)"

definition classify_voice_status ::
  "(pystr \<Rightarrow> pystr) \<Rightarrow> pyval \<Rightarrow> pyval \<Rightarrow> (string \<times> pystr list) res" where
  "classify_voice_status lower text dictionary =
     (if \<not> is_str text then Inl ValueError
      else if \<not> is_dict dictionary then Inl ValueError
      else match_categories lower (lower (str_of text)) (items_of dictionary) priority_order)"

section \<open>Transcribe's result file\<close>

text \<open>
  \<open>float(s)\<close> of a string, exactly: an optional sign, digits with single underscores between them,
  a fraction, an exponent. \<open>inf\<close>, \<open>nan\<close> and everything else are \<open>None\<close>: the caller skips them as
  it skips a \<open>ValueError\<close>.
\<close>

fun digit_part :: "nat \<Rightarrow> nat \<Rightarrow> pystr \<Rightarrow> nat \<times> nat \<times> pystr" where
  "digit_part v n [] = (v, n, [])"
| "digit_part v n (c # s) =
     (case digit_value c of
        Some d \<Rightarrow> digit_part (10 * v + d) (Suc n) s
      | None \<Rightarrow>
          (if c = 95 \<and> n > 0 then
             (case s of
                [] \<Rightarrow> (v, n, c # s)
              | c' # s' \<Rightarrow>
                  (case digit_value c' of
                     Some d \<Rightarrow> digit_part (10 * v + d) (Suc n) s'
                   | None \<Rightarrow> (v, n, c # s)))
           else (v, n, c # s)))"

definition sign_part :: "pystr \<Rightarrow> int \<times> pystr" where
  "sign_part s = (case s of
     c # t \<Rightarrow> if c = 45 then (- 1, t) else if c = 43 then (1, t) else (1, s)
   | [] \<Rightarrow> (1, s))"

definition exponent_part :: "pystr \<Rightarrow> rat option" where
  "exponent_part s = (case s of
     [] \<Rightarrow> Some 1
   | c # t \<Rightarrow>
       (if c = 101 \<or> c = 69 then
          (case sign_part t of (sg, u) \<Rightarrow>
             (case digit_part 0 0 u of (e, n, rest) \<Rightarrow>
                if n = 0 \<or> rest \<noteq> [] then None
                else if sg = 1 then Some (10 ^ e) else Some (1 / 10 ^ e)))
        else None))"

definition py_float_of_str :: "pystr \<Rightarrow> rat option" where
  "py_float_of_str s =
     (case sign_part (py_strip s) of (sg, t) \<Rightarrow>
        (case digit_part 0 0 t of (v, n, rest) \<Rightarrow>
           (case (case rest of
                c # u \<Rightarrow> if c = 46 then digit_part v 0 u else (v, 0, rest)
              | [] \<Rightarrow> (v, 0, rest)) of (w, k, rest') \<Rightarrow>
              if n = 0 \<and> k = 0 then None
              else map_option (\<lambda>e. of_int sg * of_nat w * e / 10 ^ k) (exponent_part rest'))))"

text \<open>
  \<open>float(v)\<close>. An \<open>int\<close> beyond the range of a float raises \<open>OverflowError\<close>, which the caller does
  not catch.
\<close>

definition float_limit :: int where
  "float_limit = 2 ^ 1024 - 2 ^ 970"

definition py_float :: "pyval \<Rightarrow> rat option res" where
  "py_float v = (case v of
     PBool b \<Rightarrow> Inr (Some (if b then 1 else 0))
   | PInt i \<Rightarrow> if \<bar>i\<bar> \<ge> float_limit then Inl OverflowError else Inr (Some (of_int i))
   | PFloat r \<Rightarrow> Inr (Some r)
   | PDec r \<Rightarrow> Inr (Some r)
   | PStr s \<Rightarrow> Inr (py_float_of_str s)
   | _ \<Rightarrow> Inr None)"

definition alternative_confidence :: "pydict \<Rightarrow> rat option res" where
  "alternative_confidence first_alt =
     (if dget first_alt ''confidence'' = PNone then Inr None
      else bind_res (py_float (dget first_alt ''confidence'')) (\<lambda>c.
        Inr (case c of Some r \<Rightarrow> if 0 \<le> r \<and> r \<le> 1 then Some r else None | None \<Rightarrow> None)))"

text \<open>\<open>alternatives[0]\<close>, when it is a dict in a non-empty list.\<close>

fun first_alternative :: "pyval \<Rightarrow> pydict option" where
  "first_alternative (PList (PDict d # _)) = Some d"
| "first_alternative _ = None"

definition item_confidence :: "pyval \<Rightarrow> rat option res" where
  "item_confidence item = (case item of
     PDict d \<Rightarrow>
       (if dget d ''type'' \<noteq> PStr (str ''pronunciation'') then Inr None
        else case first_alternative (dget d ''alternatives'') of
          Some first_alt \<Rightarrow> alternative_confidence first_alt
        | None \<Rightarrow> Inr None)
   | _ \<Rightarrow> Inr None)"

fun iter_pronunciation_confidences :: "pyval list \<Rightarrow> rat list res" where
  "iter_pronunciation_confidences [] = Inr []"
| "iter_pronunciation_confidences (item # items) =
     bind_res (item_confidence item) (\<lambda>c.
     bind_res (iter_pronunciation_confidences items) (\<lambda>out.
       Inr (case c of Some r \<Rightarrow> r # out | None \<Rightarrow> out)))"

definition extract_transcript_payload :: "pyval \<Rightarrow> (pystr \<times> rat) res" where
  "extract_transcript_payload body = (case body of
     PDict b \<Rightarrow>
       (case dget b ''results'' of
          PDict results \<Rightarrow>
            (case dget results ''transcripts'' of
               PList (PDict first # _) \<Rightarrow>
                 (case dget first ''transcript'' of
                    PStr text \<Rightarrow>
                      (case dget results ''items'' of
                         PList items \<Rightarrow>
                           bind_res (iter_pronunciation_confidences items) (\<lambda>confidences.
                             Inr (text,
                               if confidences = [] then 0
                               else sum_list confidences / of_nat (length confidences)))
                       | _ \<Rightarrow> Inr (text, 0))
                  | _ \<Rightarrow> Inl ValueError)
             | _ \<Rightarrow> Inl ValueError)
        | _ \<Rightarrow> Inl ValueError)
   | _ \<Rightarrow> Inl ValueError)"

section \<open>Facts\<close>

text \<open>A keyword \<open>k\<close> occurs in a text: what \<open>kw.lower() in text_lower\<close> tests.\<close>

definition occurs :: "(pystr \<Rightarrow> pystr) \<Rightarrow> pystr \<Rightarrow> pystr \<Rightarrow> bool" where
  "occurs lower text k \<longleftrightarrow> k \<noteq> [] \<and> sublist (lower k) (lower text)"

lemma match_keywords_Inr:
  "match_keywords lower low kws acc = Inr m \<Longrightarrow> distinct acc \<Longrightarrow>
     list_all is_str kws \<and> distinct m \<and> (\<exists>new. m = acc @ new) \<and>
     set m = set acc \<union> {k. PStr k \<in> set kws \<and> k \<noteq> [] \<and> sublist (lower k) low}"
proof (induction lower low kws acc rule: match_keywords.induct)
  case (2 lower low kw kws acc)
  then obtain k where k: "kw = PStr k" by (auto split: pyval.splits)
  consider "k = [] \<or> k \<in> set acc \<or> \<not> contains (lower k) low"
    | "k \<noteq> []" "k \<notin> set acc" "contains (lower k) low" by blast
  then show ?case
  proof cases
    case 1
    then have "match_keywords lower low kws acc = Inr m" using "2.prems"(1) k by (auto split: if_splits)
    moreover have "match_keywords lower low kws acc = Inr m \<Longrightarrow> list_all is_str kws \<and> distinct m \<and>
      (\<exists>new. m = acc @ new) \<and> set m = set acc \<union> {k. PStr k \<in> set kws \<and> k \<noteq> [] \<and> sublist (lower k) low}"
      using 1 k "2.IH"(1,2,4) "2.prems"(2) by (cases "k = []"; cases "k \<in> set acc"; simp)
    ultimately show ?thesis using k 1 by (auto simp: contains_sublist)
  next
    case 2
    then have "match_keywords lower low kws (acc @ [k]) = Inr m" using "2.prems"(1) k by simp
    with 2 k "2.IH"(3) [of k] "2.prems"(2) show ?thesis by (auto simp: contains_sublist)
  qed
qed simp

lemma match_keywords_raises: "match_keywords lower low kws acc = Inl e \<Longrightarrow> e = ValueError"
  by (induction lower low kws acc rule: match_keywords.induct)
    (auto split: pyval.splits if_splits)

text \<open>The keywords of a category that occur in the text.\<close>

definition hits :: "(pystr \<Rightarrow> pystr) \<Rightarrow> pystr \<Rightarrow> pydict \<Rightarrow> string \<Rightarrow> pystr set" where
  "hits lower text d c =
     {k. PStr k \<in> set (elems_of (dget_or d c (PList []))) \<and> occurs lower text k}"

lemma match_categories_Inr:
  "match_categories lower (lower text) d cs = Inr (c, m) \<Longrightarrow>
     (c = ''OTHER'' \<and> m = [] \<and> (\<forall>c'\<in>set cs. hits lower text d c' = {})) \<or>
     (\<exists>before after. cs = before @ c # after \<and> (\<forall>c'\<in>set before. hits lower text d c' = {}) \<and>
        m \<noteq> [] \<and> distinct m \<and> set m = hits lower text d c)"
proof (induction cs)
  case (Cons c1 cs)
  then obtain kws m1 where kws: "dget_or d c1 (PList []) = PList kws"
    and m1: "match_keywords lower (lower text) kws [] = Inr m1"
    and rest: "(if m1 \<noteq> [] then Inr (c1, m1) else match_categories lower (lower text) d cs) = Inr (c, m)"
    by (auto simp: bind_res_eq_Inr split: pyval.splits)
  have h: "set m1 = hits lower text d c1" "distinct m1"
    using match_keywords_Inr [OF m1] by (auto simp: hits_def occurs_def kws)
  show ?case
  proof (cases "m1 = []")
    case False
    with rest h have "c1 # cs = [] @ c # cs" "m \<noteq> []" "distinct m" "set m = hits lower text d c"
      by auto
    then show ?thesis by (metis empty_iff empty_set)
  next
    case True
    then have e: "hits lower text d c1 = {}" using h by simp
    from True rest have "match_categories lower (lower text) d cs = Inr (c, m)" by simp
    from Cons.IH [OF this] show ?thesis
    proof (elim disjE exE conjE)
      fix before after
      assume "cs = before @ c # after" "\<forall>c'\<in>set before. hits lower text d c' = {}" "m \<noteq> []"
        "distinct m" "set m = hits lower text d c"
      with e have "c1 # cs = (c1 # before) @ c # after" "\<forall>c'\<in>set (c1 # before). hits lower text d c' = {}"
        "m \<noteq> []" "distinct m" "set m = hits lower text d c" by simp_all
      then show ?thesis by blast
    qed (use e in auto)
  qed
qed simp

lemma classify_Inr:
  assumes "classify_voice_status lower (PStr text) (PDict d) = Inr (st, m)"
  shows "st = (if hits lower text d ''INJURED'' \<noteq> {} then ''INJURED''
      else if hits lower text d ''UNAVAILABLE'' \<noteq> {} then ''UNAVAILABLE''
      else if hits lower text d ''SAFE'' \<noteq> {} then ''SAFE'' else ''OTHER'') \<and>
    distinct m \<and> set m = (if st = ''OTHER'' then {} else hits lower text d st)"
proof -
  have m: "match_categories lower (lower text) d priority_order = Inr (st, m)"
    using assms by (simp add: classify_voice_status_def)
  from match_categories_Inr [OF m] show ?thesis
  proof (elim disjE exE conjE)
    assume "st = ''OTHER''" "m = []" "\<forall>c\<in>set priority_order. hits lower text d c = {}"
    then show ?thesis by (simp add: priority_order_def)
  next
    fix before after
    assume split: "priority_order = before @ st # after"
      and none: "\<forall>c\<in>set before. hits lower text d c = {}"
      and m: "m \<noteq> []" "distinct m" "set m = hits lower text d st"
    have "before = [] \<and> st = ''INJURED'' \<or> before = [''INJURED''] \<and> st = ''UNAVAILABLE'' \<or>
        before = [''INJURED'', ''UNAVAILABLE''] \<and> st = ''SAFE''"
      using split by (simp add: priority_order_def Cons_eq_append_conv) blast
    moreover have "hits lower text d st \<noteq> {}" using m by force
    ultimately show ?thesis using none m(2,3) by (elim disjE conjE) simp_all
  qed
qed

text \<open>Only a malformed dictionary makes the matcher raise, and then \<open>ValueError\<close>.\<close>

lemma match_categories_raises:
  "match_categories lower low d cs = Inl e \<Longrightarrow> e = ValueError"
  by (induction cs)
    (auto simp: bind_res_eq_Inl match_keywords_raises split: pyval.splits if_splits)

lemma alternative_confidence_range: "alternative_confidence d = Inr (Some x) \<Longrightarrow> 0 \<le> x \<and> x \<le> 1"
  by (auto simp: alternative_confidence_def bind_res_eq_Inr split: option.splits if_splits)

lemma item_confidence_range: "item_confidence item = Inr (Some x) \<Longrightarrow> 0 \<le> x \<and> x \<le> 1"
  using alternative_confidence_range
  by (cases item) (auto simp: item_confidence_def split: option.splits if_splits)

lemma iter_confidences_range:
  "iter_pronunciation_confidences items = Inr out \<Longrightarrow> c \<in> set out \<Longrightarrow> 0 \<le> c \<and> c \<le> 1"
proof (induction items arbitrary: out)
  case (Cons item items)
  then obtain r out' where r: "item_confidence item = Inr r"
    and out': "iter_pronunciation_confidences items = Inr out'"
    and out: "out = (case r of Some x \<Rightarrow> x # out' | None \<Rightarrow> out')"
    by (auto simp: bind_res_eq_Inr)
  have "0 \<le> x \<and> x \<le> 1" if "r = Some x" for x
    using r that item_confidence_range by blast
  with Cons.IH [OF out'] out Cons.prems(2) show ?case by (auto split: option.splits)
qed simp

lemma sum_list_bounds:
  "(\<And>c. c \<in> set xs \<Longrightarrow> 0 \<le> c \<and> c \<le> (1::rat)) \<Longrightarrow> 0 \<le> sum_list xs \<and> sum_list xs \<le> of_nat (length xs)"
  by (induction xs) (auto intro: add_mono)

section \<open>Properties\<close>

text \<open>
  Property C36. The status is the highest-priority category with a keyword in the text: whenever
  the matcher returns, it returns \<open>INJURED\<close> if some keyword of that category occurs, else
  \<open>UNAVAILABLE\<close>, else \<open>SAFE\<close>, else \<open>OTHER\<close>, together with every keyword of the winning category
  that occurs, each once; a keyword of a lower category or of no category never appears.
\<close>

theorem classify_priority:
  assumes "classify_voice_status lower (PStr text) (PDict d) = Inr (st, m)"
  shows "st = (if hits lower text d ''INJURED'' \<noteq> {} then ''INJURED''
      else if hits lower text d ''UNAVAILABLE'' \<noteq> {} then ''UNAVAILABLE''
      else if hits lower text d ''SAFE'' \<noteq> {} then ''SAFE'' else ''OTHER'') \<and>
    distinct m \<and> set m = (if st = ''OTHER'' then {} else hits lower text d st)"
  by (rule classify_Inr [OF assms])

theorem classify_priority_witness:
  "\<exists>m. classify_voice_status id (PStr (str ''I am hurt but ok''))
      (PDict [(str ''SAFE'', PList [PStr (str ''ok'')]), (str ''INJURED'', PList [PStr (str ''hurt'')])]) =
        Inr (''INJURED'', m) \<and>
    hits id (str ''I am hurt but ok'') [(str ''SAFE'', PList [PStr (str ''ok'')]),
      (str ''INJURED'', PList [PStr (str ''hurt'')])] ''INJURED'' \<noteq> {}"
proof -
  let ?d = "[(str ''SAFE'', PList [PStr (str ''ok'')]), (str ''INJURED'', PList [PStr (str ''hurt'')])]"
  have c: "classify_voice_status id (PStr (str ''I am hurt but ok'')) (PDict ?d) = Inr (''INJURED'', [str ''hurt''])"
    by (simp add: classify_voice_status_def priority_order_def str_def dget_or_def dfind_def)
  show ?thesis using classify_priority [OF c] c by (auto split: if_splits)
qed

text \<open>
  The order in which the dictionary lists its keywords never changes the answer:
  for two dictionaries whose categories hold the same keywords, the status is the same and so is
  the set of matched keywords.
\<close>

theorem classify_order_irrelevant:
  assumes "\<forall>c\<in>set priority_order. set (elems_of (dget_or d c (PList []))) = set (elems_of (dget_or d' c (PList [])))"
    and "classify_voice_status lower (PStr text) (PDict d) = Inr (st, m)"
    and "classify_voice_status lower (PStr text) (PDict d') = Inr (st', m')"
  shows "st' = st \<and> set m' = set m"
proof -
  have h: "hits lower text d c = hits lower text d' c" if "c \<in> set priority_order" for c
    using assms(1) that by (simp add: hits_def)
  have "hits lower text d ''INJURED'' = hits lower text d' ''INJURED''"
    "hits lower text d ''UNAVAILABLE'' = hits lower text d' ''UNAVAILABLE''"
    "hits lower text d ''SAFE'' = hits lower text d' ''SAFE''"
    by (simp_all add: h priority_order_def)
  then show ?thesis using classify_Inr [OF assms(2)] classify_Inr [OF assms(3)] by auto
qed

theorem classify_order_irrelevant_witness:
  "(let d = [(str ''SAFE'', PList [PStr (str ''a''), PStr (str ''b'')])];
        d' = [(str ''SAFE'', PList [PStr (str ''b''), PStr (str ''a'')])] in
    \<exists>m m'. classify_voice_status id (PStr (str ''ab'')) (PDict d) = Inr (''SAFE'', m) \<and>
      classify_voice_status id (PStr (str ''ab'')) (PDict d') = Inr (''SAFE'', m') \<and> set m' = set m)"
proof -
  let ?d = "[(str ''SAFE'', PList [PStr (str ''a''), PStr (str ''b'')])]"
  let ?d' = "[(str ''SAFE'', PList [PStr (str ''b''), PStr (str ''a'')])]"
  have c: "classify_voice_status id (PStr (str ''ab'')) (PDict ?d) = Inr (''SAFE'', [str ''a'', str ''b''])"
    and c': "classify_voice_status id (PStr (str ''ab'')) (PDict ?d') = Inr (''SAFE'', [str ''b'', str ''a''])"
    by (simp_all add: classify_voice_status_def priority_order_def str_def dget_or_def dfind_def)
  have "\<forall>c\<in>set priority_order. set (elems_of (dget_or ?d c (PList []))) = set (elems_of (dget_or ?d' c (PList [])))"
    by (auto simp: priority_order_def)
  from classify_order_irrelevant [OF this c c'] c c' show ?thesis by (simp add: Let_def)
qed

text \<open>
  The confidence recorded with a transcript is a number between 0 and 1 whatever
  the file holds: items that are malformed, of another type or out of range never leave that
  interval, and a file without usable items gives 0.
\<close>

theorem transcript_confidence_bounds:
  assumes "extract_transcript_payload body = Inr (text, conf)"
  shows "0 \<le> conf \<and> conf \<le> 1"
proof -
  consider "conf = 0" | items cs where "iter_pronunciation_confidences items = Inr cs"
    "cs \<noteq> []" "conf = sum_list cs / of_nat (length cs)"
    using assms
    by (auto simp: extract_transcript_payload_def bind_res_eq_Inr split: pyval.splits list.splits
        if_splits)
  then show ?thesis
  proof cases
    case (2 items cs)
    have "0 \<le> sum_list cs \<and> sum_list cs \<le> of_nat (length cs)"
      by (rule sum_list_bounds) (rule iter_confidences_range [OF 2(1)])
    then show ?thesis using 2(2,3) by (simp add: divide_le_eq_1 zero_le_divide_iff)
  qed simp
qed

theorem transcript_confidence_bounds_witness:
  "\<exists>conf. extract_transcript_payload (PDict [(str ''results'', PDict
      [(str ''transcripts'', PList [PDict [(str ''transcript'', PStr (str ''ok''))]]),
       (str ''items'', PList [PDict [(str ''type'', PStr (str ''pronunciation'')),
         (str ''alternatives'', PList [PDict [(str ''confidence'', PStr (str ''0.5''))]])]])])]) =
      Inr (str ''ok'', conf) \<and> 0 \<le> conf \<and> conf \<le> 1"
proof -
  let ?b = "PDict [(str ''results'', PDict
      [(str ''transcripts'', PList [PDict [(str ''transcript'', PStr (str ''ok''))]]),
       (str ''items'', PList [PDict [(str ''type'', PStr (str ''pronunciation'')),
         (str ''alternatives'', PList [PDict [(str ''confidence'', PStr (str ''0.5''))]])]])])]"
  obtain conf where c: "extract_transcript_payload ?b = Inr (str ''ok'', conf)"
    by (simp add: extract_transcript_payload_def item_confidence_def
        alternative_confidence_def py_float_def)
  show ?thesis using transcript_confidence_bounds [OF c] c by blast
qed

end
