(* ===== verification/Iso_Order.thy ===== *)
theory Iso_Order
  imports Py_Iso
begin

text \<open>
  Timestamps as strings: the rewriting of \<open>Z\<close> before parsing, and the fact the code relies on when
  it sorts by the text, that the texts of \<open>iso_z_seconds\<close> are ordered as their instants.
\<close>

section \<open>Z\<close>

text \<open>\<open>s.replace("Z", "+00:00")\<close> replaces every \<open>Z\<close>.\<close>

definition replace_z :: "pystr \<Rightarrow> pystr" where
  "replace_z s = concat (map (\<lambda>c. if c = 90 then str ''+00:00'' else [c]) s)"

lemma replace_z_id: "90 \<notin> set s \<Longrightarrow> replace_z s = s"
  by (induction s) (auto simp: replace_z_def)

lemma replace_z_append: "replace_z (s @ t) = replace_z s @ replace_z t"
  by (simp add: replace_z_def)

lemma iso_seconds_no_z: "90 \<notin> set (iso_seconds t)"
proof -
  have "90 \<notin> set (pad k n)" for k n using pad_ascii [of 90 k n] by (auto simp: is_ascii_digit_def)
  then show ?thesis
    by (auto simp: iso_seconds_def iso_date_def iso_time_def Let_def simp del: pad.simps split: prod.split)
qed

lemma replace_z_iso_z_seconds: "replace_z (iso_z_seconds t) = iso_seconds t @ str ''+00:00''"
  using replace_z_id [OF iso_seconds_no_z [of t]]
  by (simp add: iso_z_seconds_def replace_z_append) (simp add: replace_z_def)

lemma iso_z_seconds_shape: "iso_z_seconds t \<noteq> []" "last (iso_z_seconds t) = 90"
  by (simp_all add: iso_z_seconds_def)

section \<open>Order of digit strings\<close>

lemma div_mod_order:
  fixes n m :: nat
  shows "n \<le> m \<longleftrightarrow> (n div k \<noteq> m div k \<and> n div k \<le> m div k) \<or> (n div k = m div k \<and> n mod k \<le> m mod k)"
proof (cases "n div k = m div k")
  case True
  then show ?thesis using mult_div_mod_eq [of k n] mult_div_mod_eq [of k m] by (metis nat_add_left_cancel_le)
next
  case False
  then show ?thesis using div_le_mono [of n m k] div_le_mono [of m n k] by linarith
qed

lemma str_le_append:
  "length u = length v \<Longrightarrow> str_le (u @ s) (v @ t) \<longleftrightarrow> (u \<noteq> v \<and> str_le u v) \<or> (u = v \<and> str_le s t)"
  by (induction u v rule: list_induct2) auto

lemma pad_eq: "n < 10 ^ k \<Longrightarrow> m < 10 ^ k \<Longrightarrow> pad k n = pad k m \<longleftrightarrow> n = m"
  by (metis scan_pad option.inject prod.inject)

lemma pad_le: "n < 10 ^ k \<Longrightarrow> m < 10 ^ k \<Longrightarrow> str_le (pad k n) (pad k m) \<longleftrightarrow> n \<le> m"
proof (induction k arbitrary: n m)
  case (Suc k)
  have d: "n div 10 < 10 ^ k" "m div 10 < 10 ^ k" using Suc.prems by simp_all
  have "str_le (pad (Suc k) n) (pad (Suc k) m) \<longleftrightarrow>
      (n div 10 \<noteq> m div 10 \<and> n div 10 \<le> m div 10) \<or> (n div 10 = m div 10 \<and> n mod 10 \<le> m mod 10)"
    using Suc.IH [OF d] pad_eq [OF d] by (auto simp: str_le_append)
  also have "\<dots> \<longleftrightarrow> n \<le> m"
    by (rule div_mod_order [symmetric])
  finally show ?case .
qed simp

section \<open>Order of dates\<close>

definition month_steps :: "bool \<Rightarrow> bool" where
  "month_steps leap \<longleftrightarrow> list_all (\<lambda>m. list_all (\<lambda>m'. m < m' \<longrightarrow>
      days_before_month leap m + days_in_month leap m \<le> days_before_month leap m') [1..<13]) [1..<13] \<and>
    list_all (\<lambda>m. days_before_month leap m + days_in_month leap m \<le> 365 + of_bool leap) [1..<13]"

lemma month_steps: "month_steps leap"
  by (cases leap; simp only:) code_simp+

lemma month_order:
  "1 \<le> m \<Longrightarrow> m < m' \<Longrightarrow> m' \<le> 12 \<Longrightarrow>
     days_before_month leap m + days_in_month leap m \<le> days_before_month leap m'"
  "1 \<le> m \<Longrightarrow> m \<le> 12 \<Longrightarrow> days_before_month leap m + days_in_month leap m \<le> 365 + of_bool leap"
  using month_steps [of leap] unfolding month_steps_def list_all_iff by auto

lemma leap_count:
  fixes a b c x :: nat
  assumes "b \<le> a" "B \<Longrightarrow> A" "C \<Longrightarrow> B"
  shows "x + 365 + (a + of_bool A) - (b + of_bool B) + (c + of_bool C) =
    x + a - b + c + 365 + of_bool (A \<and> (\<not> B \<or> C))"
  using assms by (cases A; cases B; cases C) auto

lemma year_step: "1 \<le> y \<Longrightarrow> days_before_year (Suc y) = days_before_year y + 365 + of_bool (is_leap y)"
proof -
  assume "1 \<le> y"
  then obtain x where y: "y = Suc x" by (cases y) auto
  have d: "Suc x div k = x div k + of_bool (Suc x mod k = 0)" for k by (simp add: div_Suc)
  have e: "days_before_year (Suc y) = x * 365 + 365 + Suc x div 4 - Suc x div 100 + Suc x div 400"
      "days_before_year y = x * 365 + x div 4 - x div 100 + x div 400"
    by (simp_all add: days_before_year_def y)
  have "x div 100 \<le> x div 4" "Suc x mod 100 = 0 \<Longrightarrow> Suc x mod 4 = 0"
      "Suc x mod 400 = 0 \<Longrightarrow> Suc x mod 100 = 0"
    by (simp add: div_le_mono2, presburger, presburger)
  from leap_count [OF this, where x = "x * 365" and c = "x div 400"] show ?thesis
    unfolding e is_leap_def d by (simp only: y simp_thms)
qed

lemma year_mono: "1 \<le> y \<Longrightarrow> y \<le> y' \<Longrightarrow> days_before_year y \<le> days_before_year y'"
proof (induction y')
  case (Suc n)
  then show ?case using year_step [of n] by (cases "y = Suc n") auto
qed simp

lemma ymd_days_year_end: "valid_ymd y m d \<Longrightarrow> ymd_days y m d < days_before_year (Suc y)"
  using month_order(2) [of m "is_leap y"] year_step [of y] by (auto simp: valid_ymd_def ymd_days_def)

definition date_le :: "nat \<times> nat \<times> nat \<Rightarrow> nat \<times> nat \<times> nat \<Rightarrow> bool" where
  "date_le a b = (case (a, b) of ((y, m, d), (y', m', d')) \<Rightarrow>
     y < y' \<or> y = y' \<and> (m < m' \<or> m = m' \<and> d \<le> d'))"

lemma ymd_days_mono:
  assumes "valid_ymd y m d" "valid_ymd y' m' d'" "date_le (y, m, d) (y', m', d')"
  shows "ymd_days y m d \<le> ymd_days y' m' d'"
proof (cases "y < y'")
  case True
  have "ymd_days y m d < days_before_year (Suc y)" by (rule ymd_days_year_end [OF assms(1)])
  also have "\<dots> \<le> days_before_year y'" using True by (intro year_mono) auto
  finally show ?thesis by (simp add: ymd_days_def)
next
  case False
  then have y: "y' = y" using assms(3) by (auto simp: date_le_def)
  show ?thesis
  proof (cases "m < m'")
    case True
    then have "days_before_month (is_leap y) m + days_in_month (is_leap y) m \<le> days_before_month (is_leap y) m'"
      using assms(1,2) by (intro month_order(1)) (auto simp: valid_ymd_def)
    then show ?thesis using assms(1) by (auto simp: y ymd_days_def valid_ymd_def)
  next
    case False
    then show ?thesis using assms(3) y by (auto simp: date_le_def ymd_days_def)
  qed
qed

lemma date_le_total: "date_le a b \<or> date_le b a"
  by (auto simp: date_le_def split: prod.splits)

lemma date_le_antisym: "date_le a b \<Longrightarrow> date_le b a \<Longrightarrow> a = b"
  by (auto simp: date_le_def split: prod.splits)

lemma days_ymd_order:
  assumes "n < max_days" "n' < max_days"
  shows "date_le (days_ymd n) (days_ymd n') \<longleftrightarrow> n \<le> n'"
proof -
  obtain y m d y' m' d' where e: "days_ymd n = (y, m, d)" "days_ymd n' = (y', m', d')"
    by (cases "days_ymd n"; cases "days_ymd n'") auto
  note v = days_ymd_valid [OF assms(1) e(1)] days_ymd_valid [OF assms(2) e(2)]
  show ?thesis
  proof
    assume "date_le (days_ymd n) (days_ymd n')"
    then show "n \<le> n'" using ymd_days_mono [OF v(1) v(3)] v(2,4) e by simp
  next
    assume le: "n \<le> n'"
    show "date_le (days_ymd n) (days_ymd n')"
    proof (rule ccontr)
      assume "\<not> date_le (days_ymd n) (days_ymd n')"
      then have "date_le (y', m', d') (y, m, d)" using date_le_total e by metis
      then have "n' \<le> n" using ymd_days_mono [OF v(3) v(1)] v(2,4) by simp
      with le \<open>\<not> date_le (days_ymd n) (days_ymd n')\<close> show False
        using date_le_total [of "days_ymd n" "days_ymd n"] by simp
    qed
  qed
qed

section \<open>Order of timestamps\<close>

lemma length_iso_date [simp]: "length (iso_date n) = 10"
  by (simp add: iso_date_def split: prod.splits del: pad.simps)

lemma three_pads_le:
  assumes "a < 10 ^ k" "a' < 10 ^ k" "b < 100" "b' < 100" "c < 100" "c' < 100"
  shows "str_le (pad k a @ [x] @ pad 2 b @ [x] @ pad 2 c) (pad k a' @ [x] @ pad 2 b' @ [x] @ pad 2 c') \<longleftrightarrow>
    date_le (a, b, c) (a', b', c')"
    "pad k a @ [x] @ pad 2 b @ [x] @ pad 2 c = pad k a' @ [x] @ pad 2 b' @ [x] @ pad 2 c' \<longleftrightarrow>
     (a, b, c) = (a', b', c')"
  using assms pad_le [of a k a'] pad_le [of b 2 b'] pad_le [of c 2 c'] pad_eq [of a k a'] pad_eq [of b 2 b']
    pad_eq [of c 2 c']
  by (auto simp: str_le_append date_le_def simp del: pad.simps)

lemma iso_date_le:
  assumes "n < max_days" "n' < max_days"
  shows "str_le (iso_date n) (iso_date n') \<longleftrightarrow> n \<le> n'" "iso_date n = iso_date n' \<longleftrightarrow> n = n'"
proof -
  obtain y m d y' m' d' where e: "days_ymd n = (y, m, d)" "days_ymd n' = (y', m', d')"
    by (cases "days_ymd n"; cases "days_ymd n'") auto
  note v = days_ymd_valid [OF assms(1) e(1)] days_ymd_valid [OF assms(2) e(2)]
  have "d \<le> 31" "d' \<le> 31"
    using v(1,3) days_in_month_le [of m "is_leap y"] days_in_month_le [of m' "is_leap y'"]
    by (auto simp: valid_ymd_def)
  then have b: "y < 10 ^ 4" "y' < 10 ^ 4" "m < 100" "m' < 100" "d < 100" "d' < 100"
    using v(1,3) by (auto simp: valid_ymd_def)
  show "str_le (iso_date n) (iso_date n') \<longleftrightarrow> n \<le> n'"
    using three_pads_le(1) [OF b, of 45] days_ymd_order [OF assms] e by (simp add: iso_date_def del: pad.simps)
  show "iso_date n = iso_date n' \<longleftrightarrow> n = n'"
    using three_pads_le(2) [OF b, of 45] v(2,4) e by (auto simp: iso_date_def simp del: pad.simps)
qed

lemma iso_time_le:
  assumes "s < 86400" "s' < 86400"
  shows "str_le (iso_time s) (iso_time s') \<longleftrightarrow> s \<le> s'"
proof -
  have b: "s div 3600 < 10 ^ 2" "s' div 3600 < 10 ^ 2" "s div 60 mod 60 < 60" "s' div 60 mod 60 < 60"
      "s mod 60 < 60" "s' mod 60 < 60"
    using assms by simp_all
  have "str_le (iso_time s) (iso_time s') \<longleftrightarrow>
     date_le (s div 3600, s div 60 mod 60, s mod 60) (s' div 3600, s' div 60 mod 60, s' mod 60)"
    unfolding iso_time_def using b by (intro three_pads_le(1)) auto
  also have "\<dots> \<longleftrightarrow> s \<le> s'"
  proof -
    have d: "u div 3600 = u div 60 div 60" for u :: nat by (simp add: div_mult2_eq [symmetric])
    have "s div 60 = s' div 60 \<longleftrightarrow> s div 60 div 60 = s' div 60 div 60 \<and> s div 60 mod 60 = s' div 60 mod 60"
      by (metis div_mult_mod_eq)
    then show ?thesis
      unfolding div_mod_order [of s s' 60] div_mod_order [of "s div 60" "s' div 60" 60] d date_le_def
      by (auto simp del: div_mult2_eq)
  qed
  finally show ?thesis .
qed

theorem iso_z_seconds_order:
  assumes "valid_us a" "valid_us b"
  shows "str_le (iso_z_seconds a) (iso_z_seconds b) \<longleftrightarrow> a div 1000000 \<le> b div 1000000"
proof -
  let ?a = "nat a div 1000000" and ?b = "nat b div 1000000"
  have lt: "?a div 86400 < max_days" "?b div 86400 < max_days"
    using assms by (auto simp: valid_us_def max_us_def us_per_day_def max_days_def)
  note d = iso_date_le [OF lt]
  have "str_le (iso_z_seconds a) (iso_z_seconds b) \<longleftrightarrow>
      (?a div 86400 \<noteq> ?b div 86400 \<and> ?a div 86400 \<le> ?b div 86400) \<or>
      (?a div 86400 = ?b div 86400 \<and> str_le (iso_time (?a mod 86400) @ [90]) (iso_time (?b mod 86400) @ [90]))"
    by (simp add: iso_z_seconds_def iso_seconds_def Let_def str_le_append d)
  also have "str_le (iso_time (?a mod 86400) @ [90]) (iso_time (?b mod 86400) @ [90]) \<longleftrightarrow> ?a mod 86400 \<le> ?b mod 86400"
  proof -
    have len: "length (iso_time u) = 8" for u by (simp add: iso_time_def del: pad.simps)
    show ?thesis
      using iso_time_le [of "?a mod 86400" "?b mod 86400"] by (auto simp: str_le_append len)
  qed
  also have "(?a div 86400 \<noteq> ?b div 86400 \<and> ?a div 86400 \<le> ?b div 86400) \<or>
      (?a div 86400 = ?b div 86400 \<and> ?a mod 86400 \<le> ?b mod 86400) \<longleftrightarrow> ?a \<le> ?b"
    by (rule div_mod_order [symmetric])
  also have "?a \<le> ?b \<longleftrightarrow> a div 1000000 \<le> b div 1000000"
  proof -
    have "nat a div 1000000 = nat (a div 1000000)" "nat b div 1000000 = nat (b div 1000000)"
      using assms by (simp_all add: valid_us_def nat_div_distrib)
    then show ?thesis using assms by (simp add: valid_us_def pos_imp_zdiv_nonneg_iff nat_le_eq_zle)
  qed
  finally show ?thesis .
qed

end
