(* ===== verification/Recording_Keys.thy ===== *)
theory Recording_Keys
  imports Py_Iso Iso_Order
begin

text \<open>
  \<open>backend/shared/recording/\<close>: the S3 object keys of recordings and transcripts (\<open>s3_keys.py\<close>),
  Connect's own key layout (\<open>connect_key.py\<close>) and the age limit on download links
  (\<open>expiry.py\<close>).

  The regular expressions are modelled by splitting at \<open>/\<close>: every group of theirs excludes it, so
  a match fixes which slash is which.
\<close>

section \<open>Segments\<close>

fun split_on :: "nat \<Rightarrow> pystr \<Rightarrow> pystr list" where
  "split_on c [] = [[]]"
| "split_on c (x # s) =
     (if x = c then [] # split_on c s
      else case split_on c s of [] \<Rightarrow> [[x]] | t # ts \<Rightarrow> (x # t) # ts)"

fun join_with :: "nat \<Rightarrow> pystr list \<Rightarrow> pystr" where
  "join_with c [] = []"
| "join_with c [s] = s"
| "join_with c (s # t # ts) = s @ [c] @ join_with c (t # ts)"

text \<open>A pattern ending in \<open>ext$\<close>: the extension, and at most one newline after it, is cut off.\<close>

definition cut_ext :: "string \<Rightarrow> pystr \<Rightarrow> pystr option" where
  "cut_ext ext s =
     (let e = str ext in
      if suffix e s then Some (take (length s - length e) s)
      else if suffix (e @ [10]) s then Some (take (length s - Suc (length e)) s)
      else None)"

definition all_digits :: "pystr \<Rightarrow> bool" where
  "all_digits s \<longleftrightarrow> s \<noteq> [] \<and> list_all is_digit s"

section \<open>Recording and transcript keys\<close>

datatype key_kind = Outbound | Inbound

record key_info =
  ki_kind :: key_kind
  ki_cycle_id_or_inbound_prefix :: pystr
  ki_employee_id :: pystr
  ki_seq_or_contact :: pystr
  ki_transcript_s3_key :: pystr
  ki_meta_pk :: pystr
  ki_meta_sk :: pystr

text \<open>\<open>^base/([^/]+)/([^/]+)/(\d+)ext$\<close> and \<open>^inbound/(\d{6})/([^/]+)/([^/]+)ext$\<close>: the groups.\<close>

definition match_outbound :: "string \<Rightarrow> string \<Rightarrow> pystr \<Rightarrow> (pystr \<times> pystr \<times> pystr) option" where
  "match_outbound base ext key = (case split_on 47 key of
     [r, c, e, f] \<Rightarrow>
       (case cut_ext ext f of
          Some n \<Rightarrow> if r = str base \<and> c \<noteq> [] \<and> e \<noteq> [] \<and> all_digits n then Some (c, e, n) else None
        | None \<Rightarrow> None)
   | _ \<Rightarrow> None)"

definition match_inbound :: "string \<Rightarrow> pystr \<Rightarrow> (pystr \<times> pystr \<times> pystr) option" where
  "match_inbound ext key = (case split_on 47 key of
     [r, ym, e, f] \<Rightarrow>
       (case cut_ext ext f of
          Some c \<Rightarrow>
            if r = str ''inbound'' \<and> all_digits ym \<and> length ym = 6 \<and> e \<noteq> [] \<and> c \<noteq> []
            then Some (ym, e, c) else None
        | None \<Rightarrow> None)
   | _ \<Rightarrow> None)"

definition outbound_info :: "pystr \<Rightarrow> pystr \<times> pystr \<times> pystr \<Rightarrow> key_info" where
  "outbound_info transcript_key g = (case g of (cycle_id, employee_id, seq) \<Rightarrow>
     \<lparr>ki_kind = Outbound, ki_cycle_id_or_inbound_prefix = cycle_id, ki_employee_id = employee_id,
      ki_seq_or_contact = seq, ki_transcript_s3_key = transcript_key, ki_meta_pk = cycle_id,
      ki_meta_sk = employee_id @ [35] @ seq\<rparr>)"

definition inbound_info :: "pystr \<Rightarrow> pystr \<times> pystr \<times> pystr \<Rightarrow> key_info" where
  "inbound_info transcript_key g = (case g of (yyyymm, employee_id, contact_id) \<Rightarrow>
     \<lparr>ki_kind = Inbound, ki_cycle_id_or_inbound_prefix = str ''INBOUND#'' @ contact_id,
      ki_employee_id = employee_id, ki_seq_or_contact = contact_id,
      ki_transcript_s3_key = transcript_key, ki_meta_pk = str ''INBOUND#'' @ contact_id,
      ki_meta_sk = employee_id @ str ''#0''\<rparr>)"

definition slashed :: "string \<Rightarrow> pystr \<times> pystr \<times> pystr \<Rightarrow> string \<Rightarrow> pystr" where
  "slashed base g ext = (case g of (a, b, c) \<Rightarrow>
     str base @ [47] @ a @ [47] @ b @ [47] @ c @ str ext)"

definition parse_recording_key :: "pyval \<Rightarrow> key_info option" where
  "parse_recording_key key =
     (if \<not> nonempty_str key then None
      else case match_outbound ''recordings'' ''.wav'' (str_of key) of
        Some g \<Rightarrow> Some (outbound_info (slashed ''transcripts'' g ''.json'') g)
      | None \<Rightarrow>
          map_option (\<lambda>g. inbound_info (slashed ''inbound'' g ''.json'') g)
            (match_inbound ''.wav'' (str_of key)))"

definition parse_transcript_key :: "pyval \<Rightarrow> key_info option" where
  "parse_transcript_key key =
     (if \<not> nonempty_str key then None
      else case match_outbound ''transcripts'' ''.json'' (str_of key) of
        Some g \<Rightarrow> Some (outbound_info (str_of key) g)
      | None \<Rightarrow> map_option (inbound_info (str_of key)) (match_inbound ''.json'' (str_of key)))"

definition sanitize :: "pystr \<Rightarrow> pystr" where
  "sanitize s = map (\<lambda>c. if c \<in> {58, 47, 35} then 45 else c) s"

definition transcribe_job_name_max :: nat where
  "transcribe_job_name_max = 200"

definition derive_transcribe_job_name :: "pyval \<Rightarrow> pyval \<Rightarrow> pystr res" where
  "derive_transcribe_job_name meta_pk meta_sk =
     (if \<not> is_str meta_pk \<or> \<not> is_str meta_sk then Inl ValueError
      else if str_of meta_pk = [] \<or> str_of meta_sk = [] then Inl ValueError
      else
        let raw = str ''safety-confirm-'' @ str_of meta_pk @ [45] @ str_of meta_sk;
            sanitized = sanitize raw in
        if length sanitized > transcribe_job_name_max
        then Inr (take transcribe_job_name_max sanitized)
        else Inr sanitized)"

section \<open>Connect's keys\<close>

record connect_key_info =
  ck_contact_id :: pystr
  ck_yyyy :: pystr
  ck_mm :: pystr
  ck_dd :: pystr
  ck_timestamp :: pystr

text \<open>\<open>_UTC(?:_[^/]+)?\.wav$\<close> on a segment.\<close>

definition utc_tail :: "pystr \<Rightarrow> bool" where
  "utc_tail t \<longleftrightarrow> take 4 t = str ''_UTC'' \<and>
     (let u = drop 4 t in
      cut_ext ''.wav'' u = Some [] \<or>
      (u \<noteq> [] \<and> hd u = 95 \<and>
       (case cut_ext ''.wav'' (tl u) of Some x \<Rightarrow> x \<noteq> [] | None \<Rightarrow> False)))"

text \<open>The lazy group \<open>([^/]+?)\<close>: the shortest non-empty prefix that leaves such a tail.\<close>

fun lazy_timestamp :: "pystr \<Rightarrow> pystr \<Rightarrow> pystr option" where
  "lazy_timestamp acc [] = None"
| "lazy_timestamp acc (c # s) =
     (if acc \<noteq> [] \<and> utc_tail (c # s) then Some acc else lazy_timestamp (acc @ [c]) s)"

definition match_connect :: "pystr \<Rightarrow> connect_key_info option" where
  "match_connect key = (case rev (split_on 47 key) of
     f # d # m # y # r # rprefix \<Rightarrow>
       (let pre = join_with 47 (rev rprefix);
            contact = takeWhile (\<lambda>c. c \<noteq> 95) f in
        if r = str ''CallRecordings'' \<and> pre \<noteq> [] \<and> 10 \<notin> set pre \<and>
           all_digits y \<and> length y = 4 \<and> all_digits m \<and> length m = 2 \<and>
           all_digits d \<and> length d = 2 \<and> contact \<noteq> []
        then (case dropWhile (\<lambda>c. c \<noteq> 95) f of
                _ # t \<Rightarrow>
                  map_option (\<lambda>ts.
                    \<lparr>ck_contact_id = contact, ck_yyyy = y, ck_mm = m, ck_dd = d, ck_timestamp = ts\<rparr>)
                    (lazy_timestamp [] t)
              | [] \<Rightarrow> None)
        else None)
   | _ \<Rightarrow> None)"

definition parse_connect_native_key :: "pyval \<Rightarrow> connect_key_info option" where
  "parse_connect_native_key key =
     (if \<not> nonempty_str key then None else match_connect (str_of key))"

definition derive_target_outbound_key :: "pyval \<Rightarrow> pyval \<Rightarrow> pyval \<Rightarrow> pystr res" where
  "derive_target_outbound_key cycle_id employee_id seq =
     (if \<not> nonempty_str cycle_id \<or> 47 \<in> set (str_of cycle_id) then Inl ValueError
      else if \<not> nonempty_str employee_id \<or> 47 \<in> set (str_of employee_id) then Inl ValueError
      else if \<not> is_int seq \<or> is_bool seq \<or> int_val seq < 0 then Inl ValueError
      else Inr (str ''recordings/'' @ str_of cycle_id @ [47] @ str_of employee_id @ [47] @
        int_str (int_val seq) @ str ''.wav''))"

section \<open>Age limit\<close>

text \<open>\<open>datetime.fromisoformat(s.replace("Z", "+00:00"))\<close>.\<close>

definition expiry_parse_iso :: "pystr \<Rightarrow> pydt res" where
  "expiry_parse_iso s = (case py_fromisoformat (replace_z s) of
     None \<Rightarrow> Inl ValueError | Some p \<Rightarrow> Inr p)"

text \<open>The difference of two timestamps; one with and one without an offset is a \<open>TypeError\<close>.\<close>

definition dt_minus :: "pydt \<Rightarrow> pydt \<Rightarrow> int res" where
  "dt_minus a b = (case (utc_off a, utc_off b) of
     (None, None) \<Rightarrow> Inr (wall_us a - wall_us b)
   | (Some x, Some y) \<Rightarrow> Inr ((wall_us a - x) - (wall_us b - y))
   | _ \<Rightarrow> Inl TypeError)"

definition presigned_url_ttl_seconds :: int where
  "presigned_url_ttl_seconds = 15 * 60"

definition can_issue_url :: "pystr \<Rightarrow> pystr \<Rightarrow> int \<Rightarrow> bool res" where
  "can_issue_url reference_iso now_iso max_age_days =
     bind_res (expiry_parse_iso reference_iso) (\<lambda>ref.
     bind_res (expiry_parse_iso now_iso) (\<lambda>now.
     bind_res (dt_minus now ref) (\<lambda>age. Inr (age \<le> max_age_days * us_per_day))))"

definition compute_expiry :: "pystr \<Rightarrow> int \<Rightarrow> pydt res" where
  "compute_expiry now_iso max_age_days =
     bind_res (expiry_parse_iso now_iso) (\<lambda>now.
       let w = wall_us now - max_age_days * us_per_day in
       if valid_us w then Inr (now\<lparr>wall_us := w\<rparr>) else Inl OverflowError)"

section \<open>Facts\<close>

lemma split_on_no: "c \<notin> set s \<Longrightarrow> split_on c s = [s]"
  by (induction s) auto

lemma split_on_append: "c \<notin> set s \<Longrightarrow> split_on c (s @ c # t) = s # split_on c t"
  by (induction s) auto

lemma cut_ext_append: "cut_ext ext (s @ str ext) = Some s"
  by (simp add: cut_ext_def Let_def suffix_def)

lemma all_digits_nat_str: "all_digits (nat_str n)"
  using ascii_digit_is_digit nat_str_digits by (auto simp: all_digits_def list_all_iff)

lemma digit_not_slash: "\<not> is_digit 47"
  by (simp add: is_digit_def digit_value_def nd_blocks_def)

lemma all_digits_no_slash: "all_digits s \<Longrightarrow> 47 \<notin> set s"
  using digit_not_slash by (auto simp: all_digits_def list_all_iff)

lemma ext_no_slash: "47 \<notin> set (str ''.wav'')" "47 \<notin> set (str ''.json'')"
  by (simp_all add: str_def)

lemma root_no_slash:
  "47 \<notin> set (str ''recordings'')" "47 \<notin> set (str ''transcripts'')" "47 \<notin> set (str ''inbound'')"
  by (simp_all add: str_def)

lemma split_slashed:
  assumes "47 \<notin> set (str base)" "47 \<notin> set a" "47 \<notin> set b" "47 \<notin> set c" "47 \<notin> set (str ext)"
  shows "split_on 47 (slashed base (a, b, c) ext) = [str base, a, b, c @ str ext]"
  using assms by (simp add: slashed_def split_on_append split_on_no)

lemma match_outbound_slashed:
  assumes "47 \<notin> set (str base)" "47 \<notin> set (str ext)"
    and "c \<noteq> []" "47 \<notin> set c" "e \<noteq> []" "47 \<notin> set e" "all_digits n"
  shows "match_outbound base ext (slashed base (c, e, n) ext) = Some (c, e, n)"
  using assms by (simp add: match_outbound_def split_slashed all_digits_no_slash cut_ext_append)

lemma match_outbound_groups:
  "match_outbound base ext key = Some (c, e, n) \<Longrightarrow>
     c \<noteq> [] \<and> e \<noteq> [] \<and> all_digits n \<and> c \<in> set (split_on 47 key) \<and> e \<in> set (split_on 47 key)"
  by (auto simp: match_outbound_def split: list.splits option.splits if_splits)

lemma split_on_parts: "s \<in> set (split_on c t) \<Longrightarrow> c \<notin> set s"
  by (induction t arbitrary: s) (auto split: if_splits list.splits)

lemma slashed_nonempty [simp]: "slashed base g ext \<noteq> []"
  by (simp add: slashed_def split: prod.split)

lemma slashed_recordings: "str ''recordings/'' @ c @ [47] @ e @ [47] @ n @ str ''.wav'' =
    slashed ''recordings'' (c, e, n) ''.wav''"
  by (simp add: slashed_def str_def)

lemma derive_target_value:
  assumes "c \<noteq> []" "47 \<notin> set c" "e \<noteq> []" "47 \<notin> set e" "0 \<le> n"
  shows "derive_target_outbound_key (PStr c) (PStr e) (PInt n) =
    Inr (slashed ''recordings'' (c, e, nat_str (nat n)) ''.wav'')"
  using assms by (simp add: derive_target_outbound_key_def int_str_def flip: slashed_recordings)

lemma derive_target_returns:
  assumes "derive_target_outbound_key c e n = Inr k"
  obtains c' e' i where "c = PStr c'" "e = PStr e'" "n = PInt i" "c' \<noteq> []" "47 \<notin> set c'"
    "e' \<noteq> []" "47 \<notin> set e'" "0 \<le> i"
proof -
  have "nonempty_str c" "47 \<notin> set (str_of c)" "nonempty_str e" "47 \<notin> set (str_of e)" "is_int n"
    "\<not> is_bool n" "0 \<le> int_val n"
    using assms by (auto simp: derive_target_outbound_key_def split: if_splits)
  with that show thesis by (cases c; cases e; cases n; simp)
qed

lemma parse_recording_outbound:
  assumes "c \<noteq> []" "47 \<notin> set c" "e \<noteq> []" "47 \<notin> set e" "all_digits n"
  shows "parse_recording_key (PStr (slashed ''recordings'' (c, e, n) ''.wav'')) =
    Some (outbound_info (slashed ''transcripts'' (c, e, n) ''.json'') (c, e, n))"
  using assms
  by (simp add: parse_recording_key_def match_outbound_slashed root_no_slash ext_no_slash)

lemma match_inbound_slashed:
  assumes "47 \<notin> set (str ext)" "all_digits ym" "length ym = 6" "e \<noteq> []" "47 \<notin> set e"
    and "c \<noteq> []" "47 \<notin> set c"
  shows "match_inbound ext (slashed ''inbound'' (ym, e, c) ext) = Some (ym, e, c)"
    "match_outbound ''transcripts'' ext (slashed ''inbound'' (ym, e, c) ext) = None"
    "match_outbound ''recordings'' ext (slashed ''inbound'' (ym, e, c) ext) = None"
  using assms
  by (simp_all add: match_inbound_def match_outbound_def split_slashed all_digits_no_slash
      cut_ext_append root_no_slash)

lemma match_groups_no_slash:
  assumes "match_outbound base ext key = Some (c, e, n)"
  shows "47 \<notin> set c" "47 \<notin> set e"
  using match_outbound_groups [OF assms] split_on_parts by auto

lemma match_inbound_groups:
  assumes "match_inbound ext key = Some (ym, e, c)"
  shows "all_digits ym" "length ym = 6" "e \<noteq> []" "47 \<notin> set e" "c \<noteq> []" "47 \<notin> set c"
proof -
  obtain f where f: "split_on 47 key = [str ''inbound'', ym, e, f]" "cut_ext ext f = Some c"
    and "all_digits ym" "length ym = 6" "e \<noteq> []" "c \<noteq> []"
    using assms by (auto simp: match_inbound_def split: list.splits option.splits if_splits)
  then show "all_digits ym" "length ym = 6" "e \<noteq> []" "c \<noteq> []" by simp_all
  show "47 \<notin> set e" using f(1) split_on_parts [of e 47 key] by simp
  have "47 \<notin> set f" using f(1) split_on_parts [of f 47 key] by simp
  moreover have "set c \<subseteq> set f"
    using f(2) by (auto simp: cut_ext_def Let_def dest: in_set_takeD split: if_splits)
  ultimately show "47 \<notin> set c" by auto
qed

lemma expiry_parse_iso_z_seconds:
  assumes "valid_us t"
  shows "expiry_parse_iso (iso_z_seconds t) = Inr \<lparr>wall_us = t - t mod 1000000, utc_off = Some 0\<rparr>"
  using fromisoformat_seconds [OF assms]
  by (simp add: expiry_parse_iso_def replace_z_iso_z_seconds offset_literal)

section \<open>Properties\<close>

text \<open>
  Recording keys round-trip: the key derived for a cycle, an employee and a sequence
  number parses back to exactly these, and two derivations give the same key only for the same
  cycle, employee and number.
\<close>

theorem recording_key_roundtrip:
  assumes "derive_target_outbound_key c e n = Inr k"
  shows "(\<exists>info. parse_recording_key (PStr k) = Some info \<and> ki_kind info = Outbound \<and>
      PStr (ki_cycle_id_or_inbound_prefix info) = c \<and> PStr (ki_employee_id info) = e \<and>
      ki_seq_or_contact info = int_str (int_val n) \<and> PStr (ki_meta_pk info) = c) \<and>
    (derive_target_outbound_key c' e' n' = Inr k \<longrightarrow> c' = c \<and> e' = e \<and> n' = n)"
proof -
  obtain x y i where v: "c = PStr x" "e = PStr y" "n = PInt i" "x \<noteq> []" "47 \<notin> set x" "y \<noteq> []"
    "47 \<notin> set y" "0 \<le> i" using assms by (rule derive_target_returns)
  have k: "k = slashed ''recordings'' (x, y, nat_str (nat i)) ''.wav''"
    using assms v by (simp add: derive_target_value)
  have parse: "parse_recording_key (PStr k) =
      Some (outbound_info (slashed ''transcripts'' (x, y, nat_str (nat i)) ''.json'') (x, y, nat_str (nat i)))"
    unfolding k using v all_digits_nat_str by (rule_tac parse_recording_outbound) auto
  moreover have "c' = c \<and> e' = e \<and> n' = n" if d: "derive_target_outbound_key c' e' n' = Inr k"
  proof -
    obtain x' y' i' where v': "c' = PStr x'" "e' = PStr y'" "n' = PInt i'" "x' \<noteq> []" "47 \<notin> set x'"
      "y' \<noteq> []" "47 \<notin> set y'" "0 \<le> i'" using d by (rule derive_target_returns)
    then have "k = slashed ''recordings'' (x', y', nat_str (nat i')) ''.wav''"
      using d by (simp add: derive_target_value)
    then have "parse_recording_key (PStr k) =
      Some (outbound_info (slashed ''transcripts'' (x', y', nat_str (nat i')) ''.json'') (x', y', nat_str (nat i')))"
      using v' all_digits_nat_str by (auto intro: parse_recording_outbound)
    with parse have "x' = x" "y' = y" "nat_str (nat i') = nat_str (nat i)"
      by (simp_all add: outbound_info_def)
    moreover from this(3) have "nat i' = nat i" using py_nat_nat_str by (metis option.inject)
    ultimately show ?thesis using v v' by simp
  qed
  ultimately show ?thesis using v by (simp add: outbound_info_def int_str_def)
qed

theorem recording_key_roundtrip_witness:
  "\<exists>info. parse_recording_key (PStr (str ''recordings/c1/e1/2.wav'')) = Some info \<and>
    ki_employee_id info = str ''e1''"
proof -
  have "47 \<notin> set (str ''c1'')" "47 \<notin> set (str ''e1'')" by (simp_all add: str_def)
  then have "derive_target_outbound_key (PStr (str ''c1'')) (PStr (str ''e1'')) (PInt 2) =
      Inr (str ''recordings/c1/e1/2.wav'')"
    by (simp add: derive_target_outbound_key_def int_str_def) (simp add: str_def nat_str.simps [of 2])
  from recording_key_roundtrip [OF this, THEN conjunct1] show ?thesis by auto
qed

text \<open>
  The matcher finds the row the transcriber wrote: for every recording key that
  parses, the transcript key it names parses too, and to the same kind, employee, sequence or
  contact and the same primary key of the transcript table.
\<close>

theorem transcript_key_agrees:
  assumes "parse_recording_key key = Some info"
  shows "\<exists>info'. parse_transcript_key (PStr (ki_transcript_s3_key info)) = Some info' \<and>
    ki_kind info' = ki_kind info \<and> ki_meta_pk info' = ki_meta_pk info \<and>
    ki_meta_sk info' = ki_meta_sk info \<and> ki_employee_id info' = ki_employee_id info \<and>
    ki_seq_or_contact info' = ki_seq_or_contact info \<and>
    ki_transcript_s3_key info' = ki_transcript_s3_key info"
proof (cases "match_outbound ''recordings'' ''.wav'' (str_of key)")
  case (Some g)
  obtain c e n where g: "g = (c, e, n)" by (cases g)
  have gr: "c \<noteq> []" "e \<noteq> []" "all_digits n" "47 \<notin> set c" "47 \<notin> set e"
    using match_outbound_groups [of _ _ _ c e n] match_groups_no_slash [of _ _ _ c e n] Some g by auto
  have "info = outbound_info (slashed ''transcripts'' g ''.json'') g"
    using assms Some by (simp add: parse_recording_key_def split: if_splits)
  moreover have "parse_transcript_key (PStr (slashed ''transcripts'' g ''.json'')) =
      Some (outbound_info (slashed ''transcripts'' g ''.json'') g)"
    using gr g by (simp add: parse_transcript_key_def match_outbound_slashed root_no_slash ext_no_slash)
  ultimately show ?thesis using g by (simp add: outbound_info_def)
next
  case None
  then obtain g where i: "match_inbound ''.wav'' (str_of key) = Some g"
    and info: "info = inbound_info (slashed ''inbound'' g ''.json'') g"
    using assms by (auto simp: parse_recording_key_def split: if_splits)
  obtain ym e c where g: "g = (ym, e, c)" by (cases g)
  note gr = match_inbound_groups [OF i [unfolded g]]
  have "parse_transcript_key (PStr (slashed ''inbound'' g ''.json'')) =
      Some (inbound_info (slashed ''inbound'' g ''.json'') g)"
    using match_inbound_slashed [OF ext_no_slash(2) gr] g by (simp add: parse_transcript_key_def)
  then show ?thesis using info g by (simp add: inbound_info_def)
qed

theorem transcript_key_agrees_witness:
  "\<exists>info info'. parse_recording_key (PStr (slashed ''recordings'' (str ''c1'', str ''e1'', nat_str 0) ''.wav'')) = Some info \<and>
     parse_transcript_key (PStr (ki_transcript_s3_key info)) = Some info' \<and> ki_meta_sk info' = ki_meta_sk info"
proof -
  have "47 \<notin> set (str ''c1'')" "47 \<notin> set (str ''e1'')" by (simp_all add: str_def)
  then obtain info where i: "parse_recording_key
      (PStr (slashed ''recordings'' (str ''c1'', str ''e1'', nat_str 0) ''.wav'')) = Some info"
    using parse_recording_outbound [of "str ''c1''" "str ''e1''" "nat_str 0"] all_digits_nat_str by auto
  from transcript_key_agrees [OF this] i show ?thesis by blast
qed

text \<open>
  The two functions of the age limit agree: for timestamps of the same kind, a link
  may be issued exactly when the reference time is not before the instant \<open>compute_expiry\<close>
  returns.
\<close>

theorem url_age_limit:
  assumes "expiry_parse_iso r = Inr ref" and "compute_expiry n d = Inr limit"
    and "dt_minus ref limit = Inr margin"
  shows "can_issue_url r n d = Inr (0 \<le> margin)"
proof -
  obtain now where now: "expiry_parse_iso n = Inr now" and l: "limit = now\<lparr>wall_us := wall_us now - d * us_per_day\<rparr>"
    using assms(2) by (auto simp: compute_expiry_def bind_res_eq_Inr Let_def split: if_splits)
  have "\<exists>age. dt_minus now ref = Inr age \<and> (age \<le> d * us_per_day \<longleftrightarrow> 0 \<le> margin)"
    using assms(3) l by (auto simp: dt_minus_def split: option.splits)
  then show ?thesis using assms(1) now by (auto simp: can_issue_url_def)
qed

theorem url_age_limit_witness:
  "can_issue_url (iso_z_seconds 63000000000000000) (iso_z_seconds 63000000012000000) 90 = Inr True"
proof -
  let ?r = "63000000000000000 :: int" and ?n = "63000000012000000 :: int"
  let ?l = "\<lparr>wall_us = ?n - 90 * us_per_day, utc_off = Some 0\<rparr>"
  have v: "valid_us ?r" "valid_us ?n" "valid_us (?n - 90 * us_per_day)"
    by (simp_all add: valid_us_def max_us_def max_days_def us_per_day_def days_before_year_def)
  have "compute_expiry (iso_z_seconds ?n) 90 = Inr ?l"
    using v(3) by (simp add: compute_expiry_def expiry_parse_iso_z_seconds [OF v(2)] Let_def)
  from url_age_limit [OF expiry_parse_iso_z_seconds [OF v(1)] this] show ?thesis
    by (simp add: dt_minus_def us_per_day_def)
qed

end
