(* ===== verification/Validation.thy ===== *)
theory Validation
  imports Py_Text
begin

text \<open>
  The input predicates: \<open>backend/shared/validation/range_enum.py\<close>, and of
  \<open>backend/shared/employee/\<close> the modules \<open>visibility.py\<close>, \<open>duplicate.py\<close> and \<open>validate.py\<close>.
\<close>

section \<open>Ranges and enumerations\<close>

definition retry_count_low :: int where
  "retry_count_low = 0"

definition retry_count_high :: int where
  "retry_count_high = 5"

definition retry_interval_low :: int where
  "retry_interval_low = 1"

definition retry_interval_high :: int where
  "retry_interval_high = 60"

definition env_values :: "string list" where
  "env_values = [''dev'', ''stg'', ''prod'']"

definition mode_values :: "string list" where
  "mode_values = [''ALL'', ''UNREACHABLE_ONLY'']"

definition voice_status_values :: "string list" where
  "voice_status_values = [''PENDING'', ''SAFE'', ''INJURED'', ''UNAVAILABLE'', ''OTHER'']"

definition in_range :: "pyval \<Rightarrow> int \<Rightarrow> int \<Rightarrow> bool" where
  "in_range value low high = (case value of
     PInt i \<Rightarrow> if low > high then False else low \<le> i \<and> i \<le> high
   | _ \<Rightarrow> False)"

definition in_enum :: "pyval \<Rightarrow> string list \<Rightarrow> bool" where
  "in_enum value valid =
     (if \<not> is_str value then False
      else if valid = [] then False
      else is_one_of value valid)"

section \<open>Visibility and duplicates\<close>

definition is_visible :: "pyval \<Rightarrow> bool" where
  "is_visible employee = (case employee of
     PDict e \<Rightarrow>
       (if dget e ''deleted'' = PBool True then False
        else if \<not> nonempty_str (dget e ''phoneNumber'') then False
        else True)
   | _ \<Rightarrow> False)"

fun phone_in :: "pyval list \<Rightarrow> pyval \<Rightarrow> bool" where
  "phone_in [] new_phone = False"
| "phone_in (phone # phones) new_phone =
     (if is_str phone \<and> phone = new_phone then True else phone_in phones new_phone)"

definition find_duplicate_phone :: "pyval list \<Rightarrow> pyval \<Rightarrow> bool" where
  "find_duplicate_phone existing_phones new_phone =
     (if \<not> nonempty_str new_phone then False else phone_in existing_phones new_phone)"

section \<open>Phone numbers, names and addresses\<close>

text \<open>
  \<open>re.match\<close> with a pattern that ends in \<open>$\<close>: \<open>$\<close> matches at the end and also before a newline
  that ends the string. \<open>digits_then_end s\<close> is the length of the run of digits \<open>s\<close> starts with
  when only that may follow.
\<close>

definition digits_then_end :: "pystr \<Rightarrow> nat option" where
  "digits_then_end s =
     (if dropWhile is_digit s = [] \<or> dropWhile is_digit s = [10]
      then Some (length (takeWhile is_digit s)) else None)"

definition match_e164 :: "pystr \<Rightarrow> bool" where
  "match_e164 s = (case s of
     c # t \<Rightarrow> c = 43 \<and> (case digits_then_end t of None \<Rightarrow> False | Some n \<Rightarrow> 1 \<le> n \<and> n \<le> 15)
   | [] \<Rightarrow> False)"

definition match_domestic :: "pystr \<Rightarrow> bool" where
  "match_domestic s = (case s of
     c # t \<Rightarrow> c = 48 \<and> (case digits_then_end t of None \<Rightarrow> False | Some n \<Rightarrow> 9 \<le> n \<and> n \<le> 10)
   | [] \<Rightarrow> False)"

text \<open>The character class \<open>[^\s@]\<close>, and a domain with a dot that has characters on both sides.\<close>

definition addr_char :: "nat \<Rightarrow> bool" where
  "addr_char c \<longleftrightarrow> \<not> is_space c \<and> c \<noteq> 64"

definition dotted :: "pystr \<Rightarrow> bool" where
  "dotted d \<longleftrightarrow> d \<noteq> [] \<and> 46 \<in> set (butlast (tl d))"

definition match_email :: "pystr \<Rightarrow> bool" where
  "match_email s =
     (let t = (if s \<noteq> [] \<and> last s = 10 then butlast s else s);
          local_part = takeWhile addr_char t in
      local_part \<noteq> [] \<and>
      (case dropWhile addr_char t of
         c # domain \<Rightarrow> c = 64 \<and> list_all addr_char domain \<and> dotted domain
       | [] \<Rightarrow> False))"

definition max_name_length :: nat where
  "max_name_length = 100"

definition is_valid_e164 :: "pyval \<Rightarrow> bool" where
  "is_valid_e164 phone = (if \<not> is_str phone then False else match_e164 (str_of phone))"

definition is_valid_domestic_jp :: "pyval \<Rightarrow> bool" where
  "is_valid_domestic_jp phone = (if \<not> is_str phone then False else match_domestic (str_of phone))"

definition domestic_to_e164 :: "pystr \<Rightarrow> pystr" where
  "domestic_to_e164 phone = (if match_domestic phone then str ''+81'' @ tl phone else phone)"

definition is_valid_name :: "pyval \<Rightarrow> bool" where
  "is_valid_name name =
     (if \<not> is_str name then False
      else let stripped = py_strip (str_of name) in
        0 < length stripped \<and> length stripped \<le> max_name_length)"

definition is_valid_email :: "pyval \<Rightarrow> bool" where
  "is_valid_email email = (if \<not> is_str email then False else match_email (str_of email))"

section \<open>Facts\<close>

lemma in_range_iff: "in_range v low high \<longleftrightarrow> (\<exists>i. v = PInt i \<and> low \<le> i \<and> i \<le> high)"
  by (cases v) (auto simp: in_range_def)

lemma in_enum_iff: "in_enum v valid \<longleftrightarrow> (\<exists>s\<in>set valid. v = PStr (str s))"
  by (cases v) (auto simp: in_enum_def)

lemma phone_in_iff: "phone_in phones (PStr p) \<longleftrightarrow> PStr p \<in> set phones"
  by (induction phones) auto

lemma find_duplicate_phone_iff:
  "find_duplicate_phone phones v \<longleftrightarrow> (\<exists>p. v = PStr p \<and> p \<noteq> [] \<and> PStr p \<in> set phones)"
  by (cases v) (auto simp: find_duplicate_phone_def phone_in_iff)

lemma digit_not_newline: "\<not> is_digit 10"
  by (simp add: is_digit_def digit_value_def nd_blocks_def)

lemma digits_then_end_all: "list_all is_digit t \<Longrightarrow> digits_then_end t = Some (length t)"
  by (simp add: digits_then_end_def list_all_iff takeWhile_eq_all_conv [THEN iffD2])

lemma digits_then_end_newline:
  "list_all is_digit t \<Longrightarrow> digits_then_end (t @ [10]) = digits_then_end t"
  using digit_not_newline
  by (simp add: digits_then_end_all)
    (simp add: digits_then_end_def list_all_iff takeWhile_append2)

lemma digits_then_end_Cons:
  "is_digit c \<Longrightarrow> digits_then_end (c # t) = map_option Suc (digits_then_end t)"
  by (simp add: digits_then_end_def)

lemma e164_of_domestic:
  assumes "match_domestic s"
  shows "match_e164 (domestic_to_e164 s)"
proof -
  obtain t n where t: "s = 48 # t" "digits_then_end t = Some n" "9 \<le> n" "n \<le> 10"
    using assms by (auto simp: match_domestic_def split: list.splits option.splits)
  have "is_digit 56" "is_digit 49"
    by (simp_all add: is_digit_def digit_value_def nd_blocks_def)
  then have "digits_then_end (56 # 49 # t) = Some (Suc (Suc n))"
    using t by (simp add: digits_then_end_Cons)
  moreover have "domestic_to_e164 s = 43 # 56 # 49 # t"
    using assms t(1) by (simp add: domestic_to_e164_def str_def)
  ultimately show ?thesis using t by (simp add: match_e164_def)
qed

section \<open>Properties\<close>

text \<open>
  Every domestic number the API accepts is stored as a valid E.164 number: the
  conversion of a string the domestic pattern matches is matched by the E.164 pattern, two
  domestic numbers never share their stored form, and converting the result again changes
  nothing.
\<close>

theorem domestic_conversion:
  assumes "is_valid_domestic_jp (PStr s)" and "is_valid_domestic_jp (PStr t)"
  shows "is_valid_e164 (PStr (domestic_to_e164 s)) \<and>
    (domestic_to_e164 s = domestic_to_e164 t \<longrightarrow> s = t) \<and>
    domestic_to_e164 (domestic_to_e164 s) = domestic_to_e164 s"
proof -
  have m: "match_domestic s" "match_domestic t" using assms by (simp_all add: is_valid_domestic_jp_def)
  then obtain s' t' where eq: "s = 48 # s'" "t = 48 # t'"
    by (auto simp: match_domestic_def split: list.splits)
  have conv: "match_domestic u \<Longrightarrow> domestic_to_e164 u = 43 # 56 # 49 # tl u" for u
    by (simp add: domestic_to_e164_def str_def)
  have "\<not> match_domestic (domestic_to_e164 s)"
    unfolding conv [OF m(1)] by (simp add: match_domestic_def)
  then have "domestic_to_e164 (domestic_to_e164 s) = domestic_to_e164 s"
    unfolding domestic_to_e164_def [of "domestic_to_e164 s"] by simp
  moreover have "is_valid_e164 (PStr (domestic_to_e164 s))"
    using e164_of_domestic [OF m(1)] by (simp add: is_valid_e164_def)
  moreover have "domestic_to_e164 s = domestic_to_e164 t \<longrightarrow> s = t"
    unfolding conv [OF m(1)] conv [OF m(2)] using eq by simp
  ultimately show ?thesis by simp
qed

theorem domestic_conversion_witness:
  "is_valid_e164 (PStr (domestic_to_e164 (str ''09012345678'')))"
proof -
  have "list_all is_digit (str ''9012345678'')"
    by (simp add: str_def is_digit_def digit_value_def nd_blocks_def)
  moreover have "str ''09012345678'' = 48 # str ''9012345678''" by (simp add: str_def)
  ultimately have "is_valid_domestic_jp (PStr (str ''09012345678''))"
    by (simp add: is_valid_domestic_jp_def match_domestic_def digits_then_end_all)
  then show ?thesis using domestic_conversion by blast
qed

text \<open>
  The anchors of the phone patterns do not exclude everything the format excludes:
  appending a newline to an accepted E.164 number of digits gives a string that is accepted too,
  and so is a number written in non-ASCII digits (here Arabic-Indic ones), which is not a dialable
  address.
\<close>

theorem e164_accepts_newline_and_unicode:
  assumes "1 \<le> n" "n \<le> 15"
  shows "is_valid_e164 (PStr (43 # replicate n 48 @ [10])) \<and>
     is_valid_e164 (PStr (43 # replicate n 1632))"
proof -
  have "is_digit 48" "is_digit 1632" by (simp_all add: is_digit_def digit_value_def nd_blocks_def)
  then have "list_all is_digit (replicate n 48)" "list_all is_digit (replicate n 1632)"
    by (simp_all add: list_all_iff)
  with assms show ?thesis
    by (simp add: is_valid_e164_def match_e164_def digits_then_end_newline digits_then_end_all)
qed

theorem e164_accepts_newline_and_unicode_witness:
  "is_valid_e164 (PStr (43 # replicate 11 48 @ [10])) \<and> is_valid_e164 (PStr (43 # replicate 11 1632))"
  by (rule e164_accepts_newline_and_unicode) simp_all

text \<open>
  The duplicate check is a set membership: its answer depends on the set of stored
  values only, so neither the order of the scan nor repetitions matter, a blank candidate is never
  a duplicate, and a row whose number was emptied by a deletion never blocks one.
\<close>

theorem duplicate_is_membership:
  "find_duplicate_phone phones v = (\<exists>p. v = PStr p \<and> p \<noteq> [] \<and> PStr p \<in> set phones) \<and>
   find_duplicate_phone (PStr [] # phones) v = find_duplicate_phone phones v \<and>
   find_duplicate_phone (rev phones) v = find_duplicate_phone phones v"
  by (auto simp: find_duplicate_phone_iff)

end
