(* ===== verification/Load_Targets.thy ===== *)
theory Load_Targets
  imports Ddb Validation
begin

text \<open>
  The Lambda \<open>load_targets\<close>, first task of the cycle's state machine: who is called in this cycle.
\<close>

section \<open>Input\<close>

definition load_modes :: "string list" where
  "load_modes = [''ALL'', ''UNREACHABLE_ONLY'']"

definition unreachable_voice_statuses :: "string list" where
  "unreachable_voice_statuses = [''UNREACHABLE'', ''OTHER'']"

definition load_parse_event :: "pyval \<Rightarrow> (pystr \<times> pyval \<times> pystr option) res" where
  "load_parse_event event = (case event of
     PDict ev \<Rightarrow>
       if \<not> nonempty_str (dget ev ''cycleId'') then Inl ValueError
       else bind_res (in_set (dget ev ''mode'') load_modes) (\<lambda>known.
         if \<not> known then Inl ValueError
         else if dget ev ''mode'' = PStr (str ''UNREACHABLE_ONLY'') then
           (if \<not> nonempty_str (dget ev ''referencedCycleId'') then Inl ValueError
            else Inr (str_of (dget ev ''cycleId''), dget ev ''mode'',
                      Some (str_of (dget ev ''referencedCycleId''))))
         else Inr (str_of (dget ev ''cycleId''), dget ev ''mode'', None))
   | _ \<Rightarrow> Inl ValueError)"

section \<open>Reading the tables\<close>

definition scan_all_employees :: "nat \<Rightarrow> pydict list prog" where
  "scan_all_employees fuel = pages is_none fuel (Scan EmployeeTable) PNone"

text \<open>One page of the responses; \<open>voice_status in frozenset\<close> comes last in the conjunction.\<close>

fun unreachable_ids :: "pydict list \<Rightarrow> pystr list res" where
  "unreachable_ids [] = Inr []"
| "unreachable_ids (item # items) =
     bind_res
       (if nonempty_str (dget item ''employeeId'')
        then in_set (dget item ''voiceStatus'') unreachable_voice_statuses else Inr False) (\<lambda>keep.
     bind_res (unreachable_ids items) (\<lambda>ids.
       Inr (if keep then str_of (dget item ''employeeId'') # ids else ids)))"

fun unreachable_pages :: "nat \<Rightarrow> pystr \<Rightarrow> pyval \<Rightarrow> pystr list prog" where
  "unreachable_pages 0 referenced_cycle_id last_key = raise PageLimit"
| "unreachable_pages (Suc n) referenced_cycle_id last_key =
     bindP (aws (Query ResponseTable None ''cycleId'' (PStr referenced_cycle_id) True None last_key))
       (\<lambda>resp.
     bindP (lift (unreachable_ids (page_items resp))) (\<lambda>ids.
       let next_key = dget (items_of resp) ''LastEvaluatedKey'' in
       if is_none next_key then ret ids
       else bindP (unreachable_pages n referenced_cycle_id next_key) (\<lambda>more. ret (ids @ more))))"

definition query_unreachable_response_ids :: "nat \<Rightarrow> pystr \<Rightarrow> pystr list prog" where
  "query_unreachable_response_ids fuel referenced_cycle_id =
     unreachable_pages fuel referenced_cycle_id PNone"

definition batch_get_chunk :: nat where
  "batch_get_chunk = 25"

text \<open>\<open>xs[start : start + k]\<close> for \<open>start in range(0, len(xs), k)\<close>, with \<open>k\<close> positive.\<close>

fun chunks :: "nat \<Rightarrow> 'a list \<Rightarrow> 'a list list" where
  "chunks k [] = []"
| "chunks k (x # xs) = (x # take (k - 1) xs) # chunks k (drop (k - 1) xs)"

text \<open>
  The answer holds the table's items and the keys left unprocessed under the table's name, here the
  name of the environment variable that holds it. The \<open>while request_keys\<close> loop has the fuel.
\<close>

definition batch_items :: "pyval \<Rightarrow> pydict list" where
  "batch_items resp =
     map items_of (elems_of (dget_or (items_of (dget_or (items_of resp) ''Responses'' (PDict [])))
       ''EMPLOYEE_TABLE_NAME'' (PList [])))"

definition batch_unprocessed :: "pyval \<Rightarrow> pydict list" where
  "batch_unprocessed resp =
     map items_of (elems_of (dget_or (items_of (dget_or
       (items_of (dget_or (items_of resp) ''UnprocessedKeys'' (PDict [])))
       ''EMPLOYEE_TABLE_NAME'' (PDict []))) ''Keys'' (PList [])))"

fun batch_drain :: "nat \<Rightarrow> pydict list \<Rightarrow> pydict list prog" where
  "batch_drain n [] = ret []"
| "batch_drain 0 (k # ks) = raise PageLimit"
| "batch_drain (Suc n) (k # ks) =
     bindP (aws (BatchGet EmployeeTable (k # ks))) (\<lambda>resp.
     bindP (batch_drain n (batch_unprocessed resp)) (\<lambda>more. ret (batch_items resp @ more)))"

definition employee_key :: "pystr \<Rightarrow> pydict" where
  "employee_key eid = [(str ''employeeId'', PStr eid)]"

fun batch_chunks :: "nat \<Rightarrow> pystr list list \<Rightarrow> pydict list prog" where
  "batch_chunks fuel [] = ret []"
| "batch_chunks fuel (c # cs) =
     bindP (batch_drain fuel (map employee_key c)) (\<lambda>got.
     bindP (batch_chunks fuel cs) (\<lambda>more. ret (got @ more)))"

definition batch_get_employees :: "nat \<Rightarrow> pystr list \<Rightarrow> pydict list prog" where
  "batch_get_employees fuel employee_ids = batch_chunks fuel (chunks batch_get_chunk employee_ids)"

section \<open>The handler\<close>

definition project_target :: "pydict \<Rightarrow> pydict res" where
  "project_target employee =
     bind_res (dindex employee ''employeeId'') (\<lambda>e.
     bind_res (dindex employee ''name'') (\<lambda>n.
     bind_res (dindex employee ''phoneNumber'') (\<lambda>p.
       Inr [(str ''employeeId'', e), (str ''name'', n), (str ''phoneNumber'', p)])))"

definition load_candidates :: "nat \<Rightarrow> pystr option \<Rightarrow> pydict list prog" where
  "load_candidates fuel referenced_cycle_id = (case referenced_cycle_id of
     None \<Rightarrow> scan_all_employees fuel
   | Some r \<Rightarrow>
       bindP (query_unreachable_response_ids fuel r) (\<lambda>employee_ids.
         if employee_ids = [] then raise NoTargetsError else batch_get_employees fuel employee_ids))"

definition load_answer :: "pystr \<Rightarrow> pyval \<Rightarrow> pydict list \<Rightarrow> pydict" where
  "load_answer cycle_id mode targets =
     [(str ''cycleId'', PStr cycle_id), (str ''mode'', mode),
      (str ''targetCount'', PInt (int (length targets))),
      (str ''targets'', PList (map PDict targets))]"

definition load_select :: "pystr \<Rightarrow> pyval \<Rightarrow> pydict list \<Rightarrow> pydict res" where
  "load_select cycle_id mode candidates =
     (let visible = filter (\<lambda>emp. is_visible (PDict emp)) candidates in
      if visible = [] then Inl NoTargetsError
      else bind_res (map_res project_target visible) (\<lambda>targets.
        Inr (load_answer cycle_id mode targets)))"

definition load_lambda_handler :: "nat \<Rightarrow> pyval \<Rightarrow> pydict prog" where
  "load_lambda_handler fuel event =
     bindP (lift (load_parse_event event)) (\<lambda>(cycle_id, mode, referenced_cycle_id).
     bindP (load_candidates fuel referenced_cycle_id) (\<lambda>candidates.
       lift (load_select cycle_id mode candidates)))"

section \<open>Facts\<close>

lemma concat_chunks: "concat (chunks k xs) = xs"
  by (induction k xs rule: chunks.induct) simp_all

lemma chunks_bound: "0 < k \<Longrightarrow> c \<in> set (chunks k xs) \<Longrightarrow> c \<noteq> [] \<and> length c \<le> k"
  by (induction k xs rule: chunks.induct) auto

lemma length_chunks: "0 < k \<Longrightarrow> length (chunks k xs) = (length xs + k - 1) div k"
proof (induction k xs rule: chunks.induct)
  case (2 k x xs)
  show ?case
  proof (cases "length xs < k")
    case True
    then have "drop (k - 1) xs = []" by simp
    moreover have "(length xs + k) div k = 1"
      using True 2(2) by (simp add: div_nat_eqI)
    ultimately show ?thesis by simp
  next
    case False
    then have "length (drop (k - 1) xs) + k - 1 = length xs" using 2(2) by simp
    moreover have "(length xs + k) div k = Suc (length xs div k)" using 2(2) by simp
    ultimately show ?thesis using 2 by simp
  qed
qed simp

definition target_of :: "pydict \<Rightarrow> pydict \<Rightarrow> bool" where
  "target_of t emp \<longleftrightarrow> dget t ''employeeId'' = dget emp ''employeeId'' \<and>
     dget t ''name'' = dget emp ''name'' \<and> dget t ''phoneNumber'' = dget emp ''phoneNumber''"

lemma project_target_of: "project_target emp = Inr d \<Longrightarrow> target_of d emp"
  by (auto simp: project_target_def dindex_def bind_res_eq_Inr dget_def target_of_def split: option.splits)

lemma map_res_mem:
  assumes "map_res f xs = Inr ys"
  shows "set ys = {y. \<exists>x\<in>set xs. f x = Inr y}"
  using assms by (induction xs arbitrary: ys) (auto simp: bind_res_eq_Inr)

lemma load_select_targets:
  assumes "load_select c m cands = Inr ans"
  obtains targets where "ans = load_answer c m targets" "targets \<noteq> []"
    "length targets = length (filter (\<lambda>emp. is_visible (PDict emp)) cands)"
    "\<And>t. t \<in> set targets \<Longrightarrow> \<exists>emp\<in>set cands. is_visible (PDict emp) \<and> target_of t emp"
    "\<And>emp. emp \<in> set cands \<Longrightarrow> is_visible (PDict emp) \<Longrightarrow> \<exists>t\<in>set targets. target_of t emp"
proof -
  let ?vis = "filter (\<lambda>emp. is_visible (PDict emp)) cands"
  obtain targets where t: "map_res project_target ?vis = Inr targets" and ans: "ans = load_answer c m targets"
    and ne: "?vis \<noteq> []"
    using assms by (auto simp: load_select_def Let_def bind_res_eq_Inr split: if_splits)
  have len: "length targets = length ?vis" using map_res_Inr_length [OF t] .
  have out: "\<exists>t\<in>set targets. target_of t emp" if "emp \<in> set ?vis" for emp
  proof -
    have "\<forall>x\<in>set xs. \<exists>y\<in>set ys. f x = Inr y" if "map_res f xs = Inr ys" for f :: "pydict \<Rightarrow> pydict res" and xs ys
      using that by (induction xs arbitrary: ys) (auto simp: bind_res_eq_Inr)
    from this [OF t] that obtain d where "d \<in> set targets" "project_target emp = Inr d" by blast
    then show ?thesis using project_target_of by blast
  qed
  show ?thesis
  proof (rule that [OF ans _ len])
    show "targets \<noteq> []" using len ne by (metis length_0_conv)
    show "\<exists>emp\<in>set cands. is_visible (PDict emp) \<and> target_of t emp" if "t \<in> set targets" for t
      using that map_res_mem [OF t] project_target_of by fastforce
    show "\<exists>t\<in>set targets. target_of t emp" if "emp \<in> set cands" "is_visible (PDict emp)" for emp
      using that out by simp
  qed
qed

lemma load_parse_mode:
  assumes "load_parse_event ev = Inr (c, m, r)"
  shows "r = None \<longleftrightarrow> m = PStr (str ''ALL'')"
  using assms
  by (cases ev) (auto simp: load_parse_event_def bind_res_eq_Inr in_set_Inr is_one_of_iff load_modes_def
      split: if_splits)

text \<open>A run in mode \<open>ALL\<close> on a service that answers complete scans.\<close>

lemma run_all_mode:
  assumes "dynamodb_scan W row"
    and "run W (load_lambda_handler fuel ev) s = (Inr ans, s')" and "ev = PDict d"
    and "dget d ''mode'' = PStr (str ''ALL'')"
  shows "\<exists>targets. dget ans ''targets'' = PList (map PDict targets) \<and>
    (\<forall>k emp. row s EmployeeTable k = Some emp \<and> is_visible (PDict emp) \<longrightarrow>
       (\<exists>t\<in>set targets. target_of t emp)) \<and>
    (\<forall>t\<in>set targets. \<exists>k emp. row s EmployeeTable k = Some emp \<and> is_visible (PDict emp) \<and> target_of t emp)"
proof -
  obtain c m r where p: "load_parse_event ev = Inr (c, m, r)"
    using assms(2) by (cases "load_parse_event ev") (auto simp: load_lambda_handler_def)
  have r: "r = None"
    using p load_parse_mode [OF p] assms(3,4)
    by (auto simp: load_parse_event_def bind_res_eq_Inr split: if_splits)
  obtain cands s1 where q: "run W (pages is_none fuel (Scan EmployeeTable) PNone) s = (Inr cands, s1)"
    and sel: "load_select c m cands = Inr ans"
    using assms(2) p r
    by (auto simp: load_lambda_handler_def load_candidates_def scan_all_employees_def
        elim!: run_bindP_InrE)
  have rows: "set cands = {d. \<exists>k. row s EmployeeTable k = Some d}"
    by (rule dynamodb_scan.scan_complete [OF assms(1) q])
  from load_select_targets [OF sel] obtain targets where t: "ans = load_answer c m targets"
    "\<And>t. t \<in> set targets \<Longrightarrow> \<exists>emp\<in>set cands. is_visible (PDict emp) \<and> target_of t emp"
    "\<And>emp. emp \<in> set cands \<Longrightarrow> is_visible (PDict emp) \<Longrightarrow> \<exists>t\<in>set targets. target_of t emp" by blast
  show ?thesis
    by (rule exI [of _ targets]) (use t rows in \<open>fastforce simp: load_answer_def\<close>)
qed

section \<open>Properties\<close>


definition sample_staff :: store where
  "sample_staff = \<lparr>st_rows =
     [((EmployeeTable, [PStr (str ''E'')]), [(str ''employeeId'', PStr (str ''E'')),
        (str ''name'', PStr (str ''Eve'')), (str ''phoneNumber'', PStr (str ''+81''))]),
      ((EmployeeTable, [PStr (str ''D'')]), [(str ''employeeId'', PStr (str ''D'')),
        (str ''name'', PStr (str ''Dan'')), (str ''phoneNumber'', PStr (str ''+82'')),
        (str ''deleted'', PBool True)])],
      st_clock = 0, st_log = []\<rparr>"

definition sample_load_event :: pyval where
  "sample_load_event = PDict [(str ''cycleId'', PStr (str ''C'')), (str ''mode'', PStr (str ''ALL''))]"

lemma sample_load:
  "run store_ops (load_lambda_handler 1 sample_load_event) sample_staff =
    (Inr (load_answer (str ''C'') (PStr (str ''ALL'')) [[(str ''employeeId'', PStr (str ''E'')),
        (str ''name'', PStr (str ''Eve'')), (str ''phoneNumber'', PStr (str ''+81''))]]), sample_staff)"
proof -
  have "table_rows sample_staff EmployeeTable = map snd (st_rows sample_staff)"
    by (simp add: table_rows_def sample_staff_def)
  then show ?thesis
    by (simp add: load_lambda_handler_def sample_load_event_def load_parse_event_def load_modes_def
        load_candidates_def scan_all_employees_def run_bindP store_scan load_select_def is_visible_def
        sample_staff_def project_target_def dindex_def del: pages.simps)
qed


text \<open>
  A cycle over everybody reaches everybody: on a service that answers complete scans,
  a run in mode \<open>ALL\<close> returns a target for every visible employee of the table, and only for such
  employees.
\<close>

theorem all_mode_reaches_everyone:
  assumes "dynamodb_scan W row"
    and "run W (load_lambda_handler fuel ev) s = (Inr ans, s')" and "ev = PDict d"
    and "dget d ''mode'' = PStr (str ''ALL'')"
  shows "\<exists>targets. dget ans ''targets'' = PList (map PDict targets) \<and>
    (\<forall>k emp. row s EmployeeTable k = Some emp \<and> is_visible (PDict emp) \<longrightarrow>
       (\<exists>t\<in>set targets. target_of t emp)) \<and>
    (\<forall>t\<in>set targets. \<exists>k emp. row s EmployeeTable k = Some emp \<and> is_visible (PDict emp) \<and> target_of t emp)"
  using assms by (rule run_all_mode)

theorem all_mode_reaches_everyone_witness:
  "\<exists>ans targets. fst (run store_ops (load_lambda_handler 1 sample_load_event) sample_staff) = Inr ans \<and>
    dget ans ''targets'' = PList (map PDict targets) \<and>
    (\<exists>t\<in>set targets. dget t ''phoneNumber'' = PStr (str ''+81''))"
proof -
  let ?emp = "[(str ''employeeId'', PStr (str ''E'')),
        (str ''name'', PStr (str ''Eve'')), (str ''phoneNumber'', PStr (str ''+81''))]"
  have e: "store_row sample_staff EmployeeTable [PStr (str ''E'')] = Some ?emp"
    by (simp add: store_row_def sample_staff_def)
  have v: "is_visible (PDict ?emp)" by (simp add: is_visible_def)
  obtain targets where "dget (load_answer (str ''C'') (PStr (str ''ALL'')) [?emp]) ''targets'' =
      PList (map PDict targets)" "\<exists>t\<in>set targets. target_of t ?emp"
    using all_mode_reaches_everyone [OF store.dynamodb_scan_axioms sample_load sample_load_event_def] e v
    by fastforce
  then show ?thesis using sample_load by (auto simp: target_of_def)
qed

text \<open>
  Every employee id is asked for once, in requests of at most 25 keys: the chunks of
  \<open>batch_get_employees\<close> are non-empty, together the list in its order, and there are as few of them
  as the limit allows.
\<close>

theorem batches_within_limit:
  "concat (chunks batch_get_chunk ids) = ids \<and>
   length (chunks batch_get_chunk ids) = (length ids + 24) div 25 \<and>
   list_all (\<lambda>c. 0 < length c \<and> length c \<le> 25) (chunks batch_get_chunk ids)"
  using chunks_bound [of batch_get_chunk _ ids] length_chunks [of batch_get_chunk ids]
  by (auto simp: concat_chunks batch_get_chunk_def list_all_iff)

end
