(* ===== verification/Cycle_Api.thy ===== *)
theory Cycle_Api
  imports Dictionary Cycle_Finalizer
begin

text \<open>
  The Lambda \<open>cycle_api\<close>: starting a cycle (the guards, idempotent replay, the write of the row, the
  start of the state machine and its failure), and the reading routes.
\<close>

section \<open>Texts\<close>

text \<open>
  \<open>str(uuid.uuid4())\<close>: 32 hexadecimal digits of the random bits with the variant and version bits
  fixed, in groups of 8, 4, 4, 4 and 12.
\<close>

definition hex_digit :: "nat \<Rightarrow> nat" where
  "hex_digit d = (if d < 10 then 48 + d else 87 + d)"

definition uuid4_bits :: "nat \<Rightarrow> nat \<Rightarrow> nat" where
  "uuid4_bits i n =
     (if i = 12 then 4 else if i = 16 then 8 + n div 16 ^ 15 mod 4 else n div 16 ^ (31 - i) mod 16)"

definition uuid4_str :: "int \<Rightarrow> pystr" where
  "uuid4_str r =
     (let hex = map (\<lambda>i. hex_digit (uuid4_bits i (nat r))) [0..<32] in
      take 8 hex @ [45] @ take 4 (drop 8 hex) @ [45] @ take 4 (drop 12 hex) @ [45] @
      take 4 (drop 16 hex) @ [45] @ drop 20 hex)"

section \<open>Reading\<close>

text \<open>
  The environment of the Lambda: its audit and CORS settings, and the two defaults as \<open>int()\<close> read
  them.
\<close>

record cycle_env = api_env +
  default_retry_count :: int
  default_retry_interval :: int
  show_value :: "pyval \<Rightarrow> pystr"

definition cycle_valid_modes :: "string list" where
  "cycle_valid_modes = [''ALL'', ''UNREACHABLE_ONLY'']"

definition active_categories :: "string list" where
  "active_categories = [''SAFE'', ''INJURED'', ''UNAVAILABLE'']"

definition cycle_now_iso :: "pystr prog" where
  "cycle_now_iso = bindP now_us (\<lambda>t. ret (iso_z_seconds t))"

definition get_dict_version :: "int prog" where
  "get_dict_version =
     bindP (aws (GetItem DictTable
       [(str ''category'', PStr (str ''META'')), (str ''keyword'', PStr (str ''META''))])) (\<lambda>resp.
       case dget (items_of resp) ''Item'' of
         PNone \<Rightarrow> ret 0
       | item \<Rightarrow> lift (py_int_str (dget_or (items_of item) ''currentVersion'' (PInt 0))))"

definition query_category :: "string \<Rightarrow> pydict list prog" where
  "query_category category =
     bindP (aws (Query DictTable None ''category'' (PStr (str category)) True (Some 1) PNone))
       (\<lambda>resp. ret (page_items resp))"

definition is_active_dictionary_empty :: "bool prog" where
  "is_active_dictionary_empty =
     bindP (query_category ''SAFE'') (\<lambda>safe_items.
     bindP (query_category ''INJURED'') (\<lambda>injured_items.
     bindP (query_category ''UNAVAILABLE'') (\<lambda>unavailable_items.
       ret (is_dictionary_empty safe_items injured_items unavailable_items))))"

definition query_running_cycles :: "pydict list prog" where
  "query_running_cycles =
     bindP (aws (Query CycleTable (Some ''StatusStartedAtIndex'') ''status''
       (PStr (str ''RUNNING'')) False (Some 1) PNone)) (\<lambda>resp. ret (page_items resp))"

text \<open>\<open>headers.get("Idempotency-Key") or headers.get("idempotency-key") or ""\<close>.\<close>

definition idempotency_key_from :: "pyval \<Rightarrow> pyval res" where
  "idempotency_key_from headers = (case headers of
     PDict h \<Rightarrow>
       Inr (if truthy (dget h ''Idempotency-Key'') then dget h ''Idempotency-Key''
            else if truthy (dget h ''idempotency-key'') then dget h ''idempotency-key''
            else PStr [])
   | _ \<Rightarrow> Inl AttributeError)"

definition cycle_principal_from :: "'a cycle_env_scheme \<Rightarrow> pydict \<Rightarrow> pyval res" where
  "cycle_principal_from env event =
     bind_res (principal_of event) (\<lambda>v. Inr (PStr (py_str (show_value env) v)))"

section \<open>Starting a cycle\<close>

text \<open>The checked body: mode, retry count and retry interval.\<close>

definition check_cycle_body :: "pyval \<Rightarrow> pyval \<Rightarrow> pyval \<Rightarrow> unit res" where
  "check_cycle_body mode retry_count retry_interval =
     bind_res (in_set mode cycle_valid_modes) (\<lambda>known.
       if \<not> known then Inl ValueError
       else if \<not> is_int retry_count \<or> int_val retry_count < 0 \<or> int_val retry_count > 5
       then Inl ValueError
       else if \<not> is_int retry_interval \<or> int_val retry_interval < 1 \<or> int_val retry_interval > 60
       then Inl ValueError
       else Inr ())"

definition cycle_item :: "pystr \<Rightarrow> pyval \<Rightarrow> pyval \<Rightarrow> pyval \<Rightarrow> int \<Rightarrow> pystr \<Rightarrow> pyval \<Rightarrow> pyval \<Rightarrow> pydict" where
  "cycle_item cycle_id mode retry_count retry_interval dict_version started_at idempotency_key referenced =
     [(str ''cycleId'', PStr cycle_id), (str ''status'', PStr (str ''RUNNING'')), (str ''mode'', mode),
      (str ''retryCount'', retry_count), (str ''retryIntervalMinutes'', retry_interval),
      (str ''dictionaryVersion'', PInt dict_version), (str ''startedAt'', PStr started_at)] @
     (if truthy idempotency_key then [(str ''idempotencyKey'', idempotency_key)] else []) @
     (if nonempty_str referenced then [(str ''referencedCycleId'', referenced)] else [])"

definition sfn_input_of :: "pystr \<Rightarrow> pyval \<Rightarrow> pyval \<Rightarrow> pyval \<Rightarrow> int \<Rightarrow> pyval \<Rightarrow> pydict" where
  "sfn_input_of cycle_id mode retry_count retry_interval dict_version referenced =
     [(str ''cycleId'', PStr cycle_id), (str ''mode'', mode), (str ''retryCount'', retry_count),
      (str ''retryIntervalMinutes'', retry_interval), (str ''dictionaryVersion'', PInt dict_version),
      (str ''referencedCycleId'', if nonempty_str referenced then referenced else PNone)]"

definition audit_start_rejected ::
  "'a cycle_env_scheme \<Rightarrow> pystr list \<Rightarrow> pyval \<Rightarrow> pystr \<Rightarrow> pydict \<Rightarrow> pystr list prog" where
  "audit_start_rejected env created who target extra =
     write_audit_log env created (str ''CYCLE_START_REJECTED'') who target (str ''REJECTED'') None None
       (Some extra)"

definition replay_answer :: "'a cycle_env_scheme \<Rightarrow> pydict \<Rightarrow> http res" where
  "replay_answer env existing =
     bind_res (py_int (dget_or existing ''dictionaryVersion'' (PInt 0))) (\<lambda>v.
       Inr (response env 200 (Json (PDict
         [(str ''cycleId'', dget existing ''cycleId''), (str ''status'', dget existing ''status''),
          (str ''startedAt'', dget existing ''startedAt''), (str ''dictionaryVersion'', PInt v),
          (str ''idempotentReplay'', PBool True)]))))"

text \<open>A running cycle was found: replay it or refuse.\<close>

definition answer_running ::
  "'a cycle_env_scheme \<Rightarrow> pystr list \<Rightarrow> pyval \<Rightarrow> pydict \<Rightarrow> pyval \<Rightarrow> http prog" where
  "answer_running env created idempotency_key existing who =
     (let existing_key = py_str (show_value env) (dget_or existing ''idempotencyKey'' (PStr [])) in
      if truthy idempotency_key \<and> PStr existing_key = idempotency_key then lift (replay_answer env existing)
      else
        thenP (audit_start_rejected env created who
            (py_str (show_value env) (dget_or existing ''cycleId'' (PStr (str ''<unknown>''))))
            [(str ''reason'', PStr (str ''cycle_running'')),
             (str ''existingCycleId'', dget existing ''cycleId'')])
          (ret (response env 409 ErrorText)))"

text \<open>
  The row is written: the execution, then the mark \<open>START_FAILED\<close> and a 500, or the audit and a 201.
\<close>

definition start_execution ::
  "pystr \<Rightarrow> pyval \<Rightarrow> pyval \<Rightarrow> pyval \<Rightarrow> int \<Rightarrow> pyval \<Rightarrow> bool prog" where
  "start_execution cycle_id mode retry_count retry_interval dict_version referenced =
     catchP
       (thenP (aws (StartExecution (str ''cycle-'' @ cycle_id)
          (sfn_input_of cycle_id mode retry_count retry_interval dict_version referenced))) (ret True))
       (\<lambda>e. case e of ClientError c \<Rightarrow> ret False | _ \<Rightarrow> raise e)"

definition answer_start ::
  "'a cycle_env_scheme \<Rightarrow> pystr list \<Rightarrow> pystr \<Rightarrow> pyval \<Rightarrow> pyval \<Rightarrow> pyval \<Rightarrow> int \<Rightarrow> pystr \<Rightarrow> pyval \<Rightarrow> bool \<Rightarrow>
     http prog" where
  "answer_start env created cycle_id mode retry_count retry_interval dict_version started_at who started =
     (if \<not> started then
        thenP (aws (UpdateItem CycleTable (cycle_key cycle_id)
            [SetAttr ''status'' (PStr (str ''START_FAILED''))] NoCond))
          (ret (response env 500 ErrorText))
      else
        thenP (write_audit_log env created (str ''CYCLE_START'') who cycle_id (str ''SUCCESS'') None None
          (Some [(str ''mode'', mode), (str ''retryCount'', retry_count),
             (str ''retryIntervalMinutes'', retry_interval), (str ''dictionaryVersion'', PInt dict_version)]))
        (ret (response env 201 (Json (PDict
          [(str ''cycleId'', PStr cycle_id), (str ''status'', PStr (str ''RUNNING'')), (str ''mode'', mode),
           (str ''startedAt'', PStr started_at), (str ''dictionaryVersion'', PInt dict_version)])))))"

text \<open>The guards have passed: the row, the execution, the answer.\<close>

definition start_cycle ::
  "'a cycle_env_scheme \<Rightarrow> pystr list \<Rightarrow> pyval \<Rightarrow> pyval \<Rightarrow> pyval \<Rightarrow> pyval \<Rightarrow> pyval \<Rightarrow> pyval \<Rightarrow> http prog" where
  "start_cycle env created mode retry_count retry_interval referenced idempotency_key who =
     bindP get_dict_version (\<lambda>dict_version.
     bindP (Env Uuid4 (\<lambda>r. ret (uuid4_str r))) (\<lambda>cycle_id.
     bindP cycle_now_iso (\<lambda>started_at.
     thenP (aws (PutItem CycleTable (cycle_item cycle_id mode retry_count retry_interval dict_version
         started_at idempotency_key referenced) NoCond))
     (bindP (start_execution cycle_id mode retry_count retry_interval dict_version referenced)
       (answer_start env created cycle_id mode retry_count retry_interval dict_version started_at who)))))"

definition create_cycle ::
  "'a cycle_env_scheme \<Rightarrow> pystr list \<Rightarrow> pydict \<Rightarrow> pyval \<Rightarrow> pyval \<Rightarrow> http prog" where
  "create_cycle env created body headers who =
     (let mode = dget body ''mode'';
          retry_count = dget_or body ''retryCount'' (PInt (default_retry_count env));
          retry_interval = dget_or body ''retryIntervalMinutes'' (PInt (default_retry_interval env)) in
      bindP (lift (idempotency_key_from headers)) (\<lambda>idempotency_key.
      thenP (lift (check_cycle_body mode retry_count retry_interval))
      (bindP is_active_dictionary_empty (\<lambda>dictionary_empty.
       if dictionary_empty then
         thenP (audit_start_rejected env created who (str ''dictionary_empty'')
             [(str ''reason'', PStr (str ''dictionary_empty'')),
              (str ''categories'', PList (map (\<lambda>c. PStr (str c)) active_categories))])
           (ret (response env 400 ErrorText))
       else
         bindP query_running_cycles (\<lambda>existing_cycles.
         bindP (lift (can_start_cycle (rows_val existing_cycles))) (\<lambda>free.
         if \<not> free then answer_running env created idempotency_key (hd existing_cycles) who
         else start_cycle env created mode retry_count retry_interval (dget body ''referencedCycleId'')
           idempotency_key who))))))"

section \<open>Reading routes\<close>

definition started_at_key :: "'a cycle_env_scheme \<Rightarrow> pydict \<Rightarrow> pystr" where
  "started_at_key env it = py_str (show_value env) (dget_or it ''startedAt'' (PStr []))"

definition cycle_summary :: "pydict \<Rightarrow> pyval res" where
  "cycle_summary it =
     bind_res (py_int (dget_or it ''dictionaryVersion'' (PInt 0))) (\<lambda>v.
       Inr (PDict
         [(str ''cycleId'', dget it ''cycleId''), (str ''status'', dget it ''status''),
          (str ''mode'', dget it ''mode''), (str ''startedAt'', dget it ''startedAt''),
          (str ''completedAt'', dget it ''completedAt''), (str ''dictionaryVersion'', PInt v)]))"

definition list_cycles :: "'a cycle_env_scheme \<Rightarrow> nat \<Rightarrow> http prog" where
  "list_cycles env fuel =
     bindP (pages is_none fuel (Scan CycleTable) PNone) (\<lambda>items.
     bindP (lift (map_res cycle_summary
         (sort_by (\<lambda>a b. str_le (started_at_key env b) (started_at_key env a)) items))) (\<lambda>summary.
       ret (response env 200 (Json (PDict
         [(str ''cycles'', PList summary), (str ''total'', PInt (int (length summary)))])))))"

definition get_cycle_detail :: "'a cycle_env_scheme \<Rightarrow> pyval \<Rightarrow> http prog" where
  "get_cycle_detail env path_params =
     bindP (lift (vget_or path_params ''id'' PNone)) (\<lambda>cycle_id.
     if \<not> nonempty_str cycle_id then raise ValueError
     else bindP (get_cycle (str_of cycle_id)) (\<lambda>item.
       if item = PNone then ret (response env 404 ErrorText) else ret (response env 200 (Json item))))"

definition cycle_status_body :: "pydict \<Rightarrow> pystr \<Rightarrow> int \<Rightarrow> pyval" where
  "cycle_status_body cycle status target_count = PDict
     [(str ''cycleId'', dget cycle ''cycleId''), (str ''status'', PStr status),
      (str ''summary'', PDict
        [(str ''targetTotal'', PInt target_count), (str ''dispatched'', PInt 0),
         (str ''responded'', PInt 0), (str ''unreachable'', PInt 0),
         (str ''byStatus'', PDict
           [(str ''SAFE'', PInt 0), (str ''INJURED'', PInt 0), (str ''UNAVAILABLE'', PInt 0),
            (str ''OTHER'', PInt 0), (str ''UNREACHABLE'', PInt 0), (str ''PENDING'', PInt target_count)])]),
      (str ''items'', PList []), (str ''degraded'', PList [])]"

definition get_cycle_status :: "'a cycle_env_scheme \<Rightarrow> pyval \<Rightarrow> http prog" where
  "get_cycle_status env path_params =
     bindP (lift (vget_or path_params ''id'' PNone)) (\<lambda>cycle_id.
     if \<not> nonempty_str cycle_id then raise ValueError
     else bindP (get_cycle (str_of cycle_id)) (\<lambda>cycle.
       if cycle = PNone then ret (response env 404 ErrorText)
       else bindP (lift (py_int_str (dget_or (items_of cycle) ''targetCount'' (PInt 0)))) (\<lambda>target_count.
         ret (response env 200 (Json (cycle_status_body (items_of cycle)
           (py_str (show_value env) (dget_or (items_of cycle) ''status'' (PStr (str ''RUNNING''))))
           target_count))))))"

section \<open>Entry point\<close>

definition cycle_route ::
  "(pystr \<Rightarrow> pyval option) \<Rightarrow> 'a cycle_env_scheme \<Rightarrow> pystr list \<Rightarrow> nat \<Rightarrow> pydict \<Rightarrow> pyval \<Rightarrow> http prog" where
  "cycle_route loads env created fuel event who =
     (let path_params = or_empty (dget event ''pathParameters'');
          headers = or_empty (dget event ''headers''); raw_body = dget event ''body'' in
      if is_route event ''POST'' ''/cycles'' then
        bindP (lift (parse_body loads raw_body)) (\<lambda>body. create_cycle env created body headers who)
      else if is_route event ''GET'' ''/cycles'' then list_cycles env fuel
      else if is_route event ''GET'' ''/cycles/{id}'' then get_cycle_detail env path_params
      else if is_route event ''GET'' ''/cycles/{id}/status'' then get_cycle_status env path_params
      else ret (response env 405 ErrorText))"

definition cycle_on_error :: "'a cycle_env_scheme \<Rightarrow> pyerr \<Rightarrow> http prog" where
  "cycle_on_error env e = (if e = ValueError then ret (response env 400 ErrorText) else raise e)"

definition cycle_lambda_handler ::
  "(pystr \<Rightarrow> pyval option) \<Rightarrow> 'a cycle_env_scheme \<Rightarrow> pystr list \<Rightarrow> nat \<Rightarrow> pydict \<Rightarrow> http prog" where
  "cycle_lambda_handler loads env created fuel event =
     bindP (lift (cycle_principal_from env event)) (\<lambda>who.
       catchP (cycle_route loads env created fuel event who) (cycle_on_error env))"

section \<open>Facts\<close>

text \<open>A request that changes no row and starts no execution, and the others of a trace.\<close>

definition quiet :: "req \<Rightarrow> bool" where
  "quiet q \<longleftrightarrow> readonly q \<and> (\<forall>n i. q \<noteq> StartExecution n i)"

definition effects :: "io list \<Rightarrow> req list" where
  "effects tr = filter (\<lambda>q. \<not> quiet q) (calls tr)"

lemma effects_append [simp]: "effects (tr1 @ tr2) = effects tr1 @ effects tr2"
  by (simp add: effects_def)

lemma effects_Nil [simp]: "effects [] = []"
  by (simp add: effects_def)

lemma effects_Call [simp]:
  "effects (CallEv q a # tr) = (if quiet q then effects tr else q # effects tr)"
  by (simp add: effects_def)

lemma effects_Env [simp]: "effects (EnvEv e n # tr) = effects tr"
  by (simp add: effects_def)

lemma quiet_effects: "all_calls quiet p \<Longrightarrow> exec p tr r \<Longrightarrow> effects tr = []"
  using all_calls_exec [of p tr r quiet] by (auto simp: effects_def filter_empty_conv list_all_iff)

lemma quiet_simps [simp]:
  "quiet (GetItem t k)" "quiet (Query t i a v f n lk)" "quiet (Scan t lk)"
  "quiet (CreateLogStream g st)" "quiet (PutLogEvents g st ms d)"
  "\<not> quiet (StartExecution nm d)" "\<not> quiet (PutItem t d c)" "\<not> quiet (UpdateItem t k us c)"
  by (simp_all add: quiet_def readonly_def)

lemma quiet_audit: "all_calls quiet (write_audit_log env created ev who target outcome ts ph extra)"
  by (auto simp: write_audit_log_def audit_now_iso_def stream_name_def today_yyyymmdd_def
      ensure_log_stream_def now_epoch_ms_def Let_def split: option.splits list.splits
      intro!: all_calls_bindP all_calls_catchP)

lemma quiet_reads:
  "all_calls quiet get_dict_version" "all_calls quiet (query_category c)"
  "all_calls quiet is_active_dictionary_empty" "all_calls quiet query_running_cycles"
proof -
  show "all_calls quiet get_dict_version"
    by (auto simp: get_dict_version_def split: pyval.splits intro!: all_calls_bindP)
  show q: "all_calls quiet (query_category c)" for c by (auto simp: query_category_def)
  show "all_calls quiet is_active_dictionary_empty"
    unfolding is_active_dictionary_empty_def by (intro all_calls_bindP q) simp
  show "all_calls quiet query_running_cycles" by (auto simp: query_running_cycles_def)
qed

lemma quiet_answer_running: "all_calls quiet (answer_running env created ik existing who)"
  by (auto simp: answer_running_def audit_start_rejected_def Let_def intro: quiet_audit)

lemma answer_running_codes:
  assumes "exec (answer_running env created ik existing who) tr (Inr resp)"
  shows "status_code resp = 200 \<or> status_code resp = 409"
  using assms by (auto simp: answer_running_def replay_answer_def Let_def exec_bindP bind_res_eq_Inr
      response_def split: if_splits)

lemma check_cycle_body_Inr:
  assumes "check_cycle_body mode rc ri = Inr ()"
  shows "is_one_of mode cycle_valid_modes" "is_int rc" "0 \<le> int_val rc" "int_val rc \<le> 5"
    "is_int ri" "1 \<le> int_val ri" "int_val ri \<le> 60"
  using assms by (auto simp: check_cycle_body_def bind_res_eq_Inr in_set_Inr split: if_splits)

text \<open>What starting a cycle writes: on success the row then the execution, on failure the mark too.\<close>

lemma start_cycle_effects:
  assumes "exec (start_cycle env created mode rc ri ref ik who) tr (Inr resp)"
  obtains v cid t where
    "effects tr = [PutItem CycleTable (cycle_item cid mode rc ri v t ik ref) NoCond,
        StartExecution (str ''cycle-'' @ cid) (sfn_input_of cid mode rc ri v ref)]"
    "resp = response env 201 (Json (PDict
       [(str ''cycleId'', PStr cid), (str ''status'', PStr (str ''RUNNING'')), (str ''mode'', mode),
        (str ''startedAt'', PStr t), (str ''dictionaryVersion'', PInt v)]))"
  | v cid t where
    "effects tr = [PutItem CycleTable (cycle_item cid mode rc ri v t ik ref) NoCond,
        StartExecution (str ''cycle-'' @ cid) (sfn_input_of cid mode rc ri v ref),
        UpdateItem CycleTable (cycle_key cid) [SetAttr ''status'' (PStr (str ''START_FAILED''))] NoCond]"
    "resp = response env 500 ErrorText"
proof -
  obtain tr1 tr2 v where v: "exec get_dict_version tr1 (Inr v)" "tr = tr1 @ tr2"
    and r2: "exec (bindP (Env Uuid4 (\<lambda>r. ret (uuid4_str r))) (\<lambda>cycle_id.
     bindP cycle_now_iso (\<lambda>started_at.
     thenP (aws (PutItem CycleTable (cycle_item cycle_id mode rc ri v started_at ik ref) NoCond))
     (bindP (start_execution cycle_id mode rc ri v ref)
       (answer_start env created cycle_id mode rc ri v started_at who))))) tr2 (Inr resp)"
    using assms unfolding start_cycle_def by (subst (asm) exec_bindP) auto
  have e1: "effects tr1 = []" by (rule quiet_effects [OF quiet_reads(1) v(1)])
  have a: "exec (write_audit_log env created (str ''CYCLE_START'') who cid (str ''SUCCESS'') None None x) t' r \<Longrightarrow>
      effects t' = []" for cid x t' r by (rule quiet_effects [OF quiet_audit])
  from r2 that show ?thesis
    by (simp add: exec_simps cycle_now_iso_def start_execution_def answer_start_def v(2) e1)
      (fastforce dest: a simp: exec_simps answer_start_def v(2) e1)
qed

text \<open>The behaviours of a creation: refused before any write, or the two ends of a start.\<close>

lemma create_cycle_cases:
  assumes "exec (create_cycle env created body headers who) tr (Inr resp)"
  obtains (refused) "effects tr = []" "status_code resp \<noteq> 201" "status_code resp \<noteq> 500"
  | (started) tr1 tr2 ik where "tr = tr1 @ tr2" "effects tr1 = []"
      "check_cycle_body (dget body ''mode'')
         (dget_or body ''retryCount'' (PInt (default_retry_count env)))
         (dget_or body ''retryIntervalMinutes'' (PInt (default_retry_interval env))) = Inr ()"
      "exec (start_cycle env created (dget body ''mode'')
         (dget_or body ''retryCount'' (PInt (default_retry_count env)))
         (dget_or body ''retryIntervalMinutes'' (PInt (default_retry_interval env)))
         (dget body ''referencedCycleId'') ik who) tr2 (Inr resp)"
proof -
  let ?rc = "dget_or body ''retryCount'' (PInt (default_retry_count env))"
  let ?ri = "dget_or body ''retryIntervalMinutes'' (PInt (default_retry_interval env))"
  obtain ik where ik: "idempotency_key_from headers = Inr ik"
    using assms by (cases "idempotency_key_from headers") (auto simp: create_cycle_def Let_def)
  have ck: "check_cycle_body (dget body ''mode'') ?rc ?ri = Inr ()"
    using assms ik by (cases "check_cycle_body (dget body ''mode'') ?rc ?ri") (auto simp: create_cycle_def Let_def)
  obtain tr1 tr2 e where e: "exec is_active_dictionary_empty tr1 (Inr e)" "tr = tr1 @ tr2"
    and r2: "exec (if e then
         thenP (audit_start_rejected env created who (str ''dictionary_empty'')
             [(str ''reason'', PStr (str ''dictionary_empty'')),
              (str ''categories'', PList (map (\<lambda>c. PStr (str c)) active_categories))])
           (ret (response env 400 ErrorText))
       else bindP query_running_cycles (\<lambda>existing_cycles.
         bindP (lift (can_start_cycle (rows_val existing_cycles))) (\<lambda>free.
         if \<not> free then answer_running env created ik (hd existing_cycles) who
         else start_cycle env created (dget body ''mode'') ?rc ?ri (dget body ''referencedCycleId'') ik who)))
       tr2 (Inr resp)"
    using assms ik ck by (auto simp: create_cycle_def Let_def exec_bindP [of is_active_dictionary_empty])
  have e1: "effects tr1 = []" by (rule quiet_effects [OF quiet_reads(3) e(1)])
  show thesis
  proof (cases e)
    case True
    then have "exec (thenP (audit_start_rejected env created who (str ''dictionary_empty'')
             [(str ''reason'', PStr (str ''dictionary_empty'')),
              (str ''categories'', PList (map (\<lambda>c. PStr (str c)) active_categories))])
           (ret (response env 400 ErrorText))) tr2 (Inr resp)" using r2 by simp
    then have "effects tr2 = []" "status_code resp = 400"
      unfolding audit_start_rejected_def
      by (auto simp: exec_bindP response_def dest: quiet_effects [OF quiet_audit])
    then show ?thesis using refused e(2) e1 by simp
  next
    case False
    then obtain tr3 tr4 cs where q: "exec query_running_cycles tr3 (Inr cs)" "tr2 = tr3 @ tr4"
      and r4: "exec (bindP (lift (can_start_cycle (rows_val cs))) (\<lambda>free.
         if \<not> free then answer_running env created ik (hd cs) who
         else start_cycle env created (dget body ''mode'') ?rc ?ri (dget body ''referencedCycleId'') ik who))
         tr4 (Inr resp)"
      using r2 by (auto simp: exec_bindP [of query_running_cycles])
    have e3: "effects tr3 = []" by (rule quiet_effects [OF quiet_reads(4) q(1)])
    obtain free where f: "can_start_cycle (rows_val cs) = Inr free"
      using r4 by (cases "can_start_cycle (rows_val cs)") auto
    show ?thesis
    proof (cases free)
      case True
      then show ?thesis using r4 f e(2) q(2) e1 e3 ck by (intro started [of "tr1 @ tr3" tr4 ik]) auto
    next
      case False
      then have a: "exec (answer_running env created ik (hd cs) who) tr4 (Inr resp)" using r4 f by simp
      have "effects tr4 = []" by (rule quiet_effects [OF quiet_answer_running a])
      then show ?thesis using refused answer_running_codes [OF a] e(2) q(2) e1 e3 by auto
    qed
  qed
qed

context dynamodb begin

lemma run_quiet: "all_calls quiet p \<Longrightarrow> run W p s = (x, s') \<Longrightarrow> row s' = row s"
  by (rule run_readonly) (auto intro: all_calls_mono simp: quiet_def)

lemma start_failed_row:
  assumes run: "run W (start_cycle env created mode rc ri ref ik who) s = (Inr resp, s')"
    and code: "status_code resp = 500"
  shows "\<exists>cid d t. row s' CycleTable [PStr cid] = Some d \<and> dget d ''cycleId'' = PStr cid \<and>
    dget d ''status'' = PStr (str ''START_FAILED'') \<and>
    dget d ''startedAt'' = PStr (iso_z_seconds t) \<and> \<not> has_key d ''completedAt''"
proof -
  obtain v s1 where r1: "run W (bindP (Env Uuid4 (\<lambda>r. ret (uuid4_str r))) (\<lambda>cycle_id.
     bindP cycle_now_iso (\<lambda>started_at.
     thenP (aws (PutItem CycleTable (cycle_item cycle_id mode rc ri v started_at ik ref) NoCond))
     (bindP (start_execution cycle_id mode rc ri v ref)
       (answer_start env created cycle_id mode rc ri v started_at who))))) s1 = (Inr resp, s')"
    using run unfolding start_cycle_def by (rule run_bindP_InrE)
  obtain n s2 where n: "reading W s1 Uuid4 = (n, s2)" by force
  obtain t s3 where t: "run W cycle_now_iso s2 = (Inr (iso_z_seconds t), s3)"
    by (cases "reading W s2 ClockUs") (auto simp: cycle_now_iso_def run_bindP run_now)
  let ?cid = "uuid4_str n"
  let ?item = "cycle_item ?cid mode rc ri v (iso_z_seconds t) ik ref"
  have "run W (thenP (aws (PutItem CycleTable ?item NoCond)) (bindP (start_execution ?cid mode rc ri v ref)
       (answer_start env created ?cid mode rc ri v (iso_z_seconds t) who))) s3 = (Inr resp, s')"
    using r1 by (simp add: run_bindP [of W "Env Uuid4 f" for f] run_bindP [of W cycle_now_iso] n t)
  then obtain p s4 where p: "run W (aws (PutItem CycleTable ?item NoCond)) s3 = (Inr p, s4)"
    and r4: "run W (bindP (start_execution ?cid mode rc ri v ref)
       (answer_start env created ?cid mode rc ri v (iso_z_seconds t) who)) s4 = (Inr resp, s')"
    by (rule run_bindP_InrE)
  obtain started s5 where st: "run W (start_execution ?cid mode rc ri v ref) s4 = (Inr started, s5)"
    and r5: "run W (answer_start env created ?cid mode rc ri v (iso_z_seconds t) who started) s5 = (Inr resp, s')"
    using r4 by (rule run_bindP_InrE)
  have "\<not> started" using r5 code
    by (auto simp: answer_start_def response_def run_bindP split: if_splits prod.splits sum.splits)
  then obtain u where u: "run W (aws (UpdateItem CycleTable (cycle_key ?cid)
            [SetAttr ''status'' (PStr (str ''START_FAILED''))] NoCond)) s5 = (Inr u, s')"
    using r5 by (auto simp: answer_start_def elim!: run_bindP_InrE)
  have k: "key_of CycleTable ?item = [PStr ?cid]" "key_of CycleTable (cycle_key ?cid) = [PStr ?cid]"
    by (simp_all add: key_of_def cycle_item_def cycle_key_def)
  have "row s5 = row s4"
    by (rule run_readonly [OF _ st])
      (auto simp: start_execution_def readonly_def intro!: all_calls_catchP all_calls_bindP split: pyerr.splits)
  then have row5: "row s5 CycleTable [PStr ?cid] = Some (norm_row ?item)"
    using run_put_row [OF p] k by simp
  have "row s' CycleTable [PStr ?cid] = Some (dset (norm_row ?item) (str ''status'') (PStr (str ''START_FAILED'')))"
    using run_set_row [OF u] row5 k by simp
  moreover have "\<not> has_key (norm_row ?item) ''completedAt''" "dget (norm_row ?item) ''cycleId'' = PStr ?cid"
      "dget (norm_row ?item) ''startedAt'' = PStr (iso_z_seconds t)"
    by (simp_all add: has_key_def dget_def dfind_norm_row cycle_item_def)
  ultimately show ?thesis by fastforce
qed

end

lemma answer_running_run_codes:
  assumes "run W (answer_running env created ik existing who) s = (Inr resp, s')"
  shows "status_code resp = 200 \<or> status_code resp = 409"
  using answer_running_codes [of env created ik existing who _ resp] run_exec [of _ W s] assms
  by (metis fst_conv)

lemma create_cycle_run_500:
  assumes run: "run W (create_cycle env created body headers who) s = (Inr resp, s')"
    and code: "status_code resp = 500"
  obtains mode rc ri ref ik s0 where
    "run W (start_cycle env created mode rc ri ref ik who) s0 = (Inr resp, s')"
proof -
  obtain ik e s1 where
    r1: "run W (if e then
         thenP (audit_start_rejected env created who (str ''dictionary_empty'')
             [(str ''reason'', PStr (str ''dictionary_empty'')),
              (str ''categories'', PList (map (\<lambda>c. PStr (str c)) active_categories))])
           (ret (response env 400 ErrorText))
       else bindP query_running_cycles (\<lambda>existing_cycles.
         bindP (lift (can_start_cycle (rows_val existing_cycles))) (\<lambda>free.
         if \<not> free then answer_running env created ik (hd existing_cycles) who
         else start_cycle env created (dget body ''mode'')
           (dget_or body ''retryCount'' (PInt (default_retry_count env)))
           (dget_or body ''retryIntervalMinutes'' (PInt (default_retry_interval env)))
           (dget body ''referencedCycleId'') ik who)))
       s1 = (Inr resp, s')"
    using run unfolding create_cycle_def Let_def by (elim run_bindP_InrE)
  then have "\<not> e" using code
    by (auto simp: response_def run_bindP split: if_splits prod.splits sum.splits)
  with r1 obtain cs free s2 where r2: "run W (if \<not> free then answer_running env created ik (hd cs) who
         else start_cycle env created (dget body ''mode'')
           (dget_or body ''retryCount'' (PInt (default_retry_count env)))
           (dget_or body ''retryIntervalMinutes'' (PInt (default_retry_interval env)))
           (dget body ''referencedCycleId'') ik who) s2 = (Inr resp, s')"
    by (auto elim!: run_bindP_InrE)
  then have free using code answer_running_run_codes [of W env created ik "hd cs" who s2 resp s']
    by (auto split: if_splits)
  with r2 that show thesis by auto
qed

section \<open>Properties\<close>

text \<open>
  Property C7. A cycle is started exactly as it is answered: whatever the services answer, a 201
  comes after exactly two effects, the row with status \<open>RUNNING\<close> first and the execution
  \<open>cycle-<id>\<close> with the same parameters second, with the id of the answer, a known mode, a retry
  count in 0..5 and an interval in 1..60; a 500 comes after these two and the mark \<open>START_FAILED\<close>;
  any other answer changes no row and starts nothing.
\<close>

theorem start_effects:
  fixes env :: "'a cycle_env_scheme" and body :: pydict
  defines "mode \<equiv> dget body ''mode''" and "ref \<equiv> dget body ''referencedCycleId''"
    and "rc \<equiv> dget_or body ''retryCount'' (PInt (default_retry_count env))"
    and "ri \<equiv> dget_or body ''retryIntervalMinutes'' (PInt (default_retry_interval env))"
  assumes "exec (create_cycle env created body headers who) tr (Inr resp)"
  shows "(status_code resp \<noteq> 201 \<and> status_code resp \<noteq> 500 \<and> effects tr = []) \<or>
    (is_one_of mode cycle_valid_modes \<and> is_int rc \<and> int_val rc \<in> {0..5} \<and> is_int ri \<and> int_val ri \<in> {1..60} \<and>
     (\<exists>cid v t ik.
       take 2 (effects tr) = [PutItem CycleTable (cycle_item cid mode rc ri v t ik ref) NoCond,
         StartExecution (str ''cycle-'' @ cid) (sfn_input_of cid mode rc ri v ref)] \<and>
       (status_code resp = 201 \<and> length (effects tr) = 2 \<and>
          (\<exists>d. http_body resp = Json (PDict d) \<and> dget d ''cycleId'' = PStr cid) \<or>
        status_code resp = 500 \<and> drop 2 (effects tr) = [UpdateItem CycleTable (cycle_key cid)
          [SetAttr ''status'' (PStr (str ''START_FAILED''))] NoCond])))"
proof (cases rule: create_cycle_cases [OF assms(5)])
  case 1
  then show ?thesis by simp
next
  case (2 tr1 tr2 ik)
  have ck: "is_one_of mode cycle_valid_modes \<and> is_int rc \<and> int_val rc \<in> {0..5} \<and> is_int ri \<and> int_val ri \<in> {1..60}"
    using check_cycle_body_Inr [OF 2(3)] by (simp add: mode_def rc_def ri_def)
  have e: "effects tr = effects tr2" using 2(1,2) by simp
  have "\<exists>cid v t ik.
       take 2 (effects tr2) = [PutItem CycleTable (cycle_item cid mode rc ri v t ik ref) NoCond,
         StartExecution (str ''cycle-'' @ cid) (sfn_input_of cid mode rc ri v ref)] \<and>
       (status_code resp = 201 \<and> length (effects tr2) = 2 \<and>
          (\<exists>d. http_body resp = Json (PDict d) \<and> dget d ''cycleId'' = PStr cid) \<or>
        status_code resp = 500 \<and> drop 2 (effects tr2) = [UpdateItem CycleTable (cycle_key cid)
          [SetAttr ''status'' (PStr (str ''START_FAILED''))] NoCond])"
  proof (cases rule: start_cycle_effects [OF 2(4)])
    case (1 v cid t)
    show ?thesis
      by (rule exI [of _ cid], rule exI [of _ v], rule exI [of _ t], rule exI [of _ ik])
        (simp add: 1 response_def mode_def rc_def ri_def ref_def)
  next
    case (2 v cid t)
    show ?thesis
      by (rule exI [of _ cid], rule exI [of _ v], rule exI [of _ t], rule exI [of _ ik])
        (simp add: 2 response_def mode_def rc_def ri_def ref_def)
  qed
  with ck show ?thesis unfolding e by blast
qed

text \<open>
  Samples: a dictionary with one keyword and no cycle, and the same service when Step Functions
  refuses every execution.
\<close>

definition refuse_start :: "'s ops \<Rightarrow> 's ops" where
  "refuse_start W = W\<lparr>answer := (\<lambda>s q. case q of
     StartExecution n d \<Rightarrow> (Inl (str ''ExecutionLimitExceeded''), s) | _ \<Rightarrow> answer W s q)\<rparr>"

lemma refuse_start_answer [simp]:
  "answer (refuse_start W) s q =
     (case q of StartExecution n d \<Rightarrow> (Inl (str ''ExecutionLimitExceeded''), s) | _ \<Rightarrow> answer W s q)"
  "reading (refuse_start W) = reading W"
  by (simp_all add: refuse_start_def)

lemma refuse_start_dynamodb:
  assumes "dynamodb W row"
  shows "dynamodb (refuse_start W) row"
proof unfold_locales
  fix q t k s r
  show "write_target q = Some (t, k) \<Longrightarrow> write_row q (row s t k) = Some r \<Longrightarrow>
       (\<exists>v. fst (answer (refuse_start W) s q) = Inr v) \<and>
       row (snd (answer (refuse_start W) s q)) = (row s)(t := (row s t)(k := r))"
    using dynamodb.write_ok [OF assms, of q t k s r] by (cases q) auto
  show "write_target q = Some (t, k) \<Longrightarrow> write_row q (row s t k) = None \<Longrightarrow>
       fst (answer (refuse_start W) s q) = Inl ccfe \<and> row (snd (answer (refuse_start W) s q)) = row s"
    using dynamodb.write_fails [OF assms, of q t k s] by (cases q) auto
  show "write_target q = None \<Longrightarrow> \<not> multi_write q \<Longrightarrow>
       row (snd (answer (refuse_start W) s q)) = row s"
    using dynamodb.frame [OF assms, of q s] by (cases q) auto
qed (simp_all add: dynamodb.get_reads [OF assms] dynamodb.frame_reading [OF assms])

definition sample_start_store :: store where
  "sample_start_store = \<lparr>st_rows =
     [((DictTable, [PStr (str ''SAFE''), PStr (str ''ok'')]),
        [(str ''category'', PStr (str ''SAFE'')), (str ''keyword'', PStr (str ''ok''))])],
      st_clock = 63902822400000000, st_log = []\<rparr>"

abbreviation sample_cycle_env :: cycle_env where
  "sample_cycle_env \<equiv> \<lparr>log_group_name = Some (str ''audit''), function_name = None, cors_allowed_origin = None,
     default_retry_count = 3, default_retry_interval = 5, show_value = (\<lambda>_. [])\<rparr>"

abbreviation sample_start_body :: pydict where
  "sample_start_body \<equiv> [(str ''mode'', PStr (str ''ALL''))]"

lemma sample_dictionary:
  "run store_ops is_active_dictionary_empty sample_start_store = (Inr False, sample_start_store)"
  "run store_ops query_running_cycles sample_start_store = (Inr [], sample_start_store)"
  "run store_ops get_dict_version sample_start_store = (Inr 0, sample_start_store)"
  by (simp_all add: is_active_dictionary_empty_def query_category_def query_running_cycles_def run_bindP
      store_query_page query_rows_def table_rows_def sample_start_store_def is_dictionary_empty_def
      count_active_keywords_def get_dict_version_def run_store_get store_row_def key_of_def)

lemma sample_start_put:
  "\<exists>s'. run store_ops (aws (PutItem CycleTable (cycle_item cid mode rc ri v t ik ref) NoCond)) s = (Inr (PDict []), s')"
  by (simp add: run_store_write)

lemma sample_start_runs:
  "\<exists>resp s'. run store_ops (create_cycle sample_cycle_env [] sample_start_body (PDict []) PNone) sample_start_store =
     (Inr resp, s') \<and> status_code resp = 201"
proof -
  let ?cid = "uuid4_str 0" and ?t = "iso_z_seconds 63902822400000000"
  obtain s1 where put: "run store_ops (aws (PutItem CycleTable (cycle_item ?cid (PStr (str ''ALL'')) (PInt 3) (PInt 5) 0 ?t
      (PStr []) PNone) NoCond)) sample_start_store = (Inr (PDict []), s1)" using sample_start_put by blast
  obtain s2 where start: "run store_ops (start_execution ?cid (PStr (str ''ALL'')) (PInt 3) (PInt 5) 0 PNone) s1 = (Inr True, s2)"
    by (simp add: start_execution_def run_simps store_ops_def)
  obtain cr s3 where audit: "run store_ops (write_audit_log sample_cycle_env [] (str ''CYCLE_START'') PNone ?cid
      (str ''SUCCESS'') None None (Some [(str ''mode'', PStr (str ''ALL'')), (str ''retryCount'', PInt 3),
        (str ''retryIntervalMinutes'', PInt 5), (str ''dictionaryVersion'', PInt 0)])) s2 = (Inr cr, s3)"
    using run_store_audit [of sample_cycle_env "str ''audit''"] by fastforce
  have env: "run store_ops (Env Uuid4 k) s = run store_ops (k 0) s" for k :: "int \<Rightarrow> http prog" and s
    by (simp add: store_ops_def)
  have now: "run store_ops cycle_now_iso sample_start_store = (Inr ?t, sample_start_store)"
    by (simp add: cycle_now_iso_def run_bindP run_store_now sample_start_store_def)
  have ck: "check_cycle_body (PStr (str ''ALL'')) (PInt 3) (PInt 5) = Inr ()"
    by (simp add: check_cycle_body_def cycle_valid_modes_def)
  show ?thesis
    by (simp add: create_cycle_def Let_def idempotency_key_from_def ck run_bindP sample_dictionary
        can_start_cycle_def start_cycle_def env now put start answer_start_def audit response_def del: run.simps(3))
qed

theorem start_effects_witness:
  "\<exists>tr resp. exec (create_cycle sample_cycle_env [] sample_start_body (PDict []) PNone) tr (Inr resp) \<and>
    status_code resp = 201 \<and> length (effects tr) = 2"
proof -
  obtain resp s' where r: "run store_ops (create_cycle sample_cycle_env [] sample_start_body (PDict []) PNone)
      sample_start_store = (Inr resp, s')" "status_code resp = 201" using sample_start_runs by blast
  obtain tr where "exec (create_cycle sample_cycle_env [] sample_start_body (PDict []) PNone) tr (Inr resp)"
    using run_exec [of "create_cycle sample_cycle_env [] sample_start_body (PDict []) PNone" store_ops sample_start_store]
    unfolding r by auto
  with start_effects [OF this] r(2) show ?thesis by auto
qed

text \<open>
  A start that failed leaves a cycle without an end: when \<open>POST /cycles\<close> answers 500 on
  a service with DynamoDB's write laws, the table holds a row with status \<open>START_FAILED\<close>, its id and
  its start time, and no \<open>completedAt\<close>.
\<close>

theorem failed_start_has_no_end:
  assumes "dynamodb W row"
    and "run W (create_cycle env created body headers who) s = (Inr resp, s')"
    and "status_code resp = 500"
  shows "\<exists>cid d t. row s' CycleTable [PStr cid] = Some d \<and> dget d ''cycleId'' = PStr cid \<and>
    dget d ''status'' = PStr (str ''START_FAILED'') \<and>
    dget d ''startedAt'' = PStr (iso_z_seconds t) \<and> \<not> has_key d ''completedAt''"
  using create_cycle_run_500 [OF assms(2,3)] dynamodb.start_failed_row [OF assms(1) _ assms(3)] by metis

lemma sample_refused:
  "\<exists>resp s'. run (refuse_start store_ops) (create_cycle sample_cycle_env [] sample_start_body (PDict []) PNone)
     sample_start_store = (Inr resp, s') \<and> status_code resp = 500"
proof -
  let ?W = "refuse_start store_ops"
  have quiet: "run ?W p s = run store_ops p s" if "all_calls quiet p" for p :: "'b prog" and s
    using that by (induction p arbitrary: s) (auto simp: quiet_def split: req.splits prod.splits)
  have upd: "run ?W (aws (UpdateItem t k us c)) s = run store_ops (aws (UpdateItem t k us c)) s"
    and put: "run ?W (aws (PutItem t d c)) s = run store_ops (aws (PutItem t d c)) s" for t k us c d s
    by (simp_all add: run_aws)
  have now: "run ?W cycle_now_iso s = (Inr (iso_z_seconds (st_clock s)), s)" for s
    by (simp add: cycle_now_iso_def run_bindP run_now store_ops_def)
  have env: "run ?W (Env Uuid4 k) s = run ?W (k 0) s" for k :: "int \<Rightarrow> http prog" and s
    by (simp add: store_ops_def)
  have start: "run ?W (start_execution cid mode rc ri v ref) s = (Inr False, s)" for cid mode rc ri v ref s
    by (simp add: start_execution_def run_simps)
  have ck: "check_cycle_body (PStr (str ''ALL'')) (PInt 3) (PInt 5) = Inr ()"
    by (simp add: check_cycle_body_def cycle_valid_modes_def)
  show ?thesis
    by (simp add: create_cycle_def Let_def idempotency_key_from_def ck run_bindP quiet quiet_reads sample_dictionary
        can_start_cycle_def start_cycle_def env now put start answer_start_def upd run_store_write
        response_def del: run.simps(3))
qed

theorem failed_start_has_no_end_witness:
  "\<exists>resp s'. run (refuse_start store_ops) (create_cycle sample_cycle_env [] sample_start_body (PDict []) PNone)
      sample_start_store = (Inr resp, s') \<and>
    (\<exists>cid d. store_row s' CycleTable [PStr cid] = Some d \<and> dget d ''status'' = PStr (str ''START_FAILED'') \<and>
       \<not> has_key d ''completedAt'')"
proof -
  obtain resp s' where r: "run (refuse_start store_ops) (create_cycle sample_cycle_env [] sample_start_body (PDict []) PNone)
     sample_start_store = (Inr resp, s')" "status_code resp = 500" using sample_refused by blast
  show ?thesis
    using failed_start_has_no_end [OF refuse_start_dynamodb [OF store.dynamodb_axioms] r] r(1) by blast
qed

text \<open>
  A repeated request is answered with the cycle it started: when the body is valid, the
  dictionary is not empty and the running cycle carries the request's idempotency key, the answer is
  a 200 with that cycle's id, status and start time, and nothing is written.
\<close>

theorem replay_returns_running_cycle:
  assumes "idempotency_key_from headers = Inr (PStr k)" and "k \<noteq> []"
    and "check_cycle_body (dget body ''mode'') (dget_or body ''retryCount'' (PInt (default_retry_count env)))
       (dget_or body ''retryIntervalMinutes'' (PInt (default_retry_interval env))) = Inr ()"
    and "run W is_active_dictionary_empty s = (Inr False, s1)"
    and "run W query_running_cycles s1 = (Inr (d # ds), s2)"
    and "dget d ''status'' = PStr (str ''RUNNING'')" and "dget_or d ''idempotencyKey'' (PStr []) = PStr k"
    and "py_int (dget_or d ''dictionaryVersion'' (PInt 0)) = Inr v"
  shows "run W (create_cycle env created body headers who) s =
    (Inr (response env 200 (Json (PDict
       [(str ''cycleId'', dget d ''cycleId''), (str ''status'', PStr (str ''RUNNING'')),
        (str ''startedAt'', dget d ''startedAt''), (str ''dictionaryVersion'', PInt v),
        (str ''idempotentReplay'', PBool True)]))), s2)"
  using assms
  by (simp add: create_cycle_def Let_def run_bindP can_start_cycle_def answer_running_def py_str_def
      replay_answer_def)

definition sample_running_store :: store where
  "sample_running_store = sample_start_store\<lparr>st_rows := ((CycleTable, [PStr (str ''C'')]),
     [(str ''cycleId'', PStr (str ''C'')), (str ''status'', PStr (str ''RUNNING'')),
      (str ''idempotencyKey'', PStr (str ''k'')), (str ''dictionaryVersion'', PDec 2)]) # st_rows sample_start_store\<rparr>"

theorem replay_returns_running_cycle_witness:
  "\<exists>resp. run store_ops (create_cycle sample_cycle_env [] sample_start_body
      (PDict [(str ''idempotency-key'', PStr (str ''k''))]) PNone) sample_running_store =
    (Inr resp, sample_running_store) \<and> status_code resp = 200"
proof -
  let ?d = "[(str ''cycleId'', PStr (str ''C'')), (str ''status'', PStr (str ''RUNNING'')),
      (str ''idempotencyKey'', PStr (str ''k'')), (str ''dictionaryVersion'', PDec 2)]"
  have e: "run store_ops is_active_dictionary_empty sample_running_store = (Inr False, sample_running_store)"
      "run store_ops query_running_cycles sample_running_store = (Inr [?d], sample_running_store)"
    by (simp_all add: is_active_dictionary_empty_def query_category_def query_running_cycles_def run_bindP
      store_query_page query_rows_def table_rows_def sample_start_store_def sample_running_store_def
      is_dictionary_empty_def count_active_keywords_def)
  have v: "py_int (dget_or ?d ''dictionaryVersion'' (PInt 0)) = Inr 2"
    using py_int_of_dec [of 2] by simp
  show ?thesis
    using replay_returns_running_cycle [OF _ _ _ e(1) e(2) _ _ v, of "PDict [(str ''idempotency-key'', PStr (str ''k''))]"
        "str ''k''" sample_start_body sample_cycle_env "[]" PNone]
    by (simp add: idempotency_key_from_def check_cycle_body_def cycle_valid_modes_def response_def)
qed

end
