(* ===== verification/Inbound.thy ===== *)
theory Inbound
  imports Prelude Iso_Order
begin

text \<open>
  \<open>backend/shared/inbound/\<close>: which cycle an inbound call belongs to (\<open>cycle_selection.py\<close>) and the
  sorted, paginated list of inbound contacts (\<open>listing.py\<close>).
\<close>

section \<open>Cycle selection\<close>

definition valid_flows :: "string list" where
  "valid_flows = [''NOT_REGISTERED'', ''NO_CYCLE'', ''CYCLE_TERMINATED'', ''ACTIVE_CYCLE'']"

definition valid_cycle_statuses :: "string list" where
  "valid_cycle_statuses = [''RUNNING'', ''COMPLETED'', ''TIMEOUT'', ''START_FAILED'']"

definition terminal_cycle_statuses :: "string list" where
  "terminal_cycle_statuses = [''TIMEOUT'', ''START_FAILED'']"

definition min_eligibility_window_days :: int where
  "min_eligibility_window_days = 1"

definition max_eligibility_window_days :: int where
  "max_eligibility_window_days = 365"

definition parse_iso8601 :: "pyval \<Rightarrow> pydt res" where
  "parse_iso8601 value =
     (if \<not> nonempty_str value then Inl ValueError
      else
        let s = str_of value; candidate = (if last s = 90 then replace_z s else s) in
        case py_fromisoformat candidate of
          None \<Rightarrow> Inl ValueError
        | Some p \<Rightarrow> if utc_off p = None then Inl ValueError else Inr p)"

definition validate_cycle :: "pyval \<Rightarrow> pydict res" where
  "validate_cycle cycle = (case cycle of
     PDict c \<Rightarrow>
       if \<not> nonempty_str (dget c ''cycleId'') then Inl ValueError
       else bind_res (in_set (dget c ''status'') valid_cycle_statuses) (\<lambda>known.
         if \<not> known then Inl ValueError
         else bind_res (if is_str (dget c ''startedAt'') then parse_iso8601 (dget c ''startedAt'')
                        else Inl ValueError) (\<lambda>_.
           if is_one_of (dget c ''status'') terminal_cycle_statuses \<or>
              dget c ''status'' = PStr (str ''COMPLETED'') then
             (if \<not> nonempty_str (dget c ''completedAt'') then Inl ValueError
              else bind_res (parse_iso8601 (dget c ''completedAt'')) (\<lambda>_. Inr c))
           else Inr c))
   | _ \<Rightarrow> Inl ValueError)"

text \<open>
  \<open>timestamp + window >= now\<close>: the sum may leave the range of \<open>datetime\<close>; two aware timestamps are
  compared as instants.
\<close>

definition is_within_window :: "pyval \<Rightarrow> pydt \<Rightarrow> int \<Rightarrow> bool res" where
  "is_within_window timestamp now window =
     bind_res (parse_iso8601 timestamp) (\<lambda>p.
       if \<not> valid_us (wall_us p + window) then Inl OverflowError
       else Inr (wall_us now - the (utc_off now) \<le> wall_us p + window - the (utc_off p)))"

text \<open>\<open>max(cycles, key=...)\<close>: the first of the elements with the greatest key.\<close>

fun max_by :: "('a \<Rightarrow> 'a \<Rightarrow> bool) \<Rightarrow> 'a \<Rightarrow> 'a list \<Rightarrow> 'a" where
  "max_by lt best [] = best"
| "max_by lt best (x # xs) = max_by lt (if lt best x then x else best) xs"

definition select_latest :: "string \<Rightarrow> pydict list \<Rightarrow> pydict option" where
  "select_latest key_attr cycles = (case cycles of
     [] \<Rightarrow> None
   | c # cs \<Rightarrow>
       Some (max_by (\<lambda>a b. str_less (str_of (dget a key_attr)) (str_of (dget b key_attr))) c cs))"

fun filter_res :: "('a \<Rightarrow> bool res) \<Rightarrow> 'a list \<Rightarrow> 'a list res" where
  "filter_res p [] = Inr []"
| "filter_res p (x # xs) =
     bind_res (p x) (\<lambda>keep. bind_res (filter_res p xs) (\<lambda>ys. Inr (if keep then x # ys else ys)))"

text \<open>The comprehensions of steps 2 and 3: a status test and the window.\<close>

definition recent :: "(pyval \<Rightarrow> bool) \<Rightarrow> pydt \<Rightarrow> int \<Rightarrow> pydict list \<Rightarrow> pydict list res" where
  "recent wanted now window cycles =
     filter_res (\<lambda>c. if wanted (dget c ''status'')
       then is_within_window (dget c ''completedAt'') now window else Inr False) cycles"

definition select_flow :: "pydict list \<Rightarrow> pydt \<Rightarrow> int \<Rightarrow> (string \<times> pyval) res" where
  "select_flow cycles now window =
     (case select_latest ''startedAt'' (filter (\<lambda>c. dget c ''status'' = PStr (str ''RUNNING'')) cycles) of
        Some c \<Rightarrow> Inr (''ACTIVE_CYCLE'', dget c ''cycleId'')
      | None \<Rightarrow>
          bind_res (recent (\<lambda>st. st = PStr (str ''COMPLETED'')) now window cycles) (\<lambda>completed_recent.
          case select_latest ''completedAt'' completed_recent of
            Some c \<Rightarrow> Inr (''ACTIVE_CYCLE'', dget c ''cycleId'')
          | None \<Rightarrow>
              bind_res (recent (\<lambda>st. is_one_of st terminal_cycle_statuses) now window cycles)
                (\<lambda>terminated_recent.
              case select_latest ''completedAt'' terminated_recent of
                Some c \<Rightarrow> Inr (''CYCLE_TERMINATED'', dget c ''cycleId'')
              | None \<Rightarrow> Inr (''NO_CYCLE'', PNone))))"

definition decide_inbound_flow :: "pyval \<Rightarrow> pyval \<Rightarrow> pydt \<Rightarrow> pyval \<Rightarrow> (string \<times> pyval) res" where
  "decide_inbound_flow employee_matched cycles now eligibility_window_days =
     (if \<not> is_bool employee_matched then Inl ValueError
      else if \<not> is_list cycles then Inl ValueError
      else if utc_off now = None then Inl ValueError
      else if \<not> is_int eligibility_window_days \<or> is_bool eligibility_window_days \<or>
        int_val eligibility_window_days < min_eligibility_window_days \<or>
        int_val eligibility_window_days > max_eligibility_window_days then Inl ValueError
      else if \<not> truthy employee_matched then Inr (''NOT_REGISTERED'', PNone)
      else
        let window = int_val eligibility_window_days * us_per_day in
        bind_res (map_res validate_cycle (elems_of cycles)) (\<lambda>cs. select_flow cs now window))"

section \<open>Listing\<close>

definition inbound_page_size :: int where
  "inbound_page_size = 50"

definition received_at_sort_key :: "pydict \<Rightarrow> pystr" where
  "received_at_sort_key item = (case dget item ''receivedAt'' of PStr s \<Rightarrow> s | _ \<Rightarrow> [])"

definition sort_by_received_at_desc :: "pydict list \<Rightarrow> pydict list" where
  "sort_by_received_at_desc =
     sort_by (\<lambda>a b. str_le (received_at_sort_key b) (received_at_sort_key a))"

definition paginate :: "'a list \<Rightarrow> int \<Rightarrow> int \<Rightarrow> ('a list \<times> int option) res" where
  "paginate items page_size offset =
     (if page_size < 1 then Inl ValueError
      else if offset < 0 then Inl ValueError
      else
        let last = offset + page_size;
            page = take (nat page_size) (drop (nat offset) items) in
        Inr (page, if last < int (length items) then Some last else None))"

section \<open>Facts\<close>

lemma validate_cycle_Inr:
  assumes "validate_cycle cycle = Inr c"
  shows "cycle = PDict c" "nonempty_str (dget c ''cycleId'')" "is_one_of (dget c ''status'') valid_cycle_statuses"
    "dget c ''status'' = PStr (str ''RUNNING'') \<or> nonempty_str (dget c ''completedAt'')"
  using assms
  by (cases cycle; auto simp: validate_cycle_def bind_res_eq_Inr in_set_Inr is_one_of_iff
      valid_cycle_statuses_def terminal_cycle_statuses_def split: if_splits)+

text \<open>A terminal cycle without an end makes the whole decision raise for a registered caller.\<close>

lemma map_res_error: "x \<in> set xs \<Longrightarrow> f x = Inl e \<Longrightarrow> \<exists>e'. map_res f xs = Inl e'"
  by (induction xs) (auto simp: bind_res_eq_Inl, metis bind_res.simps(1) bind_res.simps(2) sum.exhaust)

lemma validate_unended:
  assumes "is_one_of (dget c ''status'') [''COMPLETED'', ''TIMEOUT'', ''START_FAILED'']"
    and "\<not> nonempty_str (dget c ''completedAt'')"
  shows "validate_cycle (PDict c) = Inl ValueError"
proof (cases "validate_cycle (PDict c)")
  case (Inr d)
  then show ?thesis using validate_cycle_Inr [OF Inr] assms by auto
next
  case (Inl e)
  have "hashable (dget c ''status'')" using assms(1) by (rule is_one_of_hashable)
  then show ?thesis using assms
    by (auto simp: validate_cycle_def parse_iso8601_def Let_def in_set_def bind_res_eq_Inl is_one_of_iff
        terminal_cycle_statuses_def valid_cycle_statuses_def split: option.splits)
qed

text \<open>The selection rule of the design, over ids and instants in seconds.\<close>

datatype cycle_state = Running | Completed int | Terminated bool int

record cycle_view =
  view_id :: pystr
  view_start :: int
  view_state :: cycle_state

definition second_us :: "int \<Rightarrow> int" where
  "second_us t = 1000000 * t"

fun state_attrs :: "cycle_state \<Rightarrow> pydict" where
  "state_attrs Running = [(str ''status'', PStr (str ''RUNNING''))]"
| "state_attrs (Completed t) =
     [(str ''status'', PStr (str ''COMPLETED'')), (str ''completedAt'', PStr (iso_z_seconds (second_us t)))]"
| "state_attrs (Terminated b t) =
     [(str ''status'', PStr (str (if b then ''TIMEOUT'' else ''START_FAILED''))),
      (str ''completedAt'', PStr (iso_z_seconds (second_us t)))]"

text \<open>The row the system writes for such a cycle.\<close>

definition view_row :: "cycle_view \<Rightarrow> pydict" where
  "view_row v =
     [(str ''cycleId'', PStr (view_id v)), (str ''startedAt'', PStr (iso_z_seconds (second_us (view_start v))))] @
     state_attrs (view_state v)"

fun state_end :: "cycle_state \<Rightarrow> int" where
  "state_end Running = 0"
| "state_end (Completed t) = t"
| "state_end (Terminated b t) = t"

definition view_ok :: "int \<Rightarrow> cycle_view \<Rightarrow> bool" where
  "view_ok days v \<longleftrightarrow> view_id v \<noteq> [] \<and> valid_us (second_us (view_start v)) \<and>
     valid_us (second_us (state_end (view_state v))) \<and>
     valid_us (second_us (state_end (view_state v)) + days * us_per_day)"

fun is_running where
  "is_running Running = True"
| "is_running _ = False"

fun completed_within :: "int \<Rightarrow> int \<Rightarrow> cycle_state \<Rightarrow> bool" where
  "completed_within now days (Completed t) = (now \<le> second_us t + days * us_per_day)"
| "completed_within now days _ = False"

fun terminated_within :: "int \<Rightarrow> int \<Rightarrow> cycle_state \<Rightarrow> bool" where
  "terminated_within now days (Terminated b t) = (now \<le> second_us t + days * us_per_day)"
| "terminated_within now days _ = False"

definition latest :: "(cycle_view \<Rightarrow> int) \<Rightarrow> cycle_view list \<Rightarrow> cycle_view option" where
  "latest f vs = (case vs of [] \<Rightarrow> None | v # vs' \<Rightarrow> Some (max_by (\<lambda>a b. f a < f b) v vs'))"

definition flow_spec :: "cycle_view list \<Rightarrow> int \<Rightarrow> int \<Rightarrow> string \<times> pyval" where
  "flow_spec vs now days =
     (case latest view_start (filter (\<lambda>v. is_running (view_state v)) vs) of
        Some v \<Rightarrow> (''ACTIVE_CYCLE'', PStr (view_id v))
      | None \<Rightarrow>
          (case latest (\<lambda>v. state_end (view_state v)) (filter (\<lambda>v. completed_within now days (view_state v)) vs) of
             Some v \<Rightarrow> (''ACTIVE_CYCLE'', PStr (view_id v))
           | None \<Rightarrow>
               (case latest (\<lambda>v. state_end (view_state v))
                  (filter (\<lambda>v. terminated_within now days (view_state v)) vs) of
                  Some v \<Rightarrow> (''CYCLE_TERMINATED'', PStr (view_id v))
                | None \<Rightarrow> (''NO_CYCLE'', PNone))))"

lemma max_by_map:
  assumes "\<And>a b. a \<in> insert x (set xs) \<Longrightarrow> b \<in> insert x (set xs) \<Longrightarrow> lt (f a) (f b) \<longleftrightarrow> lt' a b"
  shows "max_by lt (f x) (map f xs) = f (max_by lt' x xs)"
  using assms
proof (induction xs arbitrary: x)
  case (Cons y ys)
  have "lt (f x) (f y) \<longleftrightarrow> lt' x y" using Cons.prems by simp
  moreover have "max_by lt (f z) (map f ys) = f (max_by lt' z ys)" if "z = x \<or> z = y" for z
    using Cons.prems that by (intro Cons.IH) auto
  ultimately show ?case by auto
qed simp

lemma iso_second_order:
  assumes "valid_us (second_us a)" "valid_us (second_us b)"
  shows "str_less (iso_z_seconds (second_us a)) (iso_z_seconds (second_us b)) \<longleftrightarrow> a < b"
  using iso_z_seconds_order [OF assms(2,1)] by (auto simp: second_us_def)

lemma parse_iso_second:
  assumes "valid_us (second_us t)"
  shows "parse_iso8601 (PStr (iso_z_seconds (second_us t))) = Inr \<lparr>wall_us = second_us t, utc_off = Some 0\<rparr>"
proof -
  have "py_fromisoformat (replace_z (iso_z_seconds (second_us t))) = Some \<lparr>wall_us = second_us t, utc_off = Some 0\<rparr>"
    using fromisoformat_seconds [OF assms]
    by (simp add: replace_z_iso_z_seconds offset_literal second_us_def)
  then show ?thesis by (simp add: parse_iso8601_def iso_z_seconds_shape)
qed

lemma view_row_get:
  "dget (view_row v) ''cycleId'' = PStr (view_id v)"
  "dget (view_row v) ''startedAt'' = PStr (iso_z_seconds (second_us (view_start v)))"
  "dget (view_row v) ''status'' = PStr (str (case view_state v of Running \<Rightarrow> ''RUNNING''
     | Completed t \<Rightarrow> ''COMPLETED'' | Terminated b t \<Rightarrow> if b then ''TIMEOUT'' else ''START_FAILED''))"
  "\<not> is_running (view_state v) \<Longrightarrow>
     dget (view_row v) ''completedAt'' = PStr (iso_z_seconds (second_us (state_end (view_state v))))"
  by (cases "view_state v"; simp add: view_row_def)+

lemma validate_view: "view_ok days v \<Longrightarrow> validate_cycle (PDict (view_row v)) = Inr (view_row v)"
  using view_row_get [of v] parse_iso_second [of "view_start v"] parse_iso_second [of "state_end (view_state v)"]
  by (cases "view_state v")
    (auto simp: validate_cycle_def view_ok_def valid_cycle_statuses_def terminal_cycle_statuses_def iso_z_seconds_shape)

lemma select_latest_views:
  assumes "\<And>v. v \<in> set vs \<Longrightarrow> valid_us (second_us (f v)) \<and> dget (view_row v) k = PStr (iso_z_seconds (second_us (f v)))"
  shows "select_latest k (map view_row vs) = map_option view_row (latest f vs)"
proof (cases vs)
  case (Cons v vs')
  have "max_by (\<lambda>a b. str_less (str_of (dget a k)) (str_of (dget b k))) (view_row v) (map view_row vs') =
      view_row (max_by (\<lambda>a b. f a < f b) v vs')"
    using assms Cons by (intro max_by_map) (auto simp: iso_second_order)
  then show ?thesis by (simp add: select_latest_def latest_def Cons)
qed (simp add: select_latest_def latest_def)

lemma filter_res_views:
  assumes "\<And>v. v \<in> set vs \<Longrightarrow> p (view_row v) = Inr (q v)"
  shows "filter_res p (map view_row vs) = Inr (map view_row (filter q vs))"
  using assms by (induction vs) auto

lemma window_view:
  assumes "view_ok days v" "\<not> is_running (view_state v)" "utc_off now = Some off"
  shows "is_within_window (dget (view_row v) ''completedAt'') now (days * us_per_day) =
    Inr (wall_us now - off \<le> second_us (state_end (view_state v)) + days * us_per_day)"
  using assms parse_iso_second [of "state_end (view_state v)"]
  by (simp add: is_within_window_def view_row_get(4) view_ok_def)

lemma recent_views:
  assumes ok: "\<And>v. v \<in> set vs \<Longrightarrow> view_ok days v" and now: "utc_off now = Some off"
  shows "recent (\<lambda>st. st = PStr (str ''COMPLETED'')) now (days * us_per_day) (map view_row vs) =
      Inr (map view_row (filter (\<lambda>v. completed_within (wall_us now - off) days (view_state v)) vs))"
    "recent (\<lambda>st. is_one_of st terminal_cycle_statuses) now (days * us_per_day) (map view_row vs) =
      Inr (map view_row (filter (\<lambda>v. terminated_within (wall_us now - off) days (view_state v)) vs))"
proof -
  have w: "is_within_window (dget (view_row v) ''completedAt'') now (days * us_per_day) =
      Inr (wall_us now - off \<le> second_us (state_end (view_state v)) + days * us_per_day)"
    if "v \<in> set vs" "\<not> is_running (view_state v)" for v
    using window_view [OF ok [OF that(1)] that(2) now] .
  show "recent (\<lambda>st. st = PStr (str ''COMPLETED'')) now (days * us_per_day) (map view_row vs) =
      Inr (map view_row (filter (\<lambda>v. completed_within (wall_us now - off) days (view_state v)) vs))"
    unfolding recent_def
  proof (rule filter_res_views)
    fix v assume "v \<in> set vs"
    then show "(if dget (view_row v) ''status'' = PStr (str ''COMPLETED'')
       then is_within_window (dget (view_row v) ''completedAt'') now (days * us_per_day) else Inr False) =
       Inr (completed_within (wall_us now - off) days (view_state v))"
      using w [of v] by (cases "view_state v") (auto simp: view_row_get(3))
  qed
  show "recent (\<lambda>st. is_one_of st terminal_cycle_statuses) now (days * us_per_day) (map view_row vs) =
      Inr (map view_row (filter (\<lambda>v. terminated_within (wall_us now - off) days (view_state v)) vs))"
    unfolding recent_def
  proof (rule filter_res_views)
    fix v assume "v \<in> set vs"
    then show "(if is_one_of (dget (view_row v) ''status'') terminal_cycle_statuses
       then is_within_window (dget (view_row v) ''completedAt'') now (days * us_per_day) else Inr False) =
       Inr (terminated_within (wall_us now - off) days (view_state v))"
      using w [of v] by (cases "view_state v") (auto simp: view_row_get(3) terminal_cycle_statuses_def)
  qed
qed

lemma latest_mem: "latest f vs = Some v \<Longrightarrow> v \<in> set vs"
proof -
  have "max_by lt x xs \<in> insert x (set xs)" for lt :: "cycle_view \<Rightarrow> cycle_view \<Rightarrow> bool" and x xs
    by (induction lt x xs rule: max_by.induct) auto
  then show "latest f vs = Some v \<Longrightarrow> v \<in> set vs" by (fastforce simp: latest_def split: list.splits)
qed

lemma select_flow_views:
  assumes ok: "\<And>v. v \<in> set vs \<Longrightarrow> view_ok days v" and now: "utc_off now = Some off"
  shows "select_flow (map view_row vs) now (days * us_per_day) = Inr (flow_spec vs (wall_us now - off) days)"
proof -
  let ?run = "filter (\<lambda>v. is_running (view_state v)) vs"
  have f: "filter (\<lambda>c. dget c ''status'' = PStr (str ''RUNNING'')) (map view_row vs) = map view_row ?run"
  proof -
    have "dget (view_row v) ''status'' = PStr (str ''RUNNING'') \<longleftrightarrow> is_running (view_state v)" for v
      by (cases "view_state v") (auto simp: view_row_get(3))
    then show ?thesis by (simp add: filter_map comp_def)
  qed
  have r: "select_latest ''startedAt'' (map view_row ?run) = map_option view_row (latest view_start ?run)"
    using ok by (intro select_latest_views) (auto simp: view_row_get view_ok_def)
  have e: "select_latest ''completedAt'' (map view_row us) = map_option view_row (latest (\<lambda>v. state_end (view_state v)) us)"
    if "\<And>v. v \<in> set us \<Longrightarrow> v \<in> set vs \<and> \<not> is_running (view_state v)" for us
    using that ok by (intro select_latest_views) (auto simp: view_row_get view_ok_def)
  have c: "completed_within t d st \<Longrightarrow> \<not> is_running st" "terminated_within t d st \<Longrightarrow> \<not> is_running st" for t d st
    by (cases st; simp)+
  have ec: "select_latest ''completedAt'' (map view_row (filter (\<lambda>v. completed_within t d (view_state v)) vs)) =
      map_option view_row (latest (\<lambda>v. state_end (view_state v)) (filter (\<lambda>v. completed_within t d (view_state v)) vs))"
    for t d by (rule e) (auto dest: c)
  have et: "select_latest ''completedAt'' (map view_row (filter (\<lambda>v. terminated_within t d (view_state v)) vs)) =
      map_option view_row (latest (\<lambda>v. state_end (view_state v)) (filter (\<lambda>v. terminated_within t d (view_state v)) vs))"
    for t d by (rule e) (auto dest: c)
  show ?thesis
    by (auto simp: select_flow_def flow_spec_def f r recent_views [OF ok now] ec et view_row_get(1)
        split: option.splits)
qed

text \<open>A client that follows the offsets \<open>paginate\<close> returns.\<close>

function walk :: "'a list \<Rightarrow> int \<Rightarrow> int \<Rightarrow> 'a list list" where
  "walk items page_size offset = (case paginate items page_size offset of
     Inr (page, Some next_offset) \<Rightarrow> page # walk items page_size next_offset
   | Inr (page, None) \<Rightarrow> [page]
   | Inl _ \<Rightarrow> [])"
  by pat_completeness auto

termination
  by (relation "measure (\<lambda>(items, page_size, offset). nat (int (length items) - offset))")
    (auto simp: paginate_def Let_def split: if_splits)

declare walk.simps [simp del]

lemma walk_all:
  assumes "1 \<le> page_size" "0 \<le> offset"
  shows "concat (walk items page_size offset) = drop (nat offset) items \<and>
    list_all (\<lambda>p. int (length p) \<le> page_size) (walk items page_size offset)"
  using assms
proof (induction items page_size offset rule: walk.induct)
  case (1 items page_size offset)
  let ?page = "take (nat page_size) (drop (nat offset) items)"
  have n: "nat (offset + page_size) = nat page_size + nat offset" using 1(2,3) by (simp add: nat_add_distrib)
  show ?case
  proof (cases "offset + page_size < int (length items)")
    case True
    have p: "paginate items page_size offset = Inr (?page, Some (offset + page_size))"
      using 1(2,3) True by (simp add: paginate_def Let_def)
    have "concat (walk items page_size (offset + page_size)) = drop (nat (offset + page_size)) items \<and>
      list_all (\<lambda>p. int (length p) \<le> page_size) (walk items page_size (offset + page_size))"
      using 1(1) [OF p refl refl] 1(2,3) by simp
    then show ?thesis
      using append_take_drop_id [of "nat page_size" "drop (nat offset) items"] 1(2)
      by (subst (1 2) walk.simps) (simp add: p n)
  next
    case False
    have p: "paginate items page_size offset = Inr (?page, None)"
      using 1(2,3) False by (simp add: paginate_def Let_def)
    have "nat page_size \<ge> length (drop (nat offset) items)" using False 1(2,3) by simp
    then show ?thesis using 1(2) by (subst (1 2) walk.simps) (simp add: p)
  qed
qed

text \<open>Stability: the sort keeps the order of the rows with one key.\<close>

lemma insort_by_stable:
  assumes "\<And>a b. key a = key b \<Longrightarrow> le a b"
  shows "filter (\<lambda>x. key x = k) (insort_by le x xs) = (if key x = k then [x] else []) @ filter (\<lambda>x. key x = k) xs"
  using assms by (induction xs) auto

lemma sort_by_stable:
  assumes "\<And>a b. key a = key b \<Longrightarrow> le a b"
  shows "filter (\<lambda>x. key x = k) (sort_by le xs) = filter (\<lambda>x. key x = k) xs"
  by (induction xs) (simp_all add: sort_by_def insort_by_stable [OF assms])

section \<open>Properties\<close>

text \<open>
  Property C16. The caller's cycle is the one the design names: on rows as the system writes them
  (canonical timestamps, an end for every cycle that is not running), the code's selection by string
  comparison equals the selection by instants: the running cycle that started last, else the
  completed one within the window that ended last, else a terminated one within the window, else
  none; the window's boundary is inclusive.
\<close>

theorem inbound_flow_refines:
  assumes "\<And>v. v \<in> set vs \<Longrightarrow> view_ok days v" and "utc_off now = Some off" and "1 \<le> days" and "days \<le> 365"
  shows "decide_inbound_flow (PBool True) (PList (map (\<lambda>v. PDict (view_row v)) vs)) now (PInt days) =
    Inr (flow_spec vs (wall_us now - off) days)"
proof -
  have "map_res validate_cycle (map (\<lambda>v. PDict (view_row v)) vs) = Inr (map view_row vs)"
    using assms(1) validate_view by (induction vs) fastforce+
  then show ?thesis
    using assms select_flow_views [OF assms(1,2)]
    by (simp add: decide_inbound_flow_def min_eligibility_window_days_def max_eligibility_window_days_def Let_def)
qed

theorem inbound_flow_refines_witness:
  "decide_inbound_flow (PBool True) (PList (map (\<lambda>v. PDict (view_row v))
      [\<lparr>view_id = str ''A'', view_start = 5, view_state = Completed 9\<rparr>,
       \<lparr>view_id = str ''B'', view_start = 1, view_state = Completed 10\<rparr>,
       \<lparr>view_id = str ''C'', view_start = 2, view_state = Terminated True 11\<rparr>]))
     \<lparr>wall_us = 10000000 + 30 * us_per_day, utc_off = Some 0\<rparr> (PInt 30) = Inr (''ACTIVE_CYCLE'', PStr (str ''B''))"
  by (subst inbound_flow_refines [where off = 0])
    (auto simp: view_ok_def second_us_def valid_us_def max_us_def max_days_def us_per_day_def flow_spec_def latest_def)

text \<open>
  One cycle that failed to start silences the inbound line: a terminal cycle without
  \<open>completedAt\<close> among the cycles makes the decision raise for every registered caller, whatever the
  other cycles are, and leaves unregistered callers alone.
\<close>

theorem unended_cycle_blocks_callers:
  assumes "PDict c \<in> set cycles" and "is_one_of (dget c ''status'') [''COMPLETED'', ''TIMEOUT'', ''START_FAILED'']"
    and "\<not> has_key c ''completedAt''" and "utc_off now \<noteq> None" and "1 \<le> days" and "days \<le> 365"
  shows "(\<exists>e. decide_inbound_flow (PBool True) (PList cycles) now (PInt days) = Inl e) \<and>
    decide_inbound_flow (PBool False) (PList cycles) now (PInt days) = Inr (''NOT_REGISTERED'', PNone)"
proof -
  have "dget c ''completedAt'' = PNone" using assms(3) by (simp add: has_key_def dget_def)
  then have "validate_cycle (PDict c) = Inl ValueError" using validate_unended [OF assms(2)] by simp
  then obtain e where "map_res validate_cycle cycles = Inl e" using map_res_error [OF assms(1)] by blast
  then show ?thesis using assms(4-6)
    by (auto simp: decide_inbound_flow_def min_eligibility_window_days_def max_eligibility_window_days_def Let_def)
qed

theorem unended_cycle_blocks_callers_witness:
  "\<exists>e. decide_inbound_flow (PBool True) (PList [PDict [(str ''cycleId'', PStr (str ''C'')),
      (str ''status'', PStr (str ''START_FAILED'')), (str ''startedAt'', PStr (iso_z_seconds 0))]])
     \<lparr>wall_us = 0, utc_off = Some 0\<rparr> (PInt 30) = Inl e"
  by (rule unended_cycle_blocks_callers [THEN conjunct1]) (auto simp: has_key_def)

text \<open>
  Following the offsets returns the whole list: from offset 0 the walk ends, its pages
  put together are the list in its order, and no page is longer than the page size.
\<close>

theorem pagination_complete:
  assumes "1 \<le> page_size"
  shows "concat (walk items page_size 0) = items \<and>
    list_all (\<lambda>p. int (length p) \<le> page_size) (walk items page_size 0)"
  using walk_all [OF assms, of 0 items] by simp

theorem pagination_complete_witness:
  "concat (walk [0, 1, 2 :: nat] inbound_page_size 0) = [0, 1, 2]"
  by (rule pagination_complete [THEN conjunct1]) (simp add: inbound_page_size_def)

text \<open>
  The listing shows the newest contact first, rows without a timestamp last, and keeps the order of
  rows with one timestamp.
\<close>

theorem listing_sorted_stable:
  "sorted_wrt (\<lambda>a b. str_le (received_at_sort_key b) (received_at_sort_key a)) (sort_by_received_at_desc items) \<and>
   filter (\<lambda>x. received_at_sort_key x = k) (sort_by_received_at_desc items) =
     filter (\<lambda>x. received_at_sort_key x = k) items"
proof
  let ?le = "\<lambda>a b. str_le (received_at_sort_key b) (received_at_sort_key a)"
  have "?le a c" if "?le a b" "?le b c" for a b c by (rule str_le_trans [OF that(2) that(1)])
  then show "sorted_wrt ?le (sort_by_received_at_desc items)"
    unfolding sort_by_received_at_desc_def by (rule sorted_sort_by [OF str_le_total])
  show "filter (\<lambda>x. received_at_sort_key x = k) (sort_by_received_at_desc items) =
     filter (\<lambda>x. received_at_sort_key x = k) items"
    unfolding sort_by_received_at_desc_def by (rule sort_by_stable) simp
qed

end
