(* ===== verification/Inbound_Handler.thy ===== *)
theory Inbound_Handler
  imports Ddb Auth_Audit Validation Inbound
begin

text \<open>
  The Lambda \<open>inbound_handler\<close>, called twice per inbound contact by the Connect contact flow: \<open>identify\<close>
  classifies the caller and writes the provisional contact row, \<open>finalize\<close> completes the row and, for
  an active cycle, records the callback on the Response row.
\<close>

section \<open>Input\<close>

record inbound_env = audit_env +
  reception_window_days :: int

definition normalize_connect_event :: "pydict \<Rightarrow> pydict res" where
  "normalize_connect_event event =
     (case dget event ''Details'' of
        PDict details \<Rightarrow>
          (case dget details ''ContactData'' of
             PDict contact_data \<Rightarrow>
               (let or_empty = (\<lambda>v. if truthy v then v else PDict []);
                    attributes = or_empty (dget contact_data ''Attributes'');
                    parameters = or_empty (dget details ''Parameters'');
                    customer_endpoint = or_empty (dget contact_data ''CustomerEndpoint'') in
                bind_res (vget_or parameters ''step'' PNone) (\<lambda>step.
                bind_res (vget_or customer_endpoint ''Address'' PNone) (\<lambda>address.
                bind_res (vget_or attributes ''flow'' PNone) (\<lambda>flow.
                bind_res (vget_or attributes ''employeeId'' PNone) (\<lambda>employee_id.
                bind_res (vget_or attributes ''cycleId'' PNone) (\<lambda>cycle_id.
                  Inr [(str ''step'', step), (str ''contactId'', dget contact_data ''ContactId''),
                       (str ''callerNumber'', address), (str ''flow'', flow),
                       (str ''employeeId'', employee_id), (str ''cycleId'', cycle_id)]))))))
           | _ \<Rightarrow> Inr event)
      | _ \<Rightarrow> Inr event)"

definition parse_identify_event :: "pydict \<Rightarrow> (pystr \<times> pystr) res" where
  "parse_identify_event event =
     (if \<not> nonempty_str (dget event ''contactId'') then Inl ValueError
      else if \<not> nonempty_str (dget event ''callerNumber'') then Inl ValueError
      else if \<not> starts_with (str_of (dget event ''callerNumber'')) ''+'' then Inl ValueError
      else Inr (str_of (dget event ''contactId''), str_of (dget event ''callerNumber'')))"

text \<open>The contact, the flow and, for an active cycle, the employee and the cycle.\<close>

definition parse_finalize_event :: "pydict \<Rightarrow> (pystr \<times> pyval \<times> (pystr \<times> pystr) option) res" where
  "parse_finalize_event event =
     (if \<not> nonempty_str (dget event ''contactId'') then Inl ValueError
      else bind_res (in_set (dget event ''flow'') valid_flows) (\<lambda>known.
        if \<not> known then Inl ValueError
        else if dget event ''flow'' = PStr (str ''ACTIVE_CYCLE'') then
          (if \<not> nonempty_str (dget event ''employeeId'') then Inl ValueError
           else if \<not> nonempty_str (dget event ''cycleId'') then Inl ValueError
           else Inr (str_of (dget event ''contactId''), dget event ''flow'',
                     Some (str_of (dget event ''employeeId''), str_of (dget event ''cycleId''))))
        else Inr (str_of (dget event ''contactId''), dget event ''flow'', None)))"

section \<open>Reading\<close>

fun first_visible :: "pydict list \<Rightarrow> pydict option" where
  "first_visible [] = None"
| "first_visible (item # items) = (if is_visible (PDict item) then Some item else first_visible items)"

definition lookup_employee_by_phone :: "pystr \<Rightarrow> pydict option prog" where
  "lookup_employee_by_phone caller_number =
     bindP (aws (Query EmployeeTable (Some ''PhoneNumberIndex'') ''phoneNumber'' (PStr caller_number)
         True None PNone))
       (\<lambda>resp. ret (first_visible (page_items resp)))"

definition cycle_query_limit_per_status :: nat where
  "cycle_query_limit_per_status = 10"

definition cycle_query_statuses :: "string list" where
  "cycle_query_statuses = [''RUNNING'', ''COMPLETED'', ''TIMEOUT'', ''START_FAILED'']"

fun query_cycles_of :: "string list \<Rightarrow> pydict list prog" where
  "query_cycles_of [] = ret []"
| "query_cycles_of (status # statuses) =
     bindP (aws (Query CycleTable (Some ''StatusStartedAtIndex'') ''status'' (PStr (str status))
         False (Some cycle_query_limit_per_status) PNone)) (\<lambda>resp.
     bindP (query_cycles_of statuses) (\<lambda>more. ret (page_items resp @ more)))"

definition query_recent_cycles :: "pydict list prog" where
  "query_recent_cycles = query_cycles_of cycle_query_statuses"

section \<open>Writing\<close>

definition utc_now :: "pydt prog" where
  "utc_now = bindP now_us (\<lambda>t. ret \<lparr>wall_us = t, utc_off = Some 0\<rparr>)"

definition format_iso :: "pydt \<Rightarrow> pystr" where
  "format_iso now = iso_z_seconds (wall_us now)"

text \<open>\<open>strftime("%Y%m")\<close>; the year is written with four digits, as it is from year 1000 on.\<close>

definition format_yyyymm :: "pydt \<Rightarrow> pystr" where
  "format_yyyymm now =
     (case days_ymd (nat (wall_us now) div 1000000 div 86400) of (y, m, d) \<Rightarrow> pad 4 y @ pad 2 m)"

definition contact_key :: "pystr \<Rightarrow> pydict" where
  "contact_key contact_id = [(str ''contactId'', PStr contact_id)]"

definition inbound_item :: "pystr \<Rightarrow> pystr \<Rightarrow> pystr \<Rightarrow> string \<Rightarrow> pyval \<Rightarrow> pyval \<Rightarrow> pydict" where
  "inbound_item contact_id received_at caller_number flow employee_id cycle_id =
     [(str ''contactId'', PStr contact_id), (str ''receivedAt'', PStr received_at),
      (str ''callerNumber'', PStr caller_number),
      (str ''callerNumberMasked'', PStr (mask_phone caller_number)), (str ''flow'', PStr (str flow))] @
     (if employee_id \<noteq> PNone then [(str ''employeeId'', employee_id)] else []) @
     (if cycle_id \<noteq> PNone then [(str ''cycleId'', cycle_id)] else [])"

definition put_provisional_inbound_contact ::
  "pystr \<Rightarrow> pystr \<Rightarrow> pystr \<Rightarrow> string \<Rightarrow> pyval \<Rightarrow> pyval \<Rightarrow> unit prog" where
  "put_provisional_inbound_contact contact_id received_at caller_number flow employee_id cycle_id =
     on_codes [ccfe]
       (thenP (aws (PutItem InboundTable
            (inbound_item contact_id received_at caller_number flow employee_id cycle_id)
            (AttrNotExists ''contactId'')))
         (ret ()))
       ()"

definition set_opt :: "string \<Rightarrow> pyval option \<Rightarrow> upd list" where
  "set_opt a v = (case v of None \<Rightarrow> [] | Some x \<Rightarrow> [SetAttr a x])"

definition finalize_inbound_contact ::
  "pystr \<Rightarrow> pyval \<Rightarrow> pystr option \<Rightarrow> pystr option \<Rightarrow> pystr option \<Rightarrow> string \<Rightarrow> string option \<Rightarrow> unit prog" where
  "finalize_inbound_contact contact_id flow employee_id recording_s3_key transcript_s3_key
      call_result_code voice_status =
     thenP
       (aws (UpdateItem InboundTable (contact_key contact_id)
         (SetAttr ''callResultCode'' (PStr (str call_result_code)) #
          set_opt ''recordingS3Key'' (map_option PStr recording_s3_key) @
          set_opt ''transcriptS3Key'' (map_option PStr transcript_s3_key) @
          set_opt ''voiceStatus'' (map_option (\<lambda>v. PStr (str v)) voice_status) @
          set_opt ''employeeId'' (map_option PStr employee_id))
         (CondAnd (AttrExists ''contactId'') (AttrEq ''flow'' flow))))
       (ret ())"

definition new_response :: "pystr \<Rightarrow> pystr \<Rightarrow> pydict" where
  "new_response cycle_id employee_id =
     response_key cycle_id employee_id @
     [(str ''callAttempts'', PInt 0), (str ''callResultCodes'', PList []),
      (str ''voiceStatus'', PStr (str ''PENDING''))]"

definition append_inbound_to_response :: "pystr \<Rightarrow> pystr \<Rightarrow> unit prog" where
  "append_inbound_to_response cycle_id employee_id =
     thenP
       (on_codes [ccfe]
         (thenP (aws (PutItem ResponseTable (new_response cycle_id employee_id) (AttrNotExists ''cycleId'')))
           (ret ())) ())
       (thenP
         (aws (UpdateItem ResponseTable (response_key cycle_id employee_id)
           [ListAppend ''callResultCodes'' [PStr (str ''INBOUND'')]] NoCond))
         (ret ()))"

section \<open>The steps\<close>

text \<open>The cycles are only queried for a matched caller.\<close>

definition classify_caller :: "'a inbound_env_scheme \<Rightarrow> pydict option \<Rightarrow> pydt \<Rightarrow> (string \<times> pyval) prog" where
  "classify_caller env employee now = (case employee of
     Some _ \<Rightarrow>
       bindP query_recent_cycles (\<lambda>cycles.
         lift (decide_inbound_flow (PBool True) (PList (map PDict cycles)) now
           (PInt (reception_window_days env))))
   | None \<Rightarrow> lift (decide_inbound_flow (PBool False) (PList []) now (PInt (reception_window_days env))))"

definition identify_answer :: "string \<Rightarrow> pyval \<Rightarrow> pyval \<Rightarrow> pydict" where
  "identify_answer flow employee_id cycle_id =
     (str ''flow'', PStr (str flow)) #
     (if flow = ''ACTIVE_CYCLE'' then [(str ''employeeId'', employee_id), (str ''cycleId'', cycle_id)] else [])"

definition handle_identify :: "'a inbound_env_scheme \<Rightarrow> pystr list \<Rightarrow> pydict \<Rightarrow> pydict prog" where
  "handle_identify env created event =
     bindP (lift (parse_identify_event event)) (\<lambda>(contact_id, caller_number).
     bindP utc_now (\<lambda>now.
     bindP (lookup_employee_by_phone caller_number) (\<lambda>employee.
     bindP (lift (case employee of None \<Rightarrow> Inr PNone | Some e \<Rightarrow> dindex e ''employeeId'')) (\<lambda>employee_id.
     bindP (classify_caller env employee now) (\<lambda>(flow, cycle_id).
     thenP (put_provisional_inbound_contact contact_id (format_iso now) caller_number flow employee_id cycle_id)
     (thenP (write_audit_log env created (str ''INBOUND_CONTACT_RECEIVED'') (PStr (str ''<connect-service>''))
         contact_id (str ''SUCCESS'') None (Some caller_number)
         (Some [(str ''flow'', PStr (str flow)), (str ''employeeId'', employee_id), (str ''cycleId'', cycle_id)]))
     (if flow = ''ACTIVE_CYCLE'' \<and> (employee_id = PNone \<or> cycle_id = PNone) then raise AssertionError
      else ret (identify_answer flow employee_id cycle_id))))))))"

definition inbound_object_key :: "pystr \<Rightarrow> pystr \<Rightarrow> pystr \<Rightarrow> string \<Rightarrow> pystr" where
  "inbound_object_key yyyymm employee_id contact_id ext =
     str ''inbound/'' @ yyyymm @ [47] @ employee_id @ [47] @ contact_id @ str ext"

definition handle_finalize :: "pydict \<Rightarrow> pydict prog" where
  "handle_finalize event =
     bindP (lift (parse_finalize_event event)) (\<lambda>(contact_id, flow, active).
     bindP utc_now (\<lambda>now.
     let answer = [(str ''status'', PStr (str ''ok'')), (str ''flow'', flow), (str ''contactId'', PStr contact_id)] in
     case active of
       Some (employee_id, cycle_id) \<Rightarrow>
         thenP (append_inbound_to_response cycle_id employee_id)
         (thenP (finalize_inbound_contact contact_id flow (Some employee_id)
             (Some (inbound_object_key (format_yyyymm now) employee_id contact_id ''.wav''))
             (Some (inbound_object_key (format_yyyymm now) employee_id contact_id ''.json''))
             ''RECORDED'' (Some ''PENDING''))
         (ret (answer @ [(str ''cycleId'', PStr cycle_id), (str ''employeeId'', PStr employee_id)])))
     | None \<Rightarrow>
         thenP (finalize_inbound_contact contact_id flow None None None ''NO_RECORDING'' None)
         (ret answer)))"

definition inbound_lambda_handler :: "'a inbound_env_scheme \<Rightarrow> pystr list \<Rightarrow> pyval \<Rightarrow> pydict prog" where
  "inbound_lambda_handler env created event = (case event of
     PDict ev \<Rightarrow>
       bindP (lift (normalize_connect_event ev)) (\<lambda>flat.
         if dget flat ''step'' = PStr (str ''identify'') then handle_identify env created flat
         else if dget flat ''step'' = PStr (str ''finalize'') then handle_finalize flat
         else raise ValueError)
   | _ \<Rightarrow> raise ValueError)"

section \<open>Facts\<close>

text \<open>The requests of the two steps that can change a row.\<close>

fun identify_call :: "req \<Rightarrow> bool" where
  "identify_call (PutItem t item c) = (t = InboundTable \<and> c = AttrNotExists ''contactId'')"
| "identify_call q = readonly q"

fun finalize_call :: "req \<Rightarrow> bool" where
  "finalize_call (PutItem t item c) = (t = ResponseTable \<and> c = AttrNotExists ''cycleId'')"
| "finalize_call (UpdateItem t key us c) =
     (t = InboundTable \<or> t = ResponseTable \<and> us = [ListAppend ''callResultCodes'' [PStr (str ''INBOUND'')]])"
| "finalize_call q = readonly q"

lemma identify_simps [simp]:
  "identify_call (Query t i a v f n lk)" "identify_call (CreateLogStream g st)"
  "identify_call (PutLogEvents g st ms d)"
  by (simp_all add: readonly_def)

lemma identify_audit: "all_calls identify_call (write_audit_log env created ev who target outcome ts ph extra)"
  by (auto simp: write_audit_log_def audit_now_iso_def stream_name_def today_yyyymmdd_def
      ensure_log_stream_def now_epoch_ms_def Let_def split: option.splits list.splits
      simp del: identify_call.simps intro!: all_calls_bindP all_calls_catchP)

lemma identify_query_cycles: "all_calls identify_call (query_cycles_of sts)"
  by (induction sts) (auto simp del: identify_call.simps intro!: all_calls_bindP)

lemma identify_calls: "all_calls identify_call (handle_identify env created event)"
proof -
  have c: "all_calls identify_call (classify_caller env e now)" for e now
    by (auto simp: classify_caller_def query_recent_cycles_def split: option.split
        intro!: all_calls_bindP identify_query_cycles)
  have l: "all_calls identify_call (lookup_employee_by_phone n)" for n
    by (auto simp: lookup_employee_by_phone_def simp del: identify_call.simps intro!: all_calls_bindP)
  have p: "all_calls identify_call (put_provisional_inbound_contact a b d f e g)" for a b d f e g
    by (auto simp: put_provisional_inbound_contact_def intro!: all_calls_on_codes all_calls_bindP)
  have n: "all_calls identify_call utc_now" by (auto simp: utc_now_def intro!: all_calls_bindP)
  show ?thesis
    unfolding handle_identify_def
    by (auto intro!: all_calls_bindP c l p n identify_audit split: prod.split)
qed

lemma finalize_calls: "all_calls finalize_call (handle_finalize event)"
  by (auto simp: handle_finalize_def Let_def utc_now_def append_inbound_to_response_def
      finalize_inbound_contact_def split: prod.split option.split intro!: all_calls_bindP all_calls_on_codes)

context dynamodb begin

text \<open>While the contact's row exists, no request of the first step changes any row.\<close>

lemma identify_frame:
  assumes "identify_call q" and "\<And>t item c. q = PutItem t item c \<Longrightarrow> key_of t item = k"
    and "row s InboundTable k = Some d" "has_key d ''contactId''"
  shows "row (snd (answer W s q)) = row s"
proof (cases "\<exists>t item c. q = PutItem t item c")
  case True
  then obtain item where q: "q = PutItem InboundTable item (AttrNotExists ''contactId'')"
    using assms(1) by auto
  have "write_row q (row s InboundTable k) = None" using assms(3,4) q by simp
  then show ?thesis using write_fails [of q InboundTable k s] assms(2) q by simp
next
  case False
  then have "readonly q" using assms(1) by (cases q) auto
  then show ?thesis using frame [of q s] by (simp add: readonly_def)
qed

end

lemma all_calls_conj: "all_calls P p \<Longrightarrow> all_calls Q p \<Longrightarrow> all_calls (\<lambda>q. P q \<and> Q q) p"
  by (induction p) auto

fun puts_contact :: "pystr \<Rightarrow> req \<Rightarrow> bool" where
  "puts_contact c (PutItem t item cd) = (key_of t item = [PStr c])"
| "puts_contact c q = True"

lemma puts_contact_calls:
  assumes "dget event ''contactId'' = PStr c"
  shows "all_calls (puts_contact c) (handle_identify env created event)"
proof (cases "parse_identify_event event")
  case (Inr cn)
  obtain n where cn: "cn = (c, n)"
    using Inr assms by (auto simp: parse_identify_event_def split: if_splits)
  have a: "all_calls (puts_contact c) (write_audit_log env created ev who target outcome ts ph extra)"
    for ev who target outcome ts ph extra
    by (auto simp: write_audit_log_def audit_now_iso_def stream_name_def today_yyyymmdd_def
      ensure_log_stream_def now_epoch_ms_def Let_def split: option.splits list.splits
      intro!: all_calls_bindP all_calls_catchP)
  have q: "all_calls (puts_contact c) (query_cycles_of sts)" for sts
    by (induction sts) (auto intro!: all_calls_bindP)
  show ?thesis
    by (auto simp: handle_identify_def Inr cn utc_now_def lookup_employee_by_phone_def classify_caller_def
        query_recent_cycles_def put_provisional_inbound_contact_def key_of_def inbound_item_def
        split: prod.split option.split intro!: all_calls_bindP all_calls_on_codes a q)
qed (simp add: handle_identify_def)

text \<open>What \<open>finalize\<close> can do to a Response row: nothing, or one more entry in the list of codes.\<close>

definition same_but_codes :: "pydict \<Rightarrow> pydict option \<Rightarrow> bool" where
  "same_but_codes d r \<longleftrightarrow> (\<exists>d'. r = Some d' \<and> (\<forall>a. a \<noteq> ''callResultCodes'' \<longrightarrow> dfind d' a = dfind d a))"

context dynamodb begin

lemma finalize_keeps_response:
  assumes "finalize_call q" and "same_but_codes d (row s ResponseTable k)" and "has_key d ''cycleId''"
  shows "same_but_codes d (row (snd (answer W s q)) ResponseTable k)"
proof -
  obtain d' where d': "row s ResponseTable k = Some d'" "\<And>a. a \<noteq> ''callResultCodes'' \<Longrightarrow> dfind d' a = dfind d a"
    using assms(2) by (auto simp: same_but_codes_def)
  then have c: "has_key d' ''cycleId''" using assms(3) by (simp add: has_key_def)
  consider (put) item where "q = PutItem ResponseTable item (AttrNotExists ''cycleId'')"
    | (append) key cd where "q = UpdateItem ResponseTable key [ListAppend ''callResultCodes'' [PStr (str ''INBOUND'')]] cd"
    | (inbound) key us cd where "q = UpdateItem InboundTable key us cd"
    | (reads) "readonly q"
    using assms(1) by (cases q) auto
  then show ?thesis
  proof cases
    case put
    then have "row (snd (answer W s q)) ResponseTable k = Some d'"
      using d'(1) c by (intro keeps_row) auto
    then show ?thesis using assms(2) d'(1) by simp
  next
    case append
    let ?d2 = "apply_upds d' [ListAppend ''callResultCodes'' [PStr (str ''INBOUND'')]]"
    have t: "write_target q = Some (ResponseTable, key_of ResponseTable key)" using append by simp
    show ?thesis
    proof (cases "key_of ResponseTable key = k \<and> cond_holds cd (Some d')")
      case True
      then have "write_row q (row s ResponseTable (key_of ResponseTable key)) = Some (Some ?d2)"
        using append d'(1) by simp
      then have "row (snd (answer W s q)) ResponseTable k = Some ?d2" using write_ok [OF t] True by simp
      moreover have "dfind ?d2 a = dfind d a" if "a \<noteq> ''callResultCodes''" for a
        using that d'(2) by (auto simp: apply_upds_other)
      ultimately show ?thesis by (auto simp: same_but_codes_def)
    next
      case False
      then have "row (snd (answer W s q)) ResponseTable k = Some d'"
        using d'(1) append by (intro keeps_row) auto
      then show ?thesis using assms(2) d'(1) by simp
    qed
  next
    case inbound
    then have "row (snd (answer W s q)) ResponseTable k = Some d'" using d'(1) by (intro keeps_row) auto
    then show ?thesis using assms(2) d'(1) by simp
  next
    case reads
    then show ?thesis using frame [of q s] assms(2) by (simp add: readonly_def)
  qed
qed

lemma run_append_inbound:
  obtains s' where "run W (append_inbound_to_response c e) s = (Inr (), s')"
    "row s' = (row s)(ResponseTable := (row s ResponseTable)([PStr c, PStr e] := Some
       (apply_upd (case row s ResponseTable [PStr c, PStr e] of
            Some d \<Rightarrow> (if has_key d ''cycleId'' then d else norm_row (new_response c e))
          | None \<Rightarrow> norm_row (new_response c e)) (ListAppend ''callResultCodes'' [PStr (str ''INBOUND'')]))))"
proof -
  let ?k = "[PStr c, PStr e]"
  let ?d = "case row s ResponseTable ?k of Some d \<Rightarrow> (if has_key d ''cycleId'' then d else norm_row (new_response c e))
      | None \<Rightarrow> norm_row (new_response c e)"
  let ?q1 = "PutItem ResponseTable (new_response c e) (AttrNotExists ''cycleId'')"
  let ?q2 = "UpdateItem ResponseTable (response_key c e) [ListAppend ''callResultCodes'' [PStr (str ''INBOUND'')]] NoCond"
  have t: "write_target ?q1 = Some (ResponseTable, ?k)" "write_target ?q2 = Some (ResponseTable, ?k)"
    by (simp_all add: key_of_def new_response_def response_key_def)
  obtain s1 where r1: "run W (on_codes [ccfe] (thenP (aws ?q1) (ret ())) ()) s = (Inr (), s1)"
    and row1: "row s1 = (case write_row ?q1 (row s ResponseTable ?k) of
       None \<Rightarrow> row s | Some r \<Rightarrow> (row s)(ResponseTable := (row s ResponseTable)(?k := r)))"
    by (rule run_on_codes_write [OF t(1), of "()" "()" s]) (auto split: if_splits)
  have k1: "row s1 ResponseTable ?k = Some ?d"
    unfolding row1 by (auto split: option.splits)
  have o1: "(row s1)(ResponseTable := (row s1 ResponseTable)(?k := r)) =
      (row s)(ResponseTable := (row s ResponseTable)(?k := r))" for r
    unfolding row1 by (auto simp: fun_eq_iff split: option.splits)
  have w: "write_row ?q2 (row s1 ResponseTable ?k) =
      Some (Some (apply_upd ?d (ListAppend ''callResultCodes'' [PStr (str ''INBOUND'')])))"
    by (simp add: k1 del: apply_upd.simps)
  obtain v s2 where r2: "run W (aws ?q2) s1 = (Inr v, s2)" and row2: "row s2 =
      (row s1)(ResponseTable := (row s1 ResponseTable)(?k :=
        Some (apply_upd ?d (ListAppend ''callResultCodes'' [PStr (str ''INBOUND'')]))))"
    by (rule run_write_ok [OF t(2) w])
  show thesis
  proof (rule that)
    show "run W (append_inbound_to_response c e) s = (Inr (), s2)"
      by (simp add: append_inbound_to_response_def run_bindP r1 r2)
    show "row s2 = (row s)(ResponseTable := (row s ResponseTable)(?k := Some
       (apply_upd ?d (ListAppend ''callResultCodes'' [PStr (str ''INBOUND'')]))))"
      unfolding row2 o1 ..
  qed
qed

end

section \<open>Properties\<close>

text \<open>
  Property C33. A contact is identified once: when the contact's row exists, a repeated
  \<open>identify\<close> of the same contact changes no row of any table, whatever it answers.
\<close>

theorem identify_once:
  assumes "dynamodb W row" and "dget event ''contactId'' = PStr c"
    and "row s InboundTable [PStr c] = Some d" and "has_key d ''contactId''"
  shows "row (snd (run W (handle_identify env created event) s)) = row s"
proof -
  let ?I = "\<lambda>r. r = row s"
  have "all_calls (\<lambda>q. identify_call q \<and> puts_contact c q) (handle_identify env created event)"
    by (intro all_calls_conj identify_calls puts_contact_calls assms(2))
  then show ?thesis
  proof (rule dynamodb.run_rows_invariant [OF assms(1), where I = ?I])
    fix q s' assume q: "identify_call q \<and> puts_contact c q" and r: "row s' = row s"
    have "row (snd (answer W s' q)) = row s'"
      by (rule dynamodb.identify_frame [OF assms(1), of q "[PStr c]" s' d]) (use q r assms(3,4) in auto)
    with r show "row (snd (answer W s' q)) = row s" by simp
  qed simp
qed

definition sample_contact_store :: store where
  "sample_contact_store = \<lparr>st_rows =
     [((InboundTable, [PStr (str ''i'')]),
        [(str ''contactId'', PStr (str ''i'')), (str ''flow'', PStr (str ''ACTIVE_CYCLE''))]),
      ((ResponseTable, [PStr (str ''C''), PStr (str ''E'')]),
        [(str ''cycleId'', PStr (str ''C'')), (str ''employeeId'', PStr (str ''E'')),
         (str ''callAttempts'', PDec 2)])],
      st_clock = 63902822400000000, st_log = []\<rparr>"

abbreviation sample_inbound_env :: inbound_env where
  "sample_inbound_env \<equiv> \<lparr>log_group_name = Some (str ''audit''), function_name = None, reception_window_days = 30\<rparr>"

theorem identify_once_witness:
  "store_row (snd (run store_ops (handle_identify sample_inbound_env []
      [(str ''contactId'', PStr (str ''i'')), (str ''callerNumber'', PStr (str ''+81''))]) sample_contact_store)) =
    store_row sample_contact_store"
  by (rule identify_once [OF store.dynamodb_axioms, of _ "str ''i''" _
        "[(str ''contactId'', PStr (str ''i'')), (str ''flow'', PStr (str ''ACTIVE_CYCLE''))]"])
    (simp_all add: sample_contact_store_def store_row_def has_key_def)

abbreviation sample_finalize :: "string \<Rightarrow> pydict" where
  "sample_finalize c \<equiv> [(str ''contactId'', PStr (str c)), (str ''flow'', PStr (str ''ACTIVE_CYCLE'')),
     (str ''employeeId'', PStr (str ''E'')), (str ''cycleId'', PStr (str ''C''))]"

text \<open>
  A callback is not an attempt: whatever event \<open>finalize\<close> is given and however it ends,
  every Response row keeps all its attributes but \<open>callResultCodes\<close>, so neither \<open>callAttempts\<close> nor
  \<open>voiceStatus\<close> changes.
\<close>

theorem callback_keeps_attempts:
  assumes "dynamodb W row" and "row s ResponseTable k = Some d" and "has_key d ''cycleId''"
  shows "\<exists>d'. row (snd (run W (handle_finalize event) s)) ResponseTable k = Some d' \<and>
    (\<forall>a. a \<noteq> ''callResultCodes'' \<longrightarrow> dfind d' a = dfind d a)"
proof -
  have "same_but_codes d (row (snd (run W (handle_finalize event) s)) ResponseTable k)"
    by (rule dynamodb.run_rows_invariant [OF assms(1) finalize_calls, where I = "\<lambda>r. same_but_codes d (r ResponseTable k)"])
      (use assms dynamodb.finalize_keeps_response [OF assms(1)] in \<open>auto simp: same_but_codes_def\<close>)
  then show ?thesis by (simp add: same_but_codes_def)
qed

theorem callback_keeps_attempts_witness:
  "\<exists>d. store_row (snd (run store_ops (handle_finalize (sample_finalize ''i'')) sample_contact_store))
      ResponseTable [PStr (str ''C''), PStr (str ''E'')] = Some d \<and> dfind d ''callAttempts'' = Some (PDec 2)"
proof -
  let ?d = "[(str ''cycleId'', PStr (str ''C'')), (str ''employeeId'', PStr (str ''E'')), (str ''callAttempts'', PDec 2)]"
  have "store_row sample_contact_store ResponseTable [PStr (str ''C''), PStr (str ''E'')] = Some ?d"
    by (simp add: sample_contact_store_def store_row_def)
  from callback_keeps_attempts [OF store.dynamodb_axioms this, of "sample_finalize ''i''"]
  show ?thesis by (auto simp: has_key_def)
qed

text \<open>
  The two writes of \<open>finalize\<close> are not one: when the contact was never identified with
  this flow, the call ends with the failed condition, but the entry \<open>INBOUND\<close> is already on the
  Response row, which is created as \<open>PENDING\<close> when the employee had none; so each retry of the
  invocation adds another entry.
\<close>

theorem refused_finalize_leaves_entry:
  assumes "dynamodb W row" and "dget event ''contactId'' = PStr i" and "i \<noteq> []"
    and "dget event ''flow'' = PStr (str ''ACTIVE_CYCLE'')"
    and "dget event ''employeeId'' = PStr e" and "e \<noteq> []" and "dget event ''cycleId'' = PStr c" and "c \<noteq> []"
    and "row s InboundTable [PStr i] = None" and "row s ResponseTable [PStr c, PStr e] = r"
    and "\<And>d. r = Some d \<Longrightarrow> has_key d ''cycleId''"
  shows "\<exists>s' d. run W (handle_finalize event) s = (Inl (ClientError ccfe), s') \<and>
    row s' ResponseTable [PStr c, PStr e] = Some d \<and>
    dget d ''callResultCodes'' = PList (elems_of (case r of None \<Rightarrow> PNone | Some d0 \<Rightarrow> dget d0 ''callResultCodes'') @
      [PStr (str ''INBOUND'')]) \<and>
    (r = None \<longrightarrow> dget d ''voiceStatus'' = PStr (str ''PENDING''))"
proof -
  let ?flow = "PStr (str ''ACTIVE_CYCLE'')"
  have p: "parse_finalize_event event = Inr (i, ?flow, Some (e, c))"
    using assms by (simp add: parse_finalize_event_def valid_flows_def)
  obtain t s1 where now: "run W utc_now s = (Inr \<lparr>wall_us = t, utc_off = Some 0\<rparr>, s1)" "row s1 = row s"
    by (rule dynamodb.run_now_frame [OF assms(1), of s]) (auto simp: utc_now_def run_bindP)
  obtain s2 where app: "run W (append_inbound_to_response c e) s1 = (Inr (), s2)"
    and row2: "row s2 = (row s1)(ResponseTable := (row s1 ResponseTable)([PStr c, PStr e] := Some
       (apply_upd (case row s1 ResponseTable [PStr c, PStr e] of
            Some d \<Rightarrow> (if has_key d ''cycleId'' then d else norm_row (new_response c e))
          | None \<Rightarrow> norm_row (new_response c e)) (ListAppend ''callResultCodes'' [PStr (str ''INBOUND'')]))))"
    by (rule dynamodb.run_append_inbound [OF assms(1)])
  have none: "row s2 InboundTable [PStr i] = None" using row2 now(2) assms(9) by simp
  obtain s3 where fin: "run W (finalize_inbound_contact i ?flow (Some e) rk tk ''RECORDED'' (Some ''PENDING'')) s2 =
      (Inl (ClientError ccfe), s3 rk tk)" "row (s3 rk tk) = row s2" for rk tk
  proof -
    have "\<exists>s'. run W (finalize_inbound_contact i ?flow (Some e) rk tk ''RECORDED'' (Some ''PENDING'')) s2 =
        (Inl (ClientError ccfe), s') \<and> row s' = row s2" for rk tk
    proof -
      let ?q = "UpdateItem InboundTable (contact_key i)
         (SetAttr ''callResultCode'' (PStr (str ''RECORDED'')) # set_opt ''recordingS3Key'' (map_option PStr rk) @
          set_opt ''transcriptS3Key'' (map_option PStr tk) @ set_opt ''voiceStatus'' (Some (PStr (str ''PENDING''))) @
          set_opt ''employeeId'' (Some (PStr e)))
         (CondAnd (AttrExists ''contactId'') (AttrEq ''flow'' ?flow))"
      have t: "write_target ?q = Some (InboundTable, [PStr i])" by (simp add: key_of_def contact_key_def)
      have w: "write_row ?q (row s2 InboundTable [PStr i]) = None" by (simp add: none)
      obtain s' where "run W (aws ?q) s2 = (Inl (ClientError ccfe), s')" "row s' = row s2"
        by (rule dynamodb.run_write_fails [OF assms(1) t w])
      then show ?thesis by (simp add: finalize_inbound_contact_def run_bindP)
    qed
    then show ?thesis using that by metis
  qed
  have run: "\<exists>s'. run W (handle_finalize event) s = (Inl (ClientError ccfe), s') \<and> row s' = row s2"
    using fin by (simp add: handle_finalize_def p run_bindP now app Let_def)
  let ?d0 = "case r of Some d \<Rightarrow> d | None \<Rightarrow> norm_row (new_response c e)"
  have "row s2 ResponseTable [PStr c, PStr e] = Some (apply_upd ?d0 (ListAppend ''callResultCodes'' [PStr (str ''INBOUND'')]))"
    using row2 now(2) assms(10,11) by (auto split: option.splits)
  moreover obtain s' where "run W (handle_finalize event) s = (Inl (ClientError ccfe), s')" "row s' = row s2"
    using run by blast
  moreover have "dget ?d0 ''callResultCodes'' = (case r of None \<Rightarrow> PList [] | Some d0 \<Rightarrow> dget d0 ''callResultCodes'')"
      "r = None \<Longrightarrow> dget ?d0 ''voiceStatus'' = PStr (str ''PENDING'')"
    by (simp_all add: dget_def dfind_norm_row new_response_def response_key_def split: option.split)
  ultimately show ?thesis
    by (intro exI [of _ s'] exI [of _ "apply_upd ?d0 (ListAppend ''callResultCodes'' [PStr (str ''INBOUND'')])"])
      (simp split: option.split)
qed

theorem refused_finalize_leaves_entry_witness:
  "\<exists>s' d. run store_ops (handle_finalize (sample_finalize ''j'')) sample_contact_store =
      (Inl (ClientError ccfe), s') \<and>
    store_row s' ResponseTable [PStr (str ''C''), PStr (str ''E'')] = Some d \<and>
    dget d ''callResultCodes'' = PList [PStr (str ''INBOUND'')]"
proof -
  let ?d = "[(str ''cycleId'', PStr (str ''C'')), (str ''employeeId'', PStr (str ''E'')), (str ''callAttempts'', PDec 2)]"
  have r: "store_row sample_contact_store ResponseTable [PStr (str ''C''), PStr (str ''E'')] = Some ?d"
      "store_row sample_contact_store InboundTable [PStr (str ''j'')] = None"
    by (simp_all add: sample_contact_store_def store_row_def)
  show ?thesis
    using refused_finalize_leaves_entry [OF store.dynamodb_axioms _ _ _ _ _ _ _ r(2) r(1),
        of "sample_finalize ''j''"]
    by (simp add: has_key_def)
qed

end
