(* ===== verification/Connect.thy ===== *)
theory Connect
  imports Ddb Py_Text
begin

text \<open>
  \<open>backend/shared/connect/backoff.py\<close> and \<open>mock.py\<close>, and the loop the Lambdas build on the backoff: a
  bounded number of tries, a sleep after each retryable failure but the last, a dedicated exception
  when the tries are used up.
\<close>

section \<open>Backoff\<close>

text \<open>\<open>random.uniform(a, b)\<close> on the 53 random bits behind \<open>random.random()\<close>, without rounding.\<close>

definition uniform :: "int \<Rightarrow> rat \<Rightarrow> rat \<Rightarrow> rat" where
  "uniform bits a b = a + (b - a) * (of_int (bits mod 2 ^ 53) / 2 ^ 53)"

definition compute_backoff_delay :: "int \<Rightarrow> int \<Rightarrow> int \<Rightarrow> rat \<Rightarrow> (rat \<Rightarrow> rat \<Rightarrow> rat) \<Rightarrow> rat res" where
  "compute_backoff_delay attempt base_ms max_ms jitter_ratio random_fn =
     (if attempt < 0 then Inl ValueError
      else if base_ms \<le> 0 then Inl ValueError
      else if max_ms < base_ms then Inl ValueError
      else if \<not> (0 \<le> jitter_ratio \<and> jitter_ratio < 1) then Inl ValueError
      else
        let raw_ms = base_ms * 2 ^ nat attempt; clamped_ms = min raw_ms max_ms;
            jitter = random_fn (- jitter_ratio) jitter_ratio in
        Inr (of_int clamped_ms * (1 + jitter) / 1000))"

text \<open>\<open>time.sleep(compute_backoff_delay(try_idx))\<close> with the defaults of the signature.\<close>

definition py_sleep :: "rat \<Rightarrow> unit prog" where
  "py_sleep seconds = Call (Sleep seconds) (\<lambda>_. ret ())"

definition backoff_sleep :: "nat \<Rightarrow> unit prog" where
  "backoff_sleep try_idx =
     Env Rand53 (\<lambda>r.
       bindP (lift (compute_backoff_delay (int try_idx) 200 5000 (1 / 2) (uniform r))) py_sleep)"

section \<open>The retry loop\<close>

fun has_code :: "pystr list \<Rightarrow> pyerr \<Rightarrow> bool" where
  "has_code codes (ClientError c) = (c \<in> set codes)"
| "has_code codes _ = False"

text \<open>One try: \<open>None\<close> after a retryable \<open>ClientError\<close>.\<close>

definition one_try :: "pystr list \<Rightarrow> 'a prog \<Rightarrow> 'a option prog" where
  "one_try retryable p =
     catchP (bindP p (\<lambda>x. ret (Some x)))
       (\<lambda>e. if has_code retryable e then ret None else raise e)"

fun retry_loop :: "pystr list \<Rightarrow> pyerr \<Rightarrow> nat \<Rightarrow> 'a prog \<Rightarrow> nat list \<Rightarrow> 'a prog" where
  "retry_loop retryable exhausted max_tries p [] = raise exhausted"
| "retry_loop retryable exhausted max_tries p (try_idx # idxs) =
     bindP (one_try retryable p) (\<lambda>r. case r of
       Some x \<Rightarrow> ret x
     | None \<Rightarrow>
         thenP (if try_idx < max_tries - 1 then backoff_sleep try_idx else ret ())
           (retry_loop retryable exhausted max_tries p idxs))"

section \<open>Mock responses\<close>

text \<open>The transcripts, by their code points.\<close>

definition mock_buji :: pystr where
  "mock_buji = [28961, 20107, 12391, 12377]"

definition mock_digit :: "nat \<Rightarrow> string \<times> pystr option" where
  "mock_digit d =
     (if d = 0 then (''RECORDED'', Some mock_buji)
      else if d = 1 then (''RECORDED'', Some [22823, 19976, 22827, 12391, 12377])
      else if d = 2 then (''RECORDED'', Some mock_buji)
      else if d = 3 then (''RECORDED'', Some [24618, 25105, 12434, 12375, 12414, 12375, 12383])
      else if d = 4 then (''RECORDED'', Some [30171, 12356, 12391, 12377])
      else if d = 5 then (''RECORDED'', Some [21205, 12369, 12414, 12379, 12435])
      else if d = 6 then (''RECORDED'', Some [20986, 31038, 19981, 21487, 12391, 12377])
      else if d = 7 then (''NO_ANSWER'', None)
      else if d = 8 then (''BUSY'', None)
      else (''RECORDED'', Some [12354, 12356, 12358, 12360, 12362]))"

text \<open>\<open>digest0 s\<close> is the first byte of the SHA-256 of the UTF-8 encoding of \<open>s\<close>.\<close>

definition derive_mock_response :: "(pystr \<Rightarrow> nat) \<Rightarrow> pyval \<Rightarrow> (string \<times> pystr option) res" where
  "derive_mock_response digest0 employee_id = (case employee_id of
     PStr s \<Rightarrow>
       (if s = [] then Inl ValueError
        else if is_ascii_digit (last s) then Inr (mock_digit (last s - 48))
        else Inr (mock_digit (digest0 s mod 10)))
   | _ \<Rightarrow> Inl ValueError)"

section \<open>Facts\<close>

lemma uniform_bounds:
  assumes "a \<le> b"
  shows "a \<le> uniform bits a b \<and> uniform bits a b \<le> b"
proof -
  let ?u = "of_int (bits mod 2 ^ 53) / 2 ^ 53 :: rat"
  have u: "0 \<le> ?u" "?u \<le> 1"
  proof -
    show "0 \<le> ?u" by simp
    have "bits mod 2 ^ 53 < 2 ^ 53" by simp
    then have "of_int (bits mod 2 ^ 53) \<le> (of_int (2 ^ 53) :: rat)" unfolding of_int_le_iff by simp
    then show "?u \<le> 1" by simp
  qed
  have "0 \<le> (b - a) * ?u" using assms u(1) by simp
  moreover have "(b - a) * ?u \<le> (b - a) * 1" using assms u(2) by (intro mult_left_mono) simp_all
  ultimately show ?thesis by (simp add: uniform_def)
qed

lemma backoff_value:
  assumes "compute_backoff_delay n b m j f = Inr d"
  shows "0 \<le> n \<and> 0 < b \<and> b \<le> m \<and> 0 \<le> j \<and> j < 1 \<and>
    d = of_int (min (b * 2 ^ nat n) m) * (1 + f (- j) j) / 1000"
  using assms by (auto simp: compute_backoff_delay_def Let_def split: if_splits)

lemma backoff_bounds:
  assumes "compute_backoff_delay n b m j f = Inr d" and "\<And>lo hi. lo \<le> hi \<Longrightarrow> lo \<le> f lo hi \<and> f lo hi \<le> hi"
  shows "of_int (min (b * 2 ^ nat n) m) * (1 - j) / 1000 \<le> d \<and> 0 < d \<and>
    d \<le> of_int (min (b * 2 ^ nat n) m) * (1 + j) / 1000"
proof -
  note v = backoff_value [OF assms(1)]
  have f: "- j \<le> f (- j) j" "f (- j) j \<le> j" using assms(2) [of "- j" j] v by simp_all
  define c :: rat where "c = of_int (min (b * 2 ^ nat n) m)"
  have "0 < b * 2 ^ nat n" using v by simp
  then have c: "0 < c" using v unfolding c_def by simp
  have d: "d = c * (1 + f (- j) j) / 1000" using v by (simp add: c_def)
  have "c * (1 - j) \<le> c * (1 + f (- j) j)" "c * (1 + f (- j) j) \<le> c * (1 + j)"
    using c f by simp_all
  moreover have "0 < c * (1 + f (- j) j)" using c f v by simp
  ultimately show ?thesis unfolding d c_def [symmetric] by (simp add: divide_right_mono)
qed

lemma backoff_returns:
  "0 \<le> n \<Longrightarrow> 0 < b \<Longrightarrow> b \<le> m \<Longrightarrow> 0 \<le> j \<Longrightarrow> j < 1 \<Longrightarrow> \<exists>d. compute_backoff_delay n b m j f = Inr d"
  by (cases "compute_backoff_delay n b m j f") (auto simp: compute_backoff_delay_def Let_def split: if_splits)

lemma backoff_default: "\<exists>d. compute_backoff_delay (int i) 200 5000 (1 / 2) f = Inr d"
  by (rule backoff_returns) simp_all

lemma exec_backoff_sleep:
  assumes "exec (backoff_sleep i) tr r"
  shows "r = Inr () \<and> (\<exists>n d a. tr = [EnvEv Rand53 n, CallEv (Sleep d) a] \<and>
    of_int (min (200 * 2 ^ i) 5000) / 2000 \<le> d \<and> d \<le> of_int (min (200 * 2 ^ i) 5000) * 3 / 2000)"
proof -
  obtain n tr' where n: "exec (bindP (lift (compute_backoff_delay (int i) 200 5000 (1 / 2) (uniform n))) py_sleep)
      tr' r" "tr = EnvEv Rand53 n # tr'"
    using assms by (auto simp: backoff_sleep_def exec_Env)
  obtain d where d: "compute_backoff_delay (int i) 200 5000 (1 / 2) (uniform n) = Inr d"
    using backoff_default by blast
  then obtain a where "tr = [EnvEv Rand53 n, CallEv (Sleep d) a]" "r = Inr ()"
    using n by (auto simp: py_sleep_def exec_Call)
  then show ?thesis using backoff_bounds [OF d uniform_bounds] by simp
qed

lemma has_code_iff: "has_code codes e \<longleftrightarrow> (\<exists>c\<in>set codes. e = ClientError c)"
  by (cases e) auto

lemma exec_one_try:
  assumes "exec (one_try codes p) tr r"
  shows "(\<exists>x. r = Inr (Some x) \<and> exec p tr (Inr x)) \<or>
    (\<exists>e. has_code codes e \<and> r = Inr None \<and> exec p tr (Inl e)) \<or>
    (\<exists>e. \<not> has_code codes e \<and> r = Inl e \<and> exec p tr (Inl e))"
  using assms by (auto simp: one_try_def exec_catchP exec_bindP split: if_splits)

text \<open>
  The shapes of a loop's trace. \<open>failed codes p trs\<close>: each of \<open>trs\<close> is a try of \<open>p\<close> that failed with
  a retryable code; the sleeps are between them.
\<close>

inductive tries :: "pystr list \<Rightarrow> nat \<Rightarrow> 'a prog \<Rightarrow> nat list \<Rightarrow> io list \<Rightarrow> bool" for codes m p where
  tries_Nil: "tries codes m p [] []"
| tries_Cons: "exec p tr1 (Inl e) \<Longrightarrow> has_code codes e \<Longrightarrow>
    (if i < m - 1 then exec (backoff_sleep i) tr2 (Inr ()) else tr2 = []) \<Longrightarrow>
    tries codes m p is tr3 \<Longrightarrow> tries codes m p (i # is) (tr1 @ tr2 @ tr3)"

inductive_simps tries_Nil_iff [simp]: "tries codes m p [] tr"
inductive_simps tries_Cons_iff: "tries codes m p (i # is) tr"

text \<open>
  The loop ends after some failed tries: with the result or the non-retryable error of the next one,
  or exhausted after all of them.
\<close>

lemma exec_retry_loop:
  assumes "exec (retry_loop codes ex m p idxs) tr r"
  shows "(\<exists>n tr1 tr2. n < length idxs \<and> tr = tr1 @ tr2 \<and> tries codes m p (take n idxs) tr1 \<and> exec p tr2 r \<and>
      (\<forall>e. r = Inl e \<longrightarrow> \<not> has_code codes e)) \<or>
    (r = Inl ex \<and> tries codes m p idxs tr)"
  using assms
proof (induction idxs arbitrary: tr)
  case Nil
  then show ?case by auto
next
  case (Cons i "is")
  let ?k = "\<lambda>o'. case o' of Some x \<Rightarrow> ret x
     | None \<Rightarrow> thenP (if i < m - 1 then backoff_sleep i else ret ()) (retry_loop codes ex m p is)"
  have ex: "exec (bindP (one_try codes p) ?k) tr r" by (rule Cons.prems [unfolded retry_loop.simps])
  consider (err) e where "exec p tr (Inl e)" "\<not> has_code codes e" "r = Inl e"
    | (ok) x where "exec p tr (Inr x)" "r = Inr x"
    | (again) tr1 tr2 e where "tr = tr1 @ tr2" "exec p tr1 (Inl e)" "has_code codes e"
        "exec (thenP (if i < m - 1 then backoff_sleep i else ret ()) (retry_loop codes ex m p is)) tr2 r"
  proof -
    from ex consider (a) e where "exec (one_try codes p) tr (Inl e)" "r = Inl e"
      | (b) tr1 tr2 o' where "tr = tr1 @ tr2" "exec (one_try codes p) tr1 (Inr o')" "exec (?k o') tr2 r"
      unfolding exec_bindP [of "one_try codes p"] by blast
    then show thesis
    proof cases
      case a
      then show thesis using exec_one_try [OF a(1)] err by blast
    next
      case b
      then show thesis using exec_one_try [OF b(2)] ok again by (cases o') auto
    qed
  qed
  then show ?case
  proof cases
    case err
    then show ?thesis by (intro disjI1 exI [of _ 0] exI [of _ "[]"] exI [of _ tr]) simp
  next
    case ok
    then show ?thesis by (intro disjI1 exI [of _ 0] exI [of _ "[]"] exI [of _ tr]) simp
  next
    case again
    from again(4) obtain tr3 tr4 where loop: "tr2 = tr3 @ tr4"
        "if i < m - 1 then exec (backoff_sleep i) tr3 (Inr ()) else tr3 = []"
        "exec (retry_loop codes ex m p is) tr4 r"
      by (auto simp: exec_bindP split: if_splits dest: exec_backoff_sleep)
    have step: "tries codes m p (i # js) (tr1 @ tr3 @ t)" if "tries codes m p js t" for js t
      by (rule tries_Cons [OF again(2,3) loop(2) that])
    from Cons.IH [OF loop(3)] show ?thesis
    proof (elim disjE exE conjE)
      fix n t1 t2 assume "n < length is" "tr4 = t1 @ t2" "tries codes m p (take n is) t1" "exec p t2 r"
        "\<forall>e. r = Inl e \<longrightarrow> \<not> has_code codes e"
      then show ?thesis using step again(1) loop(1)
        by (intro disjI1 exI [of _ "Suc n"] exI [of _ "tr1 @ tr3 @ t1"] exI [of _ t2]) auto
    next
      assume "r = Inl ex" "tries codes m p is tr4"
      then show ?thesis using step again(1) loop(1) by auto
    qed
  qed
qed

text \<open>
  What holds of a trace of tries when it holds of each failed try: properties of every event, the
  number of requests of a kind, the time slept.
\<close>

lemma tries_events:
  assumes "tries codes m p idxs tr"
    and "\<And>tr e. exec p tr (Inl e) \<Longrightarrow> has_code codes e \<Longrightarrow> list_all P tr"
    and "\<And>n. P (EnvEv Rand53 n)" and "\<And>d a. P (CallEv (Sleep d) a)"
  shows "list_all P tr"
  using assms(1)
proof induction
  case (tries_Cons tr1 e i tr2 "is" tr3)
  have "list_all P tr2"
    using tries_Cons.hyps(3) assms(3,4) by (auto split: if_splits dest: exec_backoff_sleep)
  then show ?case using tries_Cons assms(2) by simp
qed simp

lemma tries_count:
  assumes "tries codes m p idxs tr"
    and "\<And>tr e. exec p tr (Inl e) \<Longrightarrow> has_code codes e \<Longrightarrow> length (filter P (calls tr)) = 1"
    and "\<And>d. \<not> P (Sleep d)"
  shows "length (filter P (calls tr)) = length idxs"
  using assms(1)
proof induction
  case (tries_Cons tr1 e i tr2 "is" tr3)
  have "filter P (calls tr2) = []"
    using tries_Cons.hyps(3) assms(3) by (auto split: if_splits dest: exec_backoff_sleep)
  then show ?case using tries_Cons assms(2) [of tr1 e] by simp
qed simp

fun slept :: "io list \<Rightarrow> rat" where
  "slept [] = 0"
| "slept (CallEv (Sleep d) a # tr) = d + slept tr"
| "slept (_ # tr) = slept tr"

lemma slept_append [simp]: "slept (xs @ ys) = slept xs + slept ys"
  by (induction xs rule: slept.induct) simp_all

lemma tries_slept:
  assumes "tries codes m p idxs tr"
    and "\<And>tr e. exec p tr (Inl e) \<Longrightarrow> has_code codes e \<Longrightarrow> slept tr = 0"
  shows "slept tr \<le> sum_list (map (\<lambda>i. if i < m - 1 then of_int (min (200 * 2 ^ i) 5000) * 3 / 2000 else 0) idxs)"
  using assms(1)
proof induction
  case (tries_Cons tr1 e i tr2 "is" tr3)
  have "slept tr2 \<le> (if i < m - 1 then of_int (min (200 * 2 ^ i) 5000) * 3 / 2000 else 0)"
    using tries_Cons.hyps(3) by (auto split: if_splits simp del: of_int_min dest: exec_backoff_sleep)
  then show ?case using tries_Cons assms(2) [of tr1 e] by simp
qed simp

lemma retry_loop_calls:
  assumes "all_calls P p" and "\<And>d. P (Sleep d)"
  shows "all_calls P (retry_loop codes ex m p idxs)"
proof (induction idxs)
  case (Cons i "is")
  have s: "all_calls P (bindP r py_sleep)" if "all_calls P r" for r
    using that assms(2) by (auto simp: py_sleep_def intro!: all_calls_bindP)
  have b: "all_calls P (backoff_sleep i)" unfolding backoff_sleep_def all_calls.simps by (auto intro: s)
  have t: "all_calls P (one_try codes p)"
    using assms(1) by (auto simp: one_try_def intro!: all_calls_catchP all_calls_bindP)
  show ?case using Cons b unfolding retry_loop.simps
    by (auto split: option.split intro!: all_calls_bindP t)
qed simp

end
