(* ===== verification/Dispatch.thy ===== *)
theory Dispatch
  imports Connect Recording_Keys
begin

text \<open>
  The Lambda \<open>connect_dispatcher\<close>: one outbound call of the Map iteration, through Amazon Connect or,
  outside production, through the mock of a call.
\<close>

section \<open>Configuration\<close>

text \<open>The environment variables read at import; \<open>None\<close> is an unset variable.\<close>

record dispatch_env =
  mock_mode :: "pystr option"
  environment_name :: "pystr option"
  connect_instance_id :: "pystr option"
  outbound_contact_flow_id :: "pystr option"
  outbound_phone_number :: "pystr option"

definition mock_mode_enabled :: "(pystr \<Rightarrow> pystr) \<Rightarrow> dispatch_env \<Rightarrow> bool" where
  "mock_mode_enabled lower env \<longleftrightarrow>
     lower (case mock_mode env of None \<Rightarrow> str ''false'' | Some v \<Rightarrow> v) = str ''true'' \<and>
     environment_name env \<noteq> Some (str ''prod'')"

definition env_for_connect :: "bool \<Rightarrow> pystr option \<Rightarrow> pystr res" where
  "env_for_connect enabled v =
     (if enabled then Inr (case v of None \<Rightarrow> [] | Some s \<Rightarrow> s)
      else (case v of None \<Rightarrow> Inl KeyError | Some s \<Rightarrow> Inr s))"

definition max_dispatch_attempts :: nat where
  "max_dispatch_attempts = 3"

definition dispatch_retryable_codes :: "pystr list" where
  "dispatch_retryable_codes = [str ''ThrottlingException'', str ''LimitExceededException'']"

definition dispatch_required_keys :: "string list" where
  "dispatch_required_keys = [''cycleId'', ''employeeId'', ''phoneNumber'', ''attempt'', ''taskToken'']"

section \<open>Input\<close>

record dispatch_input =
  d_cycle :: pyval
  d_employee :: pyval
  d_phone :: pyval
  d_attempt :: pyval
  d_token :: pyval

definition dispatch_parse_event :: "pyval \<Rightarrow> dispatch_input res" where
  "dispatch_parse_event event = (case event of
     PDict ev \<Rightarrow>
       if (\<exists>k\<in>set dispatch_required_keys. k \<noteq> ''attempt'' \<and> \<not> truthy (dget ev k)) \<or>
          \<not> has_key ev ''attempt'' then Inl ValueError
       else if \<not> is_int (dget ev ''attempt'') \<or> int_val (dget ev ''attempt'') < 1 then Inl ValueError
       else Inr \<lparr>d_cycle = dget ev ''cycleId'', d_employee = dget ev ''employeeId'',
         d_phone = dget ev ''phoneNumber'', d_attempt = dget ev ''attempt'', d_token = dget ev ''taskToken''\<rparr>
   | _ \<Rightarrow> Inl ValueError)"

section \<open>The call\<close>

definition start_request :: "pystr \<Rightarrow> pystr \<Rightarrow> pystr \<Rightarrow> dispatch_input \<Rightarrow> req" where
  "start_request instance_id flow_id source_number p =
     StartOutboundVoiceContact (d_phone p)
       [(str ''InstanceId'', PStr instance_id), (str ''ContactFlowId'', PStr flow_id),
        (str ''SourcePhoneNumber'', PStr source_number),
        (str ''Attributes'', PDict
          [(str ''cycleId'', d_cycle p), (str ''employeeId'', d_employee p),
           (str ''attempt'', PStr (py_str str_of (d_attempt p))), (str ''taskToken'', d_token p)])]"

text \<open>The try block of one iteration.\<close>

definition start_contact :: "pystr \<Rightarrow> pystr \<Rightarrow> pystr \<Rightarrow> dispatch_input \<Rightarrow> pystr prog" where
  "start_contact instance_id flow_id source_number p =
     bindP (aws (start_request instance_id flow_id source_number p)) (\<lambda>resp.
       let contact_id = dget (items_of resp) ''ContactId'' in
       if \<not> nonempty_str contact_id then raise ValueError else ret (str_of contact_id))"

definition start_outbound_call :: "pystr \<Rightarrow> pystr \<Rightarrow> pystr \<Rightarrow> dispatch_input \<Rightarrow> pystr prog" where
  "start_outbound_call instance_id flow_id source_number p =
     retry_loop dispatch_retryable_codes DispatchExhaustedError max_dispatch_attempts
       (start_contact instance_id flow_id source_number p) [0..<max_dispatch_attempts]"

section \<open>Writes\<close>

definition dispatch_now_iso :: "pystr prog" where
  "dispatch_now_iso = bindP now_us (\<lambda>t. ret (iso_z_seconds t))"

definition dispatch_key :: "dispatch_input \<Rightarrow> pydict" where
  "dispatch_key p = [(str ''cycleId'', d_cycle p), (str ''employeeId'', d_employee p)]"

definition record_success :: "dispatch_input \<Rightarrow> pystr \<Rightarrow> unit prog" where
  "record_success p contact_id =
     bindP dispatch_now_iso (\<lambda>now_iso.
     thenP (aws (UpdateItem ResponseTable (dispatch_key p)
         [SetAttr ''contactId'' (PStr contact_id), SetAttr ''dispatchedAt'' (PStr now_iso),
          AddNum ''callAttempts'' 1] NoCond))
       (ret ()))"

definition record_error :: "dispatch_input \<Rightarrow> unit prog" where
  "record_error p =
     bindP dispatch_now_iso (\<lambda>now_iso.
     on_codes [ccfe]
       (thenP (aws (UpdateItem ResponseTable (dispatch_key p)
           [SetAttr ''callResultCode'' (PStr (str ''ERROR'')), SetAttr ''dispatchedAt'' (PStr now_iso),
            AddNum ''callAttempts'' 1] (AttrNotExists ''callResultCode'')))
         (ret ()))
       ())"

definition send_retry_task_success :: "dispatch_input \<Rightarrow> unit prog" where
  "send_retry_task_success p =
     thenP (aws (SendTaskSuccess (d_token p)
         [(str ''retry'', PBool True), (str ''reason'', PStr (str ''DISPATCH_FAILED''))]))
       (ret ())"

section \<open>The mock of a call\<close>

text \<open>\<open>show\<close> is the text of the containers and floats an f-string may be given.\<close>

definition mock_contact_id :: "(pyval \<Rightarrow> pystr) \<Rightarrow> dispatch_input \<Rightarrow> pystr" where
  "mock_contact_id show p =
     str ''mock-'' @ py_str show (d_cycle p) @ [45] @ py_str show (d_employee p) @ [45] @
       py_str show (d_attempt p)"

definition mock_wav_placeholder :: pyval where
  "mock_wav_placeholder = PStr (replicate 1024 0)"

definition put_mock_recording :: "dispatch_input \<Rightarrow> pystr prog" where
  "put_mock_recording p =
     bindP (lift (derive_target_outbound_key (d_cycle p) (d_employee p) (d_attempt p))) (\<lambda>key.
       thenP (aws (S3PutObject key mock_wav_placeholder)) (ret key))"

definition send_mock_task_success :: "dispatch_input \<Rightarrow> pystr \<Rightarrow> string \<Rightarrow> bool \<Rightarrow> unit prog" where
  "send_mock_task_success p contact_id call_result_code retry =
     thenP (aws (SendTaskSuccess (d_token p)
         [(str ''retry'', PBool retry), (str ''contactId'', PStr contact_id),
          (str ''callResultCode'', PStr (str call_result_code))]))
       (ret ())"

definition dispatch_answer :: "string \<Rightarrow> pyval \<Rightarrow> bool \<Rightarrow> pydict" where
  "dispatch_answer status contact_id retry =
     [(str ''status'', PStr (str status)), (str ''contactId'', contact_id), (str ''retry'', PBool retry)]"

definition dispatch_mock :: "(pyval \<Rightarrow> pystr) \<Rightarrow> (pystr \<Rightarrow> nat) \<Rightarrow> dispatch_input \<Rightarrow> pydict prog" where
  "dispatch_mock show digest0 p =
     bindP (lift (derive_mock_response digest0 (d_employee p))) (\<lambda>(call_result_code, transcript).
     let contact_id = mock_contact_id show p in
     bindP (if call_result_code = ''RECORDED'' then thenP (put_mock_recording p) (ret False) else ret True)
       (\<lambda>retry.
     thenP (record_success p contact_id)
     (thenP (send_mock_task_success p contact_id call_result_code retry)
     (ret (dispatch_answer ''ok'' (PStr contact_id) retry)))))"

section \<open>The handler\<close>

definition dispatch_call :: "pystr \<Rightarrow> pystr \<Rightarrow> pystr \<Rightarrow> dispatch_input \<Rightarrow> pydict prog" where
  "dispatch_call instance_id flow_id source_number p =
     bindP (catchP (bindP (start_outbound_call instance_id flow_id source_number p) (\<lambda>c. ret (Some c)))
         (\<lambda>e. if e = DispatchExhaustedError then ret None else raise e))
       (\<lambda>r. case r of
         None \<Rightarrow>
           thenP (record_error p)
             (thenP (send_retry_task_success p) (ret (dispatch_answer ''error'' PNone True)))
       | Some contact_id \<Rightarrow>
           thenP (record_success p contact_id) (ret (dispatch_answer ''ok'' (PStr contact_id) False)))"

definition dispatch_lambda_handler ::
  "(pystr \<Rightarrow> pystr) \<Rightarrow> (pyval \<Rightarrow> pystr) \<Rightarrow> (pystr \<Rightarrow> nat) \<Rightarrow> dispatch_env \<Rightarrow> pyval \<Rightarrow> pydict prog" where
  "dispatch_lambda_handler lower show digest0 env event =
     (let enabled = mock_mode_enabled lower env in
      bindP (lift (env_for_connect enabled (connect_instance_id env))) (\<lambda>instance_id.
      bindP (lift (env_for_connect enabled (outbound_contact_flow_id env))) (\<lambda>flow_id.
      bindP (lift (env_for_connect enabled (outbound_phone_number env))) (\<lambda>source_number.
      bindP (lift (dispatch_parse_event event)) (\<lambda>p.
      if enabled then dispatch_mock show digest0 p
      else dispatch_call instance_id flow_id source_number p)))))"

section \<open>Facts\<close>

fun is_start :: "req \<Rightarrow> bool" where
  "is_start (StartOutboundVoiceContact n d) = True"
| "is_start _ = False"

fun is_release :: "req \<Rightarrow> bool" where
  "is_release (SendTaskSuccess t out) = True"
| "is_release _ = False"

text \<open>A call that Connect accepted.\<close>

fun placed :: "io \<Rightarrow> bool" where
  "placed (CallEv q (Inr v)) = is_start q"
| "placed _ = False"

fun dialling :: "io \<Rightarrow> bool" where
  "dialling (CallEv q a) = (is_start q \<or> (\<exists>d. q = Sleep d))"
| "dialling (EnvEv q n) = True"

lemma is_start_request [simp]: "is_start (start_request i f n p)"
  by (simp add: start_request_def)

lemma exec_start_contact:
  assumes "exec (start_contact i f n p) tr r"
  obtains (refused) c where "tr = [CallEv (start_request i f n p) (Inl c)]" "r = Inl (ClientError c)"
  | (no_id) v where "tr = [CallEv (start_request i f n p) (Inr v)]" "r = Inl ValueError"
  | (ok) v cid where "tr = [CallEv (start_request i f n p) (Inr v)]" "r = Inr cid"
  using assms by (auto simp: start_contact_def exec_bindP exec_aws Let_def split: if_splits)

lemma failed_try:
  assumes "exec (start_contact i f n p) tr (Inl e)" and "has_code codes e"
  obtains c where "tr = [CallEv (start_request i f n p) (Inl c)]"
  using assms(2) by (cases rule: exec_start_contact [OF assms(1)]) simp_all

lemma slept_start: "is_start q \<Longrightarrow> slept [CallEv q a] = 0"
  by (cases q) simp_all

lemma failed_tries:
  assumes "tries codes m (start_contact i f n p) idxs tr"
  shows "list_all (\<lambda>e. \<not> placed e \<and> dialling e) tr" and "length (filter is_start (calls tr)) = length idxs"
    and "slept tr \<le> sum_list (map (\<lambda>i. if i < m - 1 then of_int (min (200 * 2 ^ i) 5000) * 3 / 2000 else 0) idxs)"
proof -
  show "list_all (\<lambda>e. \<not> placed e \<and> dialling e) tr"
  proof (rule tries_events [OF assms])
    show "list_all (\<lambda>e. \<not> placed e \<and> dialling e) tr"
      if "exec (start_contact i f n p) tr (Inl e)" "has_code codes e" for tr e
      by (rule failed_try [OF that]) simp
    show "\<not> placed (CallEv (Sleep d) a) \<and> dialling (CallEv (Sleep d) a)" for d a by (cases a) simp_all
  qed simp
  show "length (filter is_start (calls tr)) = length idxs"
  proof (rule tries_count [OF assms])
    show "length (filter is_start (calls tr)) = 1"
      if "exec (start_contact i f n p) tr (Inl e)" "has_code codes e" for tr e
      by (rule failed_try [OF that]) simp
  qed simp
  show "slept tr \<le> sum_list (map (\<lambda>i. if i < m - 1 then of_int (min (200 * 2 ^ i) 5000) * 3 / 2000 else 0) idxs)"
  proof (rule tries_slept [OF assms])
    show "slept tr = 0" if "exec (start_contact i f n p) tr (Inl e)" "has_code codes e" for tr e
      by (rule failed_try [OF that]) (simp add: slept_start)
  qed
qed

text \<open>The loop: a call placed within three starts, or three refusals, or an error.\<close>

lemma exec_start_outbound_call:
  assumes "exec (start_outbound_call i f n p) tr r"
  shows "list_all dialling tr \<and> length (filter is_start (calls tr)) \<le> 3 \<and> slept tr \<le> 9 / 10 \<and>
    (case r of
       Inr cid \<Rightarrow> length (filter placed tr) = 1
     | Inl e \<Rightarrow> e = DispatchExhaustedError \<longrightarrow> filter placed tr = [] \<and> length (filter is_start (calls tr)) = 3)"
proof -
  let ?p = "start_contact i f n p"
  have b: "sum_list (map (\<lambda>i. if i < max_dispatch_attempts - 1
      then of_int (min (200 * 2 ^ i) 5000) * 3 / 2000 else (0::rat)) (take k [0..<max_dispatch_attempts])) \<le> 9 / 10"
    for k
  proof -
    have "k = 0 \<or> k = 1 \<or> k = 2 \<or> (\<exists>m. k = Suc (Suc (Suc m)))" by presburger
    then show ?thesis by (auto simp: max_dispatch_attempts_def upt_rec)
  qed
  have l: "list_all dialling tr" "filter placed tr = []" if "list_all (\<lambda>e. \<not> placed e \<and> dialling e) tr" for tr
    using that by (auto simp: list_all_iff filter_empty_conv)
  from exec_retry_loop [OF assms [unfolded start_outbound_call_def]] show ?thesis
  proof (elim disjE exE conjE)
    fix k tr1 tr2
    assume a: "k < length [0..<max_dispatch_attempts]" "tr = tr1 @ tr2"
      "tries dispatch_retryable_codes max_dispatch_attempts ?p (take k [0..<max_dispatch_attempts]) tr1"
      "exec ?p tr2 r"
    note t = failed_tries [OF a(3)]
    have "slept tr1 \<le> 9 / 10" using t(3) b [of k] by (rule order_trans)
    moreover have "length (filter is_start (calls tr1)) < 3" using t(2) a(1) by (simp add: max_dispatch_attempts_def)
    ultimately show ?thesis using a(2) l [OF t(1)]
      by (cases rule: exec_start_contact [OF a(4)]) (simp_all add: slept_start)
  next
    assume a: "r = Inl DispatchExhaustedError"
      "tries dispatch_retryable_codes max_dispatch_attempts ?p [0..<max_dispatch_attempts] tr"
    note t = failed_tries [OF a(2)]
    have "slept tr \<le> 9 / 10" using t(3) b [of 3] by (simp add: max_dispatch_attempts_def)
    then show ?thesis using a(1) t(2) l [OF t(1)] by (simp add: max_dispatch_attempts_def)
  qed
qed

lemma placed_calls: "list_all (\<lambda>q. \<not> is_start q) (calls tr) \<Longrightarrow> filter placed tr = []"
proof (induction tr rule: calls.induct)
  case (2 q a tr)
  then show ?case by (cases a) simp_all
qed simp_all

lemma dialling_calls: "list_all dialling tr \<Longrightarrow> filter is_release (calls tr) = []"
proof (induction tr rule: calls.induct)
  case (2 q a tr)
  then show ?case by (cases q) simp_all
qed simp_all

text \<open>A part of the handler that neither dials nor releases the task.\<close>

lemma exec_quiet:
  assumes "exec p tr r" and "all_calls (\<lambda>q. \<not> is_start q \<and> \<not> is_release q \<and> (\<forall>d. q \<noteq> Sleep d)) p"
  shows "filter placed tr = []" "filter is_start (calls tr) = []" "filter is_release (calls tr) = []" "slept tr = 0"
proof -
  have q: "list_all (\<lambda>q. \<not> is_start q \<and> \<not> is_release q \<and> (\<forall>d. q \<noteq> Sleep d)) (calls tr)"
    by (rule all_calls_exec [OF assms])
  then show "filter is_start (calls tr) = []" "filter is_release (calls tr) = []"
    by (auto simp: list_all_iff filter_empty_conv)
  show "filter placed tr = []" by (rule placed_calls) (use q in \<open>auto simp: list_all_iff\<close>)
  show "slept tr = 0" using q by (induction tr rule: slept.induct) simp_all
qed

lemma record_success_quiet:
  "all_calls (\<lambda>q. \<not> is_start q \<and> \<not> is_release q \<and> (\<forall>d. q \<noteq> Sleep d)) (record_success p cid)"
  by (auto simp: record_success_def dispatch_now_iso_def intro!: all_calls_bindP)

lemma record_error_quiet:
  "all_calls (\<lambda>q. \<not> is_start q \<and> \<not> is_release q \<and> (\<forall>d. q \<noteq> Sleep d)) (record_error p)"
  by (auto simp: record_error_def dispatch_now_iso_def intro!: all_calls_bindP all_calls_on_codes)

lemma exec_dispatch_call:
  assumes "exec (dispatch_call i f n p) tr (Inr ans)"
  shows "length (filter is_start (calls tr)) \<le> 3 \<and> slept tr \<le> 9 / 10 \<and>
    (if dget ans ''status'' = PStr (str ''ok'')
     then length (filter placed tr) = 1 \<and> filter is_release (calls tr) = []
     else filter placed tr = [] \<and> length (filter is_start (calls tr)) = 3 \<and>
       filter is_release (calls tr) =
         [SendTaskSuccess (d_token p) [(str ''retry'', PBool True), (str ''reason'', PStr (str ''DISPATCH_FAILED''))]])"
proof -
  from assms consider
    (ok) cid tr1 tr2 where "tr = tr1 @ tr2" "exec (start_outbound_call i f n p) tr1 (Inr cid)"
      "exec (record_success p cid) tr2 (Inr ())" "ans = dispatch_answer ''ok'' (PStr cid) False"
  | (ex) tr1 tr2 tr3 where "tr = tr1 @ tr2 @ tr3" "exec (start_outbound_call i f n p) tr1 (Inl DispatchExhaustedError)"
      "exec (record_error p) tr2 (Inr ())" "exec (send_retry_task_success p) tr3 (Inr ())"
      "ans = dispatch_answer ''error'' PNone True"
    unfolding dispatch_call_def by (auto simp: exec_bindP exec_catchP split: if_splits)
  then show ?thesis
  proof cases
    case ok
    show ?thesis
      using exec_start_outbound_call [OF ok(2)] dialling_calls [of tr1]
        exec_quiet [OF ok(3) record_success_quiet] ok(1,4)
      by (simp add: dispatch_answer_def)
  next
    case ex
    obtain v where "tr3 = [CallEv (SendTaskSuccess (d_token p)
        [(str ''retry'', PBool True), (str ''reason'', PStr (str ''DISPATCH_FAILED''))]) (Inr v)]"
      using ex(4) by (auto simp: send_retry_task_success_def exec_bindP exec_aws)
    then show ?thesis
      using exec_start_outbound_call [OF ex(2)] dialling_calls [of tr1]
        exec_quiet [OF ex(3) record_error_quiet] ex(1,5)
      by (simp add: dispatch_answer_def)
  qed
qed

section \<open>Properties\<close>

text \<open>
  Property C8. A dispatch that answers has dialled at most three times and slept at most 0.9 seconds. If
  it answers \<open>ok\<close>, Connect accepted exactly one call and the task token is left for the end of the
  call; otherwise no call was accepted in three tries and the token was released once, with
  \<open>retry\<close>.
\<close>

theorem dispatch_places_one_call:
  assumes "\<not> mock_mode_enabled lower env"
    and "exec (dispatch_lambda_handler lower show digest0 env event) tr (Inr ans)"
  shows "length (filter is_start (calls tr)) \<le> 3 \<and> slept tr \<le> 9 / 10 \<and>
    (if dget ans ''status'' = PStr (str ''ok'')
     then length (filter placed tr) = 1 \<and> filter is_release (calls tr) = []
     else filter placed tr = [] \<and> length (filter is_start (calls tr)) = 3 \<and>
       filter is_release (calls tr) =
         [SendTaskSuccess (dget (items_of event) ''taskToken'')
           [(str ''retry'', PBool True), (str ''reason'', PStr (str ''DISPATCH_FAILED''))]])"
proof -
  obtain i f n p where p: "dispatch_parse_event event = Inr p" "exec (dispatch_call i f n p) tr (Inr ans)"
    using assms unfolding dispatch_lambda_handler_def Let_def by (auto simp: exec_bindP)
  have "d_token p = dget (items_of event) ''taskToken''"
    using p(1) by (auto simp: dispatch_parse_event_def split: pyval.splits if_splits)
  then show ?thesis using exec_dispatch_call [OF p(2)] by simp
qed

text \<open>Amazon Connect that answers every start the same way.\<close>

definition connect_ops :: "resp \<Rightarrow> store ops" where
  "connect_ops a = store_ops\<lparr>answer := \<lambda>s q. if is_start q then (a, s) else store_answer s q\<rparr>"

definition sample_dispatch_env :: dispatch_env where
  "sample_dispatch_env = \<lparr>mock_mode = Some (str ''true''), environment_name = Some (str ''prod''),
     connect_instance_id = Some (str ''i''), outbound_contact_flow_id = Some (str ''f''),
     outbound_phone_number = Some (str ''+8150'')\<rparr>"

definition sample_dispatch_event :: pyval where
  "sample_dispatch_event = PDict [(str ''cycleId'', PStr (str ''c'')), (str ''employeeId'', PStr (str ''e1'')),
     (str ''phoneNumber'', PStr (str ''+8190'')), (str ''attempt'', PInt 1), (str ''taskToken'', PStr (str ''t''))]"

definition sample_dispatch_input :: dispatch_input where
  "sample_dispatch_input = \<lparr>d_cycle = PStr (str ''c''), d_employee = PStr (str ''e1''),
     d_phone = PStr (str ''+8190''), d_attempt = PInt 1, d_token = PStr (str ''t'')\<rparr>"

lemma sample_parse: "dispatch_parse_event sample_dispatch_event = Inr sample_dispatch_input"
  by (simp add: dispatch_parse_event_def sample_dispatch_event_def sample_dispatch_input_def
      dispatch_required_keys_def has_key_def)

lemma sample_not_mock: "\<not> mock_mode_enabled lower sample_dispatch_env"
  by (simp add: mock_mode_enabled_def sample_dispatch_env_def)

lemma sample_dispatch:
  "dispatch_lambda_handler lower show digest0 sample_dispatch_env sample_dispatch_event =
     dispatch_call (str ''i'') (str ''f'') (str ''+8150'') sample_dispatch_input"
  using sample_not_mock [of lower]
  by (simp add: dispatch_lambda_handler_def sample_parse env_for_connect_def sample_dispatch_env_def)

lemma run_connect_update:
  "run (connect_ops a) (aws (UpdateItem t key us NoCond)) s =
     (Inr (PDict []), s\<lparr>st_rows := put_row (st_rows s) (t, key_of t key)
       (Some (apply_upds (case store_row s t (key_of t key) of None \<Rightarrow> norm_row key | Some d \<Rightarrow> d) us))\<rparr>)"
  by (simp add: run_aws connect_ops_def)

lemma run_connect_now: "run (connect_ops a) dispatch_now_iso s = (Inr (iso_z_seconds (st_clock s)), s)"
  by (simp add: dispatch_now_iso_def run_bindP run_now connect_ops_def store_ops_def)

lemma run_connect_start: "run (connect_ops a) (aws (start_request i f n p)) s =
    ((case a of Inl c \<Rightarrow> Inl (ClientError c) | Inr v \<Rightarrow> Inr v), s)"
  by (simp add: run_aws connect_ops_def split: sum.split)

lemma sample_dispatch_ok:
  "\<exists>tr. exec (dispatch_lambda_handler lower show digest0 sample_dispatch_env sample_dispatch_event) tr
     (Inr (dispatch_answer ''ok'' (PStr (str ''k'')) False))"
proof -
  let ?W = "connect_ops (Inr (PDict [(str ''ContactId'', PStr (str ''k''))]))"
  have u: "[0..<max_dispatch_attempts] = [0, 1, 2]" by (simp add: max_dispatch_attempts_def upt_rec)
  have "fst (run ?W (dispatch_call i f n p) s) = Inr (dispatch_answer ''ok'' (PStr (str ''k'')) False)" for i f n p s
    by (simp add: dispatch_call_def start_outbound_call_def u one_try_def start_contact_def record_success_def
        run_bindP run_catchP run_connect_start run_connect_update run_connect_now)
  then show ?thesis using run_exec [of _ ?W] unfolding sample_dispatch by metis
qed

theorem dispatch_places_one_call_witness:
  "\<exists>tr. length (filter is_start (calls tr)) \<le> 3 \<and> length (filter placed tr) = 1 \<and>
     exec (dispatch_lambda_handler (\<lambda>s. s) str_of (\<lambda>s. 0) sample_dispatch_env sample_dispatch_event) tr
       (Inr (dispatch_answer ''ok'' (PStr (str ''k'')) False))"
proof -
  obtain tr where tr: "exec (dispatch_lambda_handler (\<lambda>s. s) str_of (\<lambda>s. 0) sample_dispatch_env
      sample_dispatch_event) tr (Inr (dispatch_answer ''ok'' (PStr (str ''k'')) False))"
    using sample_dispatch_ok by blast
  have "dget (dispatch_answer ''ok'' (PStr (str ''k'')) False) ''status'' = PStr (str ''ok'')"
    by (simp add: dispatch_answer_def)
  then show ?thesis using dispatch_places_one_call [OF sample_not_mock tr] tr by auto
qed

text \<open>
  In production the mock is never run, whatever \<open>MOCK_MODE\<close> says: no recording is
  uploaded, and the only release of a task token is the one after a failed dispatch.
\<close>

theorem production_never_mocks:
  assumes "environment_name env = Some (str ''prod'')"
  shows "all_calls (\<lambda>q. (\<forall>key body. q \<noteq> S3PutObject key body) \<and>
      (\<forall>token out. q = SendTaskSuccess token out \<longrightarrow> dget out ''reason'' = PStr (str ''DISPATCH_FAILED'')))
    (dispatch_lambda_handler lower show digest0 env event)"
proof -
  let ?P = "\<lambda>q. (\<forall>key body. q \<noteq> S3PutObject key body) \<and>
      (\<forall>token out. q = SendTaskSuccess token out \<longrightarrow> dget out ''reason'' = PStr (str ''DISPATCH_FAILED''))"
  have m: "\<not> mock_mode_enabled lower env" using assms by (simp add: mock_mode_enabled_def)
  have l: "all_calls ?P (start_outbound_call i f n p)" for i f n p
    unfolding start_outbound_call_def
    by (rule retry_loop_calls)
      (auto simp: start_contact_def start_request_def Let_def intro!: all_calls_bindP)
  show ?thesis
    unfolding dispatch_lambda_handler_def dispatch_call_def record_success_def record_error_def
      dispatch_now_iso_def send_retry_task_success_def
    by (auto simp: m Let_def split: option.split intro!: all_calls_bindP all_calls_catchP all_calls_on_codes l)
qed

theorem production_never_mocks_witness:
  "all_calls (\<lambda>q. (\<forall>key body. q \<noteq> S3PutObject key body) \<and>
      (\<forall>token out. q = SendTaskSuccess token out \<longrightarrow> dget out ''reason'' = PStr (str ''DISPATCH_FAILED'')))
    (dispatch_lambda_handler (\<lambda>s. s) str_of (\<lambda>s. 0) sample_dispatch_env sample_dispatch_event)"
  by (rule production_never_mocks) (simp add: sample_dispatch_env_def)

end
