(* ===== verification/Call_End.thy ===== *)
theory Call_End
  imports Dispatch Call_Result
begin

text \<open>
  The Lambda \<open>call_end_handler\<close>, called by the contact flow when an outbound call is over: it records
  the outcome on the Response row, once, and releases the task of the state machine.
\<close>

section \<open>Input\<close>

definition call_end_required_keys :: "string list" where
  "call_end_required_keys =
     [''contactId'', ''cycleId'', ''employeeId'', ''attempt'', ''callResultCode'', ''taskToken'']"

definition call_end_normalize :: "pydict \<Rightarrow> pydict res" where
  "call_end_normalize event =
     (case dget event ''Details'' of
        PDict details \<Rightarrow>
          (case dget details ''ContactData'' of
             PDict contact_data \<Rightarrow>
               (let or_empty = (\<lambda>v. if truthy v then v else PDict []);
                    attributes = or_empty (dget contact_data ''Attributes'');
                    parameters = or_empty (dget details ''Parameters'') in
                bind_res (vget_or attributes ''cycleId'' PNone) (\<lambda>cycle_id.
                bind_res (vget_or attributes ''employeeId'' PNone) (\<lambda>employee_id.
                bind_res (vget_or attributes ''attempt'' PNone) (\<lambda>attempt.
                bind_res (vget_or attributes ''taskToken'' PNone) (\<lambda>task_token.
                bind_res (vget_or parameters ''callResultCode'' PNone) (\<lambda>code.
                  Inr [(str ''contactId'', dget contact_data ''ContactId''), (str ''cycleId'', cycle_id),
                       (str ''employeeId'', employee_id), (str ''attempt'', attempt),
                       (str ''taskToken'', task_token), (str ''callResultCode'', code)]))))))
           | _ \<Rightarrow> Inr event)
      | _ \<Rightarrow> Inr event)"

record call_end_input =
  ce_contact :: pyval
  ce_cycle :: pyval
  ce_employee :: pyval
  ce_attempt :: int
  ce_code :: pyval
  ce_token :: pyval

text \<open>\<open>int(raw)\<close> with its \<open>TypeError\<close> and \<open>ValueError\<close> turned into \<open>ValueError\<close>.\<close>

definition coerce_attempt :: "pyval \<Rightarrow> int res" where
  "coerce_attempt v = (case py_int v of
     Inl e \<Rightarrow> Inl (if e = TypeError \<or> e = ValueError then ValueError else e) | Inr i \<Rightarrow> Inr i)"

definition call_end_parse_event :: "pyval \<Rightarrow> call_end_input res" where
  "call_end_parse_event event = (case event of
     PDict raw \<Rightarrow>
       bind_res (call_end_normalize raw) (\<lambda>ev.
         if \<exists>k\<in>set call_end_required_keys. \<not> truthy (dget ev k) then Inl ValueError
         else bind_res (coerce_attempt (dget ev ''attempt'')) (\<lambda>attempt.
           if attempt < 1 then Inl ValueError
           else bind_res (in_set (dget ev ''callResultCode'') valid_call_result_codes) (\<lambda>known.
             if \<not> known then Inl ValueError
             else Inr \<lparr>ce_contact = dget ev ''contactId'', ce_cycle = dget ev ''cycleId'',
               ce_employee = dget ev ''employeeId'', ce_attempt = attempt,
               ce_code = dget ev ''callResultCode'', ce_token = dget ev ''taskToken''\<rparr>)))
   | _ \<Rightarrow> Inl ValueError)"

section \<open>The handler\<close>

definition call_end_now_iso :: "pystr prog" where
  "call_end_now_iso = bindP now_us (\<lambda>t. ret (iso_z_seconds t))"

definition call_end_key :: "call_end_input \<Rightarrow> pydict" where
  "call_end_key p = [(str ''cycleId'', ce_cycle p), (str ''employeeId'', ce_employee p)]"

definition record_call_end :: "call_end_input \<Rightarrow> unit prog" where
  "record_call_end p =
     bindP call_end_now_iso (\<lambda>now_iso.
     on_codes [ccfe]
       (thenP (aws (UpdateItem ResponseTable (call_end_key p)
           [SetAttr ''callResultCode'' (ce_code p), SetAttr ''endedAt'' (PStr now_iso)]
           (AttrNotExists ''callResultCode'')))
         (ret ()))
       ())"

definition call_end_release :: "call_end_input \<Rightarrow> req" where
  "call_end_release p =
     SendTaskSuccess (ce_token p)
       [(str ''retry'', PBool False), (str ''contactId'', ce_contact p), (str ''callResultCode'', ce_code p)]"

definition send_task_success :: "call_end_input \<Rightarrow> unit prog" where
  "send_task_success p = thenP (aws (call_end_release p)) (ret ())"

definition call_end_answer :: "call_end_input \<Rightarrow> pydict" where
  "call_end_answer p =
     [(str ''status'', PStr (str ''ok'')), (str ''contactId'', ce_contact p), (str ''callResultCode'', ce_code p)]"

definition call_end_lambda_handler :: "pyval \<Rightarrow> pydict prog" where
  "call_end_lambda_handler event =
     bindP (lift (call_end_parse_event event)) (\<lambda>p.
     thenP (record_call_end p)
     (thenP (send_task_success p)
     (ret (call_end_answer p))))"

section \<open>Facts\<close>

lemma call_end_parsed:
  assumes "call_end_parse_event event = Inr p"
  shows "1 \<le> ce_attempt p" "is_one_of (ce_code p) valid_call_result_codes" "truthy (ce_token p)"
    "truthy (ce_contact p)"
  using assms
  by (auto simp: call_end_parse_event_def bind_res_eq_Inr in_set_Inr call_end_required_keys_def
      split: pyval.splits if_splits)

text \<open>A request that cannot change or remove the outcome of a call once it is recorded.\<close>

fun keeps_code :: "req \<Rightarrow> bool" where
  "keeps_code (UpdateItem t key us c) =
     (t \<noteq> ResponseTable \<or> ''callResultCode'' \<notin> upd_attr ` set us \<or> c = AttrNotExists ''callResultCode'')"
| "keeps_code (PutItem t item c) = (t \<noteq> ResponseTable)"
| "keeps_code (DeleteItem t key c) = (t \<noteq> ResponseTable)"
| "keeps_code (BatchPut t items) = False"
| "keeps_code (TransactWrite ws) = False"
| "keeps_code _ = True"

definition code_is :: "pyval \<Rightarrow> pydict option \<Rightarrow> bool" where
  "code_is c r \<longleftrightarrow> (\<exists>d. r = Some d \<and> dfind d ''callResultCode'' = Some c)"

context dynamodb begin

lemma keeps_code_request:
  assumes "keeps_code q" and "code_is c (row s ResponseTable k)"
  shows "code_is c (row (snd (answer W s q)) ResponseTable k)"
proof -
  obtain d where d: "row s ResponseTable k = Some d" "dfind d ''callResultCode'' = Some c"
    using assms(2) by (auto simp: code_is_def)
  have b: "\<not> multi_write q" using assms(1) by (cases q) auto
  show ?thesis
  proof (cases "write_target q = Some (ResponseTable, k)")
    case True
    then obtain key us cd where q: "q = UpdateItem ResponseTable key us cd"
        "''callResultCode'' \<notin> upd_attr ` set us \<or> cd = AttrNotExists ''callResultCode''"
      using assms(1) by (cases q) auto
    show ?thesis using row_after [OF b, of s ResponseTable k] q True d apply_upds_other [of _ us d]
      by (auto simp: code_is_def has_key_def)
  next
    case False
    then show ?thesis using row_after [OF b, of s ResponseTable k] d by (simp add: code_is_def)
  qed
qed

end

lemma call_end_keeps_code: "all_calls keeps_code (call_end_lambda_handler event)"
  by (auto simp: call_end_lambda_handler_def record_call_end_def call_end_now_iso_def send_task_success_def
      call_end_release_def intro!: all_calls_bindP all_calls_on_codes)

lemma dispatch_keeps_code: "all_calls keeps_code (dispatch_lambda_handler lower show digest0 env event)"
proof -
  have l: "all_calls keeps_code (start_outbound_call i f n p)" for i f n p
    unfolding start_outbound_call_def
    by (rule retry_loop_calls) (auto simp: start_contact_def start_request_def Let_def intro!: all_calls_bindP)
  show ?thesis
    unfolding dispatch_lambda_handler_def dispatch_call_def record_success_def record_error_def dispatch_mock_def
      dispatch_now_iso_def send_retry_task_success_def put_mock_recording_def send_mock_task_success_def
    by (auto simp: Let_def split: option.split prod.split intro!: all_calls_bindP all_calls_catchP all_calls_on_codes l)
qed

lemma exec_record_call_end:
  assumes "exec (record_call_end p) tr (Inr ())"
  obtains now n a where "tr = [EnvEv ClockUs n, CallEv (UpdateItem ResponseTable (call_end_key p)
      [SetAttr ''callResultCode'' (ce_code p), SetAttr ''endedAt'' (PStr now)]
      (AttrNotExists ''callResultCode'')) a]" "(\<exists>v. a = Inr v) \<or> a = Inl ccfe"
  using assms
  by (auto simp: record_call_end_def call_end_now_iso_def exec_bindP [of now_us] bindP_assoc exec_on_codes_write
      exec_now split: if_splits)

context dynamodb begin

lemma run_record_call_end:
  assumes "run W (record_call_end p) s = (Inr (), s')"
  shows "code_is c (row s ResponseTable (key_of ResponseTable (call_end_key p))) \<Longrightarrow> row s' = row s"
proof -
  assume c: "code_is c (row s ResponseTable (key_of ResponseTable (call_end_key p)))"
  obtain n s1 where n: "run W now_us s = (Inr n, s1)" "row s1 = row s" by (rule run_now_frame)
  let ?q = "UpdateItem ResponseTable (call_end_key p) [SetAttr ''callResultCode'' (ce_code p),
      SetAttr ''endedAt'' (PStr (iso_z_seconds n))] (AttrNotExists ''callResultCode'')"
  have t: "write_target ?q = Some (ResponseTable, key_of ResponseTable (call_end_key p))" by simp
  have w: "write_row ?q (row s1 ResponseTable (key_of ResponseTable (call_end_key p))) = None"
    using c n(2) by (auto simp: code_is_def has_key_def)
  obtain s2 where "run W (on_codes [ccfe] (thenP (aws ?q) (ret ())) ()) s1 = (Inr (), s2)" "row s2 = row s1"
    by (rule run_on_codes_write [OF t, where s = s1 and x = "()" and y = "()"]) (use w in simp)
  then show "row s' = row s"
    using assms n by (simp add: record_call_end_def call_end_now_iso_def run_bindP)
qed

end

section \<open>Properties\<close>

text \<open>
  Property C17. The first recorded outcome of a call stands: no run of the dispatcher or of the end
  handler, for whatever event, changes or removes a \<open>callResultCode\<close> once a Response row has one.
\<close>

theorem first_outcome_stands:
  assumes "dynamodb W row" and "code_is c (row s ResponseTable k)"
  shows "code_is c (row (snd (run W (dispatch_lambda_handler lower show digest0 env event) s)) ResponseTable k) \<and>
    code_is c (row (snd (run W (call_end_lambda_handler event') s)) ResponseTable k)"
proof -
  let ?I = "\<lambda>r. code_is c (r ResponseTable k)"
  note inv = dynamodb.run_rows_invariant [OF assms(1), where P = keeps_code and I = ?I, OF _ assms(2)
      dynamodb.keeps_code_request [OF assms(1)]]
  show ?thesis using inv [OF dispatch_keeps_code] inv [OF call_end_keeps_code] by blast
qed

definition answered_store :: store where
  "answered_store = \<lparr>st_rows =
     [((ResponseTable, [PStr (str ''c''), PStr (str ''e1'')]),
        [(str ''cycleId'', PStr (str ''c'')), (str ''employeeId'', PStr (str ''e1'')),
         (str ''callResultCode'', PStr (str ''NO_ANSWER''))])], st_clock = 63902822400000000, st_log = []\<rparr>"

lemma answered_code:
  "code_is (PStr (str ''NO_ANSWER'')) (store_row answered_store ResponseTable [PStr (str ''c''), PStr (str ''e1'')])"
  by (simp add: code_is_def answered_store_def store_row_def)

theorem first_outcome_stands_witness:
  "code_is (PStr (str ''NO_ANSWER'')) (store_row (snd (run store_ops
     (dispatch_lambda_handler (\<lambda>s. s) str_of (\<lambda>s. 0) sample_dispatch_env sample_dispatch_event) answered_store))
     ResponseTable [PStr (str ''c''), PStr (str ''e1'')])"
  using first_outcome_stands [OF store.dynamodb_axioms answered_code, of "\<lambda>s. s" str_of "\<lambda>s. 0"
      sample_dispatch_env sample_dispatch_event] by blast

text \<open>
  Ending a call releases its task exactly once and last, after one attempt at the
  conditional write, whether the write took effect or the outcome was recorded before; the answer
  repeats the event.
\<close>

theorem call_end_releases_once:
  assumes "exec (call_end_lambda_handler event) tr (Inr ans)"
  shows "\<exists>p now. call_end_parse_event event = Inr p \<and> ans = call_end_answer p \<and>
    calls tr = [UpdateItem ResponseTable (call_end_key p)
        [SetAttr ''callResultCode'' (ce_code p), SetAttr ''endedAt'' (PStr now)] (AttrNotExists ''callResultCode''),
      call_end_release p] \<and> is_one_of (ce_code p) valid_call_result_codes"
proof -
  obtain p tr1 tr2 where p: "call_end_parse_event event = Inr p" "tr = tr1 @ tr2"
      "exec (record_call_end p) tr1 (Inr ())" "exec (send_task_success p) tr2 (Inr ())" "ans = call_end_answer p"
    using assms by (cases "call_end_parse_event event") (auto simp: call_end_lambda_handler_def exec_bindP)
  have "calls tr2 = [call_end_release p]"
    using p(4) by (auto simp: send_task_success_def exec_bindP exec_aws)
  then show ?thesis
    using p call_end_parsed(2) [OF p(1)] by (cases rule: exec_record_call_end [OF p(3)]) auto
qed

text \<open>The end of the second call of an employee who did not answer the first.\<close>

definition second_call_ended :: pyval where
  "second_call_ended = PDict [(str ''contactId'', PStr (str ''k2'')), (str ''cycleId'', PStr (str ''c'')),
     (str ''employeeId'', PStr (str ''e1'')), (str ''attempt'', PStr (str ''2'')),
     (str ''callResultCode'', PStr (str ''RECORDED'')), (str ''taskToken'', PStr (str ''t2''))]"

definition second_call_input :: call_end_input where
  "second_call_input = \<lparr>ce_contact = PStr (str ''k2''), ce_cycle = PStr (str ''c''),
     ce_employee = PStr (str ''e1''), ce_attempt = 2, ce_code = PStr (str ''RECORDED''), ce_token = PStr (str ''t2'')\<rparr>"

lemma second_call_parsed: "call_end_parse_event second_call_ended = Inr second_call_input"
proof -
  have "nat_str 2 = [50]" by (subst nat_str.simps) simp
  then have "str ''2'' = int_str 2" by (simp add: int_str_def str_def)
  then have "py_int (PStr (str ''2'')) = Inr 2" using py_int_int_str [of 2] by simp
  then show ?thesis
    by (simp add: call_end_parse_event_def second_call_ended_def second_call_input_def call_end_normalize_def
        call_end_required_keys_def coerce_attempt_def valid_call_result_codes_def image_iff)
qed

lemma run_store_other:
  "write_target q = None \<Longrightarrow> (\<exists>t out. q = SendTaskSuccess t out) \<Longrightarrow>
     run store_ops (aws q) s = (Inr (PDict []), s\<lparr>st_log := st_log s @ [q]\<rparr>)"
  by (auto simp: run_aws store_ops_def)

lemma run_second_call:
  "\<exists>s'. run store_ops (call_end_lambda_handler second_call_ended) answered_store =
     (Inr (call_end_answer second_call_input), s')"
proof -
  obtain s1 where "run store_ops (record_call_end second_call_input) answered_store = (Inr (), s1)"
  proof -
    let ?q = "UpdateItem ResponseTable (call_end_key second_call_input)
      [SetAttr ''callResultCode'' (ce_code second_call_input), SetAttr ''endedAt'' (PStr (iso_z_seconds
        (st_clock answered_store)))] (AttrNotExists ''callResultCode'')"
    have "write_target ?q = Some (ResponseTable, key_of ResponseTable (call_end_key second_call_input))" by simp
    then obtain s' where "run store_ops (on_codes [ccfe] (thenP (aws ?q) (ret ())) ()) answered_store = (Inr (), s')"
      by (rule store.run_on_codes_write [where s = answered_store and x = "()" and y = "()"]) simp
    then show thesis by (intro that) (simp add: record_call_end_def call_end_now_iso_def run_bindP run_store_now)
  qed
  then show ?thesis
    by (simp add: call_end_lambda_handler_def second_call_parsed run_bindP send_task_success_def
        call_end_release_def run_store_other)
qed

text \<open>
  The outcome of a later attempt is lost: when the row holds the outcome of an earlier
  one, the end of the later call is answered with its own code and changes no row at all.
\<close>

theorem later_outcome_lost:
  assumes "dynamodb W row" and "call_end_parse_event event = Inr p"
    and "code_is c (row s ResponseTable (key_of ResponseTable (call_end_key p)))"
    and "run W (call_end_lambda_handler event) s = (Inr ans, s')"
  shows "ans = call_end_answer p \<and> row s' = row s"
proof -
  have "run W (thenP (record_call_end p) (thenP (send_task_success p) (ret (call_end_answer p)))) s = (Inr ans, s')"
    using assms(4) by (simp add: call_end_lambda_handler_def assms(2))
  then obtain s1 where s1: "run W (record_call_end p) s = (Inr (), s1)"
      "run W (thenP (send_task_success p) (ret (call_end_answer p))) s1 = (Inr ans, s')"
    by (rule run_bindP_InrE) simp
  obtain s2 v where s2: "run W (aws (call_end_release p)) s1 = (Inr v, s2)" "s' = s2" "ans = call_end_answer p"
    using s1(2) by (auto simp: send_task_success_def elim!: run_bindP_InrE)
  have "row s2 = row s1"
    using dynamodb.run_other_frame [OF assms(1), of "call_end_release p" s1] s2(1) by (simp add: call_end_release_def)
  then show ?thesis using dynamodb.run_record_call_end [OF assms(1) s1(1) assms(3)] s2 by simp
qed

theorem later_outcome_lost_witness:
  "\<exists>s'. run store_ops (call_end_lambda_handler second_call_ended) answered_store =
      (Inr (call_end_answer second_call_input), s') \<and> store_row s' = store_row answered_store \<and>
    dget (call_end_answer second_call_input) ''callResultCode'' = PStr (str ''RECORDED'') \<and>
    code_is (PStr (str ''NO_ANSWER'')) (store_row s' ResponseTable [PStr (str ''c''), PStr (str ''e1'')])"
proof -
  obtain s' where r: "run store_ops (call_end_lambda_handler second_call_ended) answered_store =
      (Inr (call_end_answer second_call_input), s')" using run_second_call by blast
  have k: "key_of ResponseTable (call_end_key second_call_input) = [PStr (str ''c''), PStr (str ''e1'')]"
    by (simp add: key_of_def call_end_key_def second_call_input_def)
  have "store_row s' = store_row answered_store"
    using later_outcome_lost [OF store.dynamodb_axioms second_call_parsed _ r] answered_code unfolding k by blast
  then show ?thesis using r answered_code by (auto simp: call_end_answer_def second_call_input_def)
qed

end
