(* ===== verification/Keyword_Handler.thy ===== *)
theory Keyword_Handler
  imports Connect Dictionary Keyword Recording_Keys
begin

text \<open>
  The Lambda \<open>keyword_matcher\<close>, called for every new transcript: it classifies the text with the
  dictionary version the cycle was started with and writes the employee's status, retrying
  transient failures and falling back to \<open>OTHER\<close>.
\<close>

section \<open>Input\<close>

definition excerpt_max_chars :: nat where
  "excerpt_max_chars = 100"

definition max_keyword_matcher_attempts :: nat where
  "max_keyword_matcher_attempts = 3"

definition matcher_retryable_codes :: "pystr list" where
  "matcher_retryable_codes = map str
     [''ThrottlingException'', ''ProvisionedThroughputExceededException'', ''RequestLimitExceeded'',
      ''InternalServerError'', ''ServiceUnavailable'', ''SlowDown'']"

definition matcher_parse_event :: "pyval \<Rightarrow> (pyval \<times> pyval) res" where
  "matcher_parse_event event = (case event of
     PDict ev \<Rightarrow>
       (case dget ev ''detail'' of
          PDict detail \<Rightarrow>
            (let bucket = dget detail ''bucket''; object = dget detail ''object'' in
             if \<not> is_dict bucket \<or> \<not> truthy (dget (items_of bucket) ''name'') then Inl ValueError
             else if \<not> is_dict object \<or> \<not> truthy (dget (items_of object) ''key'') then Inl ValueError
             else Inr (dget (items_of bucket) ''name'', dget (items_of object) ''key''))
        | _ \<Rightarrow> Inl ValueError)
   | _ \<Rightarrow> Inl ValueError)"

section \<open>Reading\<close>

text \<open>\<open>loads\<close> is \<open>json.loads\<close> of the object's content, \<open>None\<close> for what is not JSON.\<close>

definition read_transcript_body :: "(pyval \<Rightarrow> pyval option) \<Rightarrow> pyval \<Rightarrow> pyval \<Rightarrow> pyval prog" where
  "read_transcript_body loads bucket key =
     bindP (aws (S3GetObject bucket key)) (\<lambda>resp.
       case loads (dget (items_of resp) ''Body'') of
         None \<Rightarrow> raise ValueError
       | Some body \<Rightarrow> if \<not> is_dict body then raise ValueError else ret body)"

definition resolve_dictionary_version :: "pystr \<Rightarrow> int prog" where
  "resolve_dictionary_version cycle_id =
     bindP (aws (GetItem CycleTable (cycle_key cycle_id))) (\<lambda>resp.
       case dget (items_of resp) ''Item'' of
         PDict item \<Rightarrow>
           (let raw = dget item ''dictionaryVersion'' in
            if raw = PNone then raise ValueError else lift (py_int_str raw))
       | _ \<Rightarrow> raise ValueError)"

section \<open>Writing\<close>

definition info_key :: "key_info \<Rightarrow> pydict" where
  "info_key info = response_key (ki_meta_pk info) (ki_employee_id info)"

definition record_response :: "key_info \<Rightarrow> string \<Rightarrow> pystr list \<Rightarrow> pystr \<Rightarrow> int \<Rightarrow> unit prog" where
  "record_response info voice_status matched_keywords excerpt dictionary_version =
     thenP (aws (UpdateItem ResponseTable (info_key info)
         [SetAttr ''voiceStatus'' (PStr (str voice_status)),
          SetAttr ''matchedKeywords'' (PList (map PStr matched_keywords)),
          SetAttr ''transcriptExcerpt'' (PStr excerpt),
          SetAttr ''dictionaryVersion'' (PInt dictionary_version)] NoCond))
       (ret ())"

definition matcher_transcript_meta :: "key_info \<Rightarrow> pystr \<Rightarrow> rat \<Rightarrow> unit prog" where
  "matcher_transcript_meta info excerpt confidence =
     thenP (aws (UpdateItem TranscriptMetaTable
         [(str ''cycleId'', PStr (ki_meta_pk info)), (str ''employeeIdSeq'', PStr (ki_meta_sk info))]
         [SetAttr ''transcriptExcerpt'' (PStr excerpt), SetAttr ''confidence'' (PDec confidence),
          SetAttr ''languageCode'' (PStr (str ''ja-JP''))] NoCond))
       (ret ())"

definition truncate_excerpt :: "pystr \<Rightarrow> pystr" where
  "truncate_excerpt text = take excerpt_max_chars text"

section \<open>The pipeline\<close>

definition matching_answer :: "key_info \<Rightarrow> string \<Rightarrow> pystr list \<Rightarrow> int \<Rightarrow> rat \<Rightarrow> pydict" where
  "matching_answer info voice_status matched_keywords dictionary_version confidence =
     [(str ''status'', PStr (str ''ok'')), (str ''cycleId'', PStr (ki_meta_pk info)),
      (str ''employeeId'', PStr (ki_employee_id info)), (str ''seq'', PStr (ki_seq_or_contact info)),
      (str ''voiceStatus'', PStr (str voice_status)),
      (str ''matchedKeywords'', PList (map PStr matched_keywords)),
      (str ''dictionaryVersion'', PInt dictionary_version), (str ''confidence'', PFloat confidence)]"

definition run_matching_pipeline ::
  "(pystr \<Rightarrow> pystr) \<Rightarrow> (pyval \<Rightarrow> pyval option) \<Rightarrow> nat \<Rightarrow> pyval \<Rightarrow> pyval \<Rightarrow> key_info \<Rightarrow> pydict prog" where
  "run_matching_pipeline lower loads fuel bucket key info =
     bindP (read_transcript_body loads bucket key) (\<lambda>body.
     bindP (lift (extract_transcript_payload body)) (\<lambda>(text, confidence).
     bindP (resolve_dictionary_version (ki_meta_pk info)) (\<lambda>dictionary_version.
     bindP (get_dictionary_snapshot fuel (PInt dictionary_version)) (\<lambda>dictionary.
     bindP (lift (classify_voice_status lower (PStr text) (PDict dictionary))) (\<lambda>(voice_status, matched_keywords).
     let excerpt = truncate_excerpt text in
     thenP (record_response info voice_status matched_keywords excerpt dictionary_version)
     (thenP (matcher_transcript_meta info excerpt confidence)
     (ret (matching_answer info voice_status matched_keywords dictionary_version confidence))))))))"

definition run_with_retry ::
  "(pystr \<Rightarrow> pystr) \<Rightarrow> (pyval \<Rightarrow> pyval option) \<Rightarrow> nat \<Rightarrow> pyval \<Rightarrow> pyval \<Rightarrow> key_info \<Rightarrow> pydict prog" where
  "run_with_retry lower loads fuel bucket key info =
     retry_loop matcher_retryable_codes KeywordMatcherExhaustedError max_keyword_matcher_attempts
       (run_matching_pipeline lower loads fuel bucket key info) [0..<max_keyword_matcher_attempts]"

definition fallback_request :: "key_info \<Rightarrow> req" where
  "fallback_request info =
     UpdateItem ResponseTable (info_key info)
       [SetAttr ''voiceStatus'' (PStr (str ''OTHER'')), SetAttr ''matchedKeywords'' (PList [])] NoCond"

definition record_other_fallback :: "key_info \<Rightarrow> unit prog" where
  "record_other_fallback info = thenP (aws (fallback_request info)) (ret ())"

definition fallback_answer :: "key_info \<Rightarrow> pydict" where
  "fallback_answer info =
     [(str ''status'', PStr (str ''fallback'')), (str ''cycleId'', PStr (ki_meta_pk info)),
      (str ''employeeId'', PStr (ki_employee_id info)), (str ''seq'', PStr (ki_seq_or_contact info)),
      (str ''voiceStatus'', PStr (str ''OTHER'')), (str ''matchedKeywords'', PList []),
      (str ''reason'', PStr (str ''MATCHING_FAILED''))]"

definition match_transcript ::
  "(pystr \<Rightarrow> pystr) \<Rightarrow> (pyval \<Rightarrow> pyval option) \<Rightarrow> nat \<Rightarrow> pyval \<Rightarrow> pyval \<Rightarrow> key_info \<Rightarrow> pydict prog" where
  "match_transcript lower loads fuel bucket key info =
     catchP (run_with_retry lower loads fuel bucket key info)
       (\<lambda>e. if e = KeywordMatcherExhaustedError
             then thenP (record_other_fallback info) (ret (fallback_answer info)) else raise e)"

definition matcher_lambda_handler ::
  "(pystr \<Rightarrow> pystr) \<Rightarrow> (pyval \<Rightarrow> pyval option) \<Rightarrow> nat \<Rightarrow> pyval \<Rightarrow> pydict prog" where
  "matcher_lambda_handler lower loads fuel event =
     bindP (lift (matcher_parse_event event)) (\<lambda>(bucket, key).
       case parse_transcript_key key of
         None \<Rightarrow> raise ValueError
       | Some info \<Rightarrow>
           if ki_kind info \<noteq> Outbound then raise ValueError
           else match_transcript lower loads fuel bucket key info)"

section \<open>Facts\<close>

lemma readonly_reads [simp]: "readonly (S3GetObject b k)" "readonly (GetItem t key)" "readonly (Query t i a v f n lk)"
  by (simp_all add: readonly_def)

lemma read_body_readonly: "all_calls readonly (read_transcript_body loads b k)"
  by (auto simp: read_transcript_body_def split: option.split intro!: all_calls_bindP)

lemma resolve_version_readonly: "all_calls readonly (resolve_dictionary_version c)"
  by (auto simp: resolve_dictionary_version_def Let_def split: pyval.split intro!: all_calls_bindP)

lemma snapshot_readonly: "all_calls readonly (get_dictionary_snapshot fuel v)"
  by (auto simp: get_dictionary_snapshot_def intro!: all_calls_bindP pages_calls)

text \<open>The steps of a run of the pipeline that succeeds.\<close>

lemma run_pipelineE:
  assumes "run W (run_matching_pipeline lower loads fuel b k info) s = (Inr ans, s')"
  obtains body words conf v dict st kws s1 s2 s3 s4 where
    "run W (read_transcript_body loads b k) s = (Inr body, s1)" "extract_transcript_payload body = Inr (words, conf)"
    "run W (resolve_dictionary_version (ki_meta_pk info)) s1 = (Inr v, s2)"
    "run W (get_dictionary_snapshot fuel (PInt v)) s2 = (Inr dict, s3)"
    "classify_voice_status lower (PStr words) (PDict dict) = Inr (st, kws)"
    "run W (record_response info st kws (truncate_excerpt words) v) s3 = (Inr (), s4)"
    "run W (matcher_transcript_meta info (truncate_excerpt words) conf) s4 = (Inr (), s')"
    "ans = matching_answer info st kws v conf"
proof -
  obtain body s1 where 1: "run W (read_transcript_body loads b k) s = (Inr body, s1)"
    and r1: "run W (bindP (lift (extract_transcript_payload body)) (\<lambda>(text, confidence).
     bindP (resolve_dictionary_version (ki_meta_pk info)) (\<lambda>dictionary_version.
     bindP (get_dictionary_snapshot fuel (PInt dictionary_version)) (\<lambda>dictionary.
     bindP (lift (classify_voice_status lower (PStr text) (PDict dictionary))) (\<lambda>(voice_status, matched_keywords).
     let excerpt = truncate_excerpt text in
     thenP (record_response info voice_status matched_keywords excerpt dictionary_version)
     (thenP (matcher_transcript_meta info excerpt confidence)
     (ret (matching_answer info voice_status matched_keywords dictionary_version confidence)))))))) s1 = (Inr ans, s')"
    using assms unfolding run_matching_pipeline_def by (rule run_bindP_InrE)
  obtain words conf where 2: "extract_transcript_payload body = Inr (words, conf)"
    using r1 by (cases "extract_transcript_payload body") auto
  obtain v s2 where 3: "run W (resolve_dictionary_version (ki_meta_pk info)) s1 = (Inr v, s2)"
    and r2: "run W (bindP (get_dictionary_snapshot fuel (PInt v)) (\<lambda>dictionary.
     bindP (lift (classify_voice_status lower (PStr words) (PDict dictionary))) (\<lambda>(voice_status, matched_keywords).
     let excerpt = truncate_excerpt words in
     thenP (record_response info voice_status matched_keywords excerpt v)
     (thenP (matcher_transcript_meta info excerpt conf)
     (ret (matching_answer info voice_status matched_keywords v conf)))))) s2 = (Inr ans, s')"
    using r1 unfolding 2 bindP_Done_Inr prod.case by (rule run_bindP_InrE)
  obtain dict s3 where 4: "run W (get_dictionary_snapshot fuel (PInt v)) s2 = (Inr dict, s3)"
    and r3: "run W (bindP (lift (classify_voice_status lower (PStr words) (PDict dict))) (\<lambda>(voice_status, matched_keywords).
     let excerpt = truncate_excerpt words in
     thenP (record_response info voice_status matched_keywords excerpt v)
     (thenP (matcher_transcript_meta info excerpt conf)
     (ret (matching_answer info voice_status matched_keywords v conf))))) s3 = (Inr ans, s')"
    using r2 by (rule run_bindP_InrE)
  obtain st kws where 5: "classify_voice_status lower (PStr words) (PDict dict) = Inr (st, kws)"
    using r3 by (cases "classify_voice_status lower (PStr words) (PDict dict)") auto
  obtain s4 where 6: "run W (record_response info st kws (truncate_excerpt words) v) s3 = (Inr (), s4)"
    and r4: "run W (thenP (matcher_transcript_meta info (truncate_excerpt words) conf)
      (ret (matching_answer info st kws v conf))) s4 = (Inr ans, s')"
    using r3 unfolding 5 bindP_Done_Inr prod.case Let_def by (rule run_bindP_InrE) simp
  have "run W (matcher_transcript_meta info (truncate_excerpt words) conf) s4 = (Inr (), s')"
      "ans = matching_answer info st kws v conf"
    using r4 by (auto elim!: run_bindP_InrE)
  then show thesis using that 1 2 3 4 5 6 by blast
qed

lemma key_of_info: "key_of ResponseTable (info_key info) = [PStr (ki_meta_pk info), PStr (ki_employee_id info)]"
  by (simp add: key_of_def info_key_def response_key_def)

context dynamodb begin

lemma run_resolve_version:
  assumes "run W (resolve_dictionary_version c) s = (Inr v, s')"
  obtains d where "row s CycleTable [PStr c] = Some d" "py_int_str (dget d ''dictionaryVersion'') = Inr v"
    "row s' = row s"
proof -
  have k: "key_of CycleTable (cycle_key c) = [PStr c]" by (simp add: key_of_def cycle_key_def)
  obtain s1 where g: "run W (aws (GetItem CycleTable (cycle_key c))) s = (Inr (PDict (case row s CycleTable [PStr c] of
        None \<Rightarrow> [] | Some d \<Rightarrow> [(str ''Item'', PDict d)])), s1)" "row s1 = row s"
    using run_get [of CycleTable "cycle_key c" s] unfolding k by blast
  obtain d where d: "row s CycleTable [PStr c] = Some d"
    using assms g(1) by (cases "row s CycleTable [PStr c]") (auto simp: resolve_dictionary_version_def run_bindP)
  then have "py_int_str (dget d ''dictionaryVersion'') = Inr v \<and> s' = s1"
    using assms g(1) by (auto simp: resolve_dictionary_version_def run_bindP Let_def split: if_splits)
  with d g(2) that show thesis by blast
qed

text \<open>An unconditional update of one row.\<close>

lemma run_update_row:
  assumes "run W (aws (UpdateItem t key us NoCond)) s = (Inr v, s')"
  shows "row s' = (row s)(t := (row s t)(key_of t key :=
    Some (apply_upds (case row s t (key_of t key) of None \<Rightarrow> norm_row key | Some d \<Rightarrow> d) us)))"
proof -
  obtain v' s'' where "run W (aws (UpdateItem t key us NoCond)) s = (Inr v', s'')"
      "row s'' = (row s)(t := (row s t)(key_of t key :=
        Some (apply_upds (case row s t (key_of t key) of None \<Rightarrow> norm_row key | Some d \<Rightarrow> d) us)))"
    by (rule run_write_ok [where q = "UpdateItem t key us NoCond" and s = s and t = t and k = "key_of t key"
          and r = "Some (apply_upds (case row s t (key_of t key) of None \<Rightarrow> norm_row key | Some d \<Rightarrow> d) us)"])
      simp_all
  with assms show ?thesis by simp
qed

end

section \<open>Properties\<close>


text \<open>A cycle started with version 3 of the dictionary, in which \<open>ok\<close> is \<open>SAFE\<close>.\<close>

definition sample_info :: key_info where
  "sample_info = \<lparr>ki_kind = Outbound, ki_cycle_id_or_inbound_prefix = str ''c'', ki_employee_id = str ''e'',
     ki_seq_or_contact = str ''1'', ki_transcript_s3_key = str ''transcripts/c/e/1.json'', ki_meta_pk = str ''c'',
     ki_meta_sk = str ''e#1''\<rparr>"

definition sample_response :: pydict where
  "sample_response = [(str ''cycleId'', PStr (str ''c'')), (str ''employeeId'', PStr (str ''e'')),
     (str ''voiceStatus'', PStr (str ''SAFE''))]"

definition sample_match_store :: store where
  "sample_match_store = \<lparr>st_rows =
     [((CycleTable, [PStr (str ''c'')]), [(str ''cycleId'', PStr (str ''c'')), (str ''dictionaryVersion'', PDec 3)]),
      ((ResponseTable, [PStr (str ''c''), PStr (str ''e'')]), sample_response),
      ((HistoryTable, [PDec 3, PStr (str ''SAFE#ok'')]),
        [(str ''version'', PDec 3), (str ''category'', PStr (str ''SAFE'')), (str ''keyword'', PStr (str ''ok''))])],
     st_clock = 0, st_log = []\<rparr>"

definition sample_transcript :: pyval where
  "sample_transcript = PDict [(str ''results'', PDict
     [(str ''transcripts'', PList [PDict [(str ''transcript'', PStr (str ''i am ok''))]]),
      (str ''items'', PList [])])]"

lemma sample_body: "run store_ops (read_transcript_body (\<lambda>_. Some sample_transcript) b k) s =
    (Inr sample_transcript, s\<lparr>st_log := st_log s @ [S3GetObject b k]\<rparr>)"
  by (simp add: read_transcript_body_def sample_transcript_def run_bindP run_aws store_ops_def)

lemma sample_extract: "extract_transcript_payload sample_transcript = Inr (str ''i am ok'', 0)"
  by (simp add: extract_transcript_payload_def sample_transcript_def)

lemma sample_version:
  "run store_ops (resolve_dictionary_version (str ''c'')) (sample_match_store\<lparr>st_log := l\<rparr>) =
     (Inr 3, sample_match_store\<lparr>st_log := l\<rparr>)"
  by (simp add: resolve_dictionary_version_def cycle_key_def run_bindP run_store_get sample_match_store_def
      store_row_def key_of_def Let_def)

lemma sample_snapshot:
  "run store_ops (get_dictionary_snapshot (Suc 0) (PInt 3)) (sample_match_store\<lparr>st_log := l\<rparr>) =
     (Inr (to_snapshot [[(str ''version'', PDec 3), (str ''category'', PStr (str ''SAFE'')), (str ''keyword'', PStr (str ''ok''))]]),
      sample_match_store\<lparr>st_log := l\<rparr>)"
  by (simp add: get_dictionary_snapshot_def run_bindP store_pages query_rows_def table_rows_def
      sample_match_store_def del: pages.simps)

lemma sample_classify:
  "classify_voice_status (\<lambda>s. s) (PStr (str ''i am ok'')) (PDict (to_snapshot
     [[(str ''version'', PDec 3), (str ''category'', PStr (str ''SAFE'')), (str ''keyword'', PStr (str ''ok''))]])) =
     Inr (''SAFE'', [str ''ok''])"
proof -
  have "sublist (str ''ok'') (str ''i am ok'')"
    unfolding sublist_def by (rule exI [of _ "str ''i am ''"], rule exI [of _ "[]"]) (simp add: str_def)
  moreover have "to_snapshot [[(str ''version'', PDec 3), (str ''category'', PStr (str ''SAFE'')),
      (str ''keyword'', PStr (str ''ok''))]] =
    [(str ''SAFE'', PList [PStr (str ''ok'')]), (str ''INJURED'', PList []), (str ''UNAVAILABLE'', PList [])]"
    by (simp add: to_snapshot_def snapshot_add_def valid_categories_def sort_by_def Let_def)
  ultimately show ?thesis
    by (simp add: classify_voice_status_def priority_order_def contains_sublist)
qed

lemma run_store_update:
  "run store_ops (aws (UpdateItem t key us NoCond)) s =
     (Inr (PDict []), s\<lparr>st_rows := put_row (st_rows s) (t, key_of t key)
       (Some (apply_upds (case store_row s t (key_of t key) of None \<Rightarrow> norm_row key | Some d \<Rightarrow> d) us))\<rparr>)"
  by (simp add: run_aws store_ops_def)

lemma sample_pipeline:
  "\<exists>s'. run store_ops (run_matching_pipeline (\<lambda>s. s) (\<lambda>_. Some sample_transcript) (Suc 0) b k sample_info)
      sample_match_store = (Inr (matching_answer sample_info ''SAFE'' [str ''ok''] 3 0), s')"
proof -
  have i: "ki_meta_pk sample_info = str ''c''" by (simp add: sample_info_def)
  have l: "st_log sample_match_store = []" by (simp add: sample_match_store_def)
  have w: "\<exists>s'. run store_ops (thenP (record_response sample_info st kws ex v)
      (thenP (matcher_transcript_meta sample_info ex conf) (ret ans))) s = (Inr ans, s')" for st kws ex v conf ans s
    by (simp add: record_response_def matcher_transcript_meta_def run_bindP run_store_update)
  show ?thesis
    unfolding run_matching_pipeline_def run_bindP [of store_ops "read_transcript_body (\<lambda>_. Some sample_transcript) b k"]
    by (simp add: sample_body sample_extract l i run_bindP [of store_ops "resolve_dictionary_version (str ''c'')"]
        sample_version run_bindP [of store_ops "get_dictionary_snapshot (Suc 0) (PInt 3)"] sample_snapshot
        sample_classify w Let_def del: pages.simps)
qed


fun is_s3_get :: "req \<Rightarrow> bool" where
  "is_s3_get (S3GetObject b k) = True"
| "is_s3_get _ = False"

abbreviation matching_request :: "req \<Rightarrow> bool" where
  "matching_request q \<equiv> \<not> is_s3_get q \<and> (\<forall>d. q \<noteq> Sleep d)"

lemma slept_none: "list_all (\<lambda>q. \<forall>d. q \<noteq> Sleep d) (calls tr) \<Longrightarrow> slept tr = 0"
  by (induction tr rule: slept.induct) simp_all

text \<open>One run of the pipeline reads the transcript once, first, and never sleeps.\<close>

lemma exec_pipeline:
  assumes "exec (run_matching_pipeline lower loads fuel b k info) tr r"
  shows "length (filter is_s3_get (calls tr)) = 1 \<and> slept tr = 0 \<and>
    (\<forall>ans. r = Inr ans \<longrightarrow> dget ans ''status'' = PStr (str ''ok''))"
proof -
  let ?rest = "\<lambda>resp. bindP (case loads (dget (items_of resp) ''Body'') of
         None \<Rightarrow> raise ValueError
       | Some body \<Rightarrow> if \<not> is_dict body then raise ValueError else ret body) (\<lambda>body.
     bindP (lift (extract_transcript_payload body)) (\<lambda>(text, confidence).
     bindP (resolve_dictionary_version (ki_meta_pk info)) (\<lambda>dictionary_version.
     bindP (get_dictionary_snapshot fuel (PInt dictionary_version)) (\<lambda>dictionary.
     bindP (lift (classify_voice_status lower (PStr text) (PDict dictionary))) (\<lambda>(voice_status, matched_keywords).
     let excerpt = truncate_excerpt text in
     thenP (record_response info voice_status matched_keywords excerpt dictionary_version)
     (thenP (matcher_transcript_meta info excerpt confidence)
     (ret (matching_answer info voice_status matched_keywords dictionary_version confidence))))))))"
  have p: "run_matching_pipeline lower loads fuel b k info = bindP (aws (S3GetObject b k)) ?rest"
    by (simp add: run_matching_pipeline_def read_transcript_body_def bindP_assoc)
  have c: "all_calls matching_request (?rest resp)" for resp
    by (auto simp: Let_def resolve_dictionary_version_def get_dictionary_snapshot_def record_response_def
        matcher_transcript_meta_def split: option.split prod.split pyval.split
        intro!: all_calls_bindP pages_calls)
  have q: "length (filter is_s3_get (calls tr)) = 1 \<and> list_all (\<lambda>q. \<forall>d. q \<noteq> Sleep d) (calls tr)"
  proof -
    from assms consider "\<exists>c. tr = [CallEv (S3GetObject b k) (Inl c)]"
      | resp tr2 where "tr = CallEv (S3GetObject b k) (Inr resp) # tr2" "exec (?rest resp) tr2 r"
      unfolding p exec_bindP [of "aws (S3GetObject b k)"] exec_aws by fastforce
    then show ?thesis
    proof cases
      case 2
      show ?thesis using all_calls_exec [OF 2(2) c] 2(1) by (auto simp: list_all_iff filter_empty_conv)
    qed auto
  qed
  have ok: "dget ans ''status'' = PStr (str ''ok'')"
    if "exec (run_matching_pipeline lower loads fuel b k info) tr (Inr ans)" for ans
    using that unfolding run_matching_pipeline_def Let_def
    by (auto simp: exec_bindP matching_answer_def split: prod.splits)
  show ?thesis using q slept_none ok assms by blast
qed

text \<open>Every exception of \<open>p\<close> satisfies \<open>E\<close>, whatever the environment answers.\<close>

primrec all_errs :: "(pyerr \<Rightarrow> bool) \<Rightarrow> 'a prog \<Rightarrow> bool" where
  "all_errs E (Done r) = (\<forall>e. r = Inl e \<longrightarrow> E e)"
| "all_errs E (Call q k) = (\<forall>a. all_errs E (k a))"
| "all_errs E (Env v k) = (\<forall>n. all_errs E (k n))"

lemma all_errs_bindP: "all_errs E p \<Longrightarrow> (\<And>x. all_errs E (f x)) \<Longrightarrow> all_errs E (bindP p f)"
proof (induction p)
  case (Done r)
  then show ?case by (cases r) auto
qed auto

lemma all_errs_aws: "(\<And>c. E (ClientError c)) \<Longrightarrow> all_errs E (aws q)"
  by (auto simp: aws_def split: sum.split)

lemma all_errs_exec: "exec p tr (Inl e) \<Longrightarrow> all_errs E p \<Longrightarrow> E e"
  by (induction p tr "Inl e :: 'a res" rule: exec.induct) auto

lemma all_errs_pages: "(\<And>c. E (ClientError c)) \<Longrightarrow> E PageLimit \<Longrightarrow> all_errs E (pages stop n q k)"
  by (induction n arbitrary: k) (auto simp: Let_def intro!: all_errs_bindP all_errs_aws)

lemma confidences_raise: "iter_pronunciation_confidences items = Inl e \<Longrightarrow> e = OverflowError"
  by (induction items)
    (auto simp: bind_res_eq_Inl item_confidence_def alternative_confidence_def py_float_def
      split: pyval.splits option.splits if_splits)

lemma extract_raises: "extract_transcript_payload body = Inl e \<Longrightarrow> e = ValueError \<or> e = OverflowError"
  by (auto simp: extract_transcript_payload_def bind_res_eq_Inl confidences_raise
      split: pyval.splits list.splits)

lemma py_int_str_raises: "py_int_str v = Inl e \<Longrightarrow> e = ValueError"
  by (cases v) (auto split: if_splits option.splits)

lemma classify_status_raises: "classify_voice_status lower t d = Inl e \<Longrightarrow> e = ValueError"
  by (auto simp: classify_voice_status_def match_categories_raises split: if_splits)

lemma pipeline_errors:
  "all_errs (\<lambda>e. e \<noteq> KeywordMatcherExhaustedError) (run_matching_pipeline lower loads fuel b k info)"
  unfolding run_matching_pipeline_def read_transcript_body_def resolve_dictionary_version_def
    get_dictionary_snapshot_def record_response_def matcher_transcript_meta_def
  by (auto simp: Let_def split: option.split prod.split pyval.split
      intro!: all_errs_bindP all_errs_aws all_errs_pages
      dest: extract_raises py_int_str_raises classify_status_raises)

lemma matcher_sleep_bound:
  "sum_list (map (\<lambda>i. if i < max_keyword_matcher_attempts - 1
      then of_int (min (200 * 2 ^ i) 5000) * 3 / 2000 else (0::rat)) (take k [0..<max_keyword_matcher_attempts])) \<le> 9 / 10"
proof -
  have "k = 0 \<or> k = 1 \<or> k = 2 \<or> (\<exists>m. k = Suc (Suc (Suc m)))" by presburger
  then show ?thesis by (auto simp: max_keyword_matcher_attempts_def upt_rec)
qed

lemma exec_run_with_retry:
  assumes "exec (run_with_retry lower loads fuel b k info) tr r"
  shows "length (filter is_s3_get (calls tr)) \<le> 3 \<and> slept tr \<le> 9 / 10 \<and>
    (case r of Inr ans \<Rightarrow> dget ans ''status'' = PStr (str ''ok'')
     | Inl e \<Rightarrow> e = KeywordMatcherExhaustedError \<longrightarrow> length (filter is_s3_get (calls tr)) = 3)"
proof -
  let ?p = "run_matching_pipeline lower loads fuel b k info"
  have n: "length (filter is_s3_get (calls tr)) = length idxs"
      "slept tr \<le> sum_list (map (\<lambda>i. if i < m - 1 then of_int (min (200 * 2 ^ i) 5000) * 3 / 2000 else 0) idxs)"
    if "tries codes m ?p idxs tr" for codes m idxs tr
    by (rule tries_count [OF that]; simp add: exec_pipeline) (rule tries_slept [OF that], simp add: exec_pipeline)
  have no: "\<not> exec ?p tr (Inl KeywordMatcherExhaustedError)" for tr
    using all_errs_exec [OF _ pipeline_errors] by blast
  from exec_retry_loop [OF assms [unfolded run_with_retry_def]] show ?thesis
  proof (elim disjE exE conjE)
    fix j tr1 tr2
    assume a: "j < length [0..<max_keyword_matcher_attempts]" "tr = tr1 @ tr2"
      "tries matcher_retryable_codes max_keyword_matcher_attempts ?p (take j [0..<max_keyword_matcher_attempts]) tr1"
      "exec ?p tr2 r"
    have "slept tr1 \<le> 9 / 10" using n(2) [OF a(3)] matcher_sleep_bound by (rule order_trans)
    moreover have "length (filter is_s3_get (calls tr1)) < 3"
      using n(1) [OF a(3)] a(1) by (simp add: max_keyword_matcher_attempts_def)
    ultimately show ?thesis using exec_pipeline [OF a(4)] a(2) no a(4) by (auto split: sum.split)
  next
    assume a: "r = Inl KeywordMatcherExhaustedError"
      "tries matcher_retryable_codes max_keyword_matcher_attempts ?p [0..<max_keyword_matcher_attempts] tr"
    have "slept tr \<le> 9 / 10"
      using n(2) [OF a(2)] matcher_sleep_bound [of 3] by (simp add: max_keyword_matcher_attempts_def)
    then show ?thesis using a(1) n(1) [OF a(2)] by (simp add: max_keyword_matcher_attempts_def)
  qed
qed

lemma exec_match_transcript:
  assumes "exec (match_transcript lower loads fuel b k info) tr (Inr ans)"
  shows "length (filter is_s3_get (calls tr)) \<le> 3 \<and> slept tr \<le> 9 / 10 \<and>
    (dget ans ''status'' = PStr (str ''ok'') \<or>
     ans = fallback_answer info \<and> length (filter is_s3_get (calls tr)) = 3 \<and> last (calls tr) = fallback_request info)"
proof -
  from assms consider (ok) "exec (run_with_retry lower loads fuel b k info) tr (Inr ans)"
    | (fb) tr1 v where "exec (run_with_retry lower loads fuel b k info) tr1 (Inl KeywordMatcherExhaustedError)"
        "tr = tr1 @ [CallEv (fallback_request info) (Inr v)]" "ans = fallback_answer info"
    unfolding match_transcript_def
    by (auto simp: exec_catchP record_other_fallback_def exec_bindP exec_aws split: if_splits)
  then show ?thesis
  proof cases
    case ok
    then show ?thesis using exec_run_with_retry [OF ok] by simp
  next
    case fb
    show ?thesis using exec_run_with_retry [OF fb(1)] fb(2,3) by (simp add: fallback_request_def)
  qed
qed

text \<open>
  The matcher never gives a transcript up without an answer: a run that answers has tried
  at most three times and slept at most 0.9 seconds; if none of the tries succeeded, it tried exactly
  three times and its last request writes \<open>OTHER\<close>.
\<close>

theorem matching_gives_up:
  assumes "exec (matcher_lambda_handler lower loads fuel event) tr (Inr ans)"
  shows "length (filter is_s3_get (calls tr)) \<le> 3 \<and> slept tr \<le> 9 / 10 \<and>
    (dget ans ''status'' = PStr (str ''ok'') \<or>
     (\<exists>info. ki_kind info = Outbound \<and> ans = fallback_answer info \<and>
        length (filter is_s3_get (calls tr)) = 3 \<and> last (calls tr) = fallback_request info))"
proof -
  obtain b k info where "ki_kind info = Outbound" "exec (match_transcript lower loads fuel b k info) tr (Inr ans)"
    using assms unfolding matcher_lambda_handler_def
    by (cases "matcher_parse_event event") (auto split: option.splits if_splits)
  with exec_match_transcript [of lower loads fuel b k info tr ans] show ?thesis by blast
qed

text \<open>S3 that throttles every read.\<close>

definition throttled_ops :: "store ops" where
  "throttled_ops = store_ops\<lparr>answer := \<lambda>s q.
     if is_s3_get q then (Inl (str ''SlowDown''), s)
     else if \<exists>d. q = Sleep d then (Inr PNone, s) else store_answer s q\<rparr>"

definition sample_key :: pyval where
  "sample_key = PStr (slashed ''transcripts'' (str ''c'', str ''e'', nat_str 1) ''.json'')"

definition sample_match_event :: pyval where
  "sample_match_event = PDict [(str ''detail'', PDict
     [(str ''bucket'', PDict [(str ''name'', PStr (str ''b''))]), (str ''object'', PDict [(str ''key'', sample_key)])])]"

lemma run_throttled_sleep: "\<exists>s'. run throttled_ops (backoff_sleep i) s = (Inr (), s') \<and> st_rows s' = st_rows s"
proof -
  obtain d where "compute_backoff_delay (int i) 200 5000 (1 / 2) (uniform 0) = Inr d" using backoff_default by blast
  then show ?thesis by (simp add: backoff_sleep_def py_sleep_def throttled_ops_def store_ops_def)
qed

lemma throttled_pipeline:
  "run throttled_ops (one_try matcher_retryable_codes (run_matching_pipeline lower loads fuel b k info)) s = (Inr None, s)"
proof -
  have "run throttled_ops (run_matching_pipeline lower loads fuel b k info) s = (Inl (ClientError (str ''SlowDown'')), s)"
    by (simp add: run_matching_pipeline_def read_transcript_body_def run_bindP run_aws throttled_ops_def)
  then show ?thesis by (simp add: one_try_def run_catchP run_bindP matcher_retryable_codes_def)
qed

lemma throttled_loop:
  "\<exists>s'. run throttled_ops (retry_loop matcher_retryable_codes ex m
      (run_matching_pipeline lower loads fuel b k info) idxs) s = (Inl ex, s') \<and> st_rows s' = st_rows s"
proof (induction idxs arbitrary: s)
  case (Cons i "is")
  obtain s1 where "run throttled_ops (if i < m - 1 then backoff_sleep i else ret ()) s = (Inr (), s1)"
      "st_rows s1 = st_rows s"
    using run_throttled_sleep [of i s] by (cases "i < m - 1") auto
  then show ?case using Cons.IH [of s1] by (simp add: run_bindP throttled_pipeline)
qed simp

lemma throttled_match:
  "\<exists>s'. run throttled_ops (match_transcript lower loads fuel b k info) s = (Inr (fallback_answer info), s')"
proof -
  obtain s1 where "run throttled_ops (run_with_retry lower loads fuel b k info) s =
      (Inl KeywordMatcherExhaustedError, s1)"
    using throttled_loop unfolding run_with_retry_def by blast
  then show ?thesis
    by (simp add: match_transcript_def run_catchP record_other_fallback_def fallback_request_def run_bindP run_aws
        throttled_ops_def)
qed

lemma sample_event_parsed: "matcher_parse_event sample_match_event = Inr (PStr (str ''b''), sample_key)"
  by (simp add: matcher_parse_event_def sample_match_event_def sample_key_def slashed_def)

lemma sample_key_parsed:
  "\<exists>info. parse_transcript_key sample_key = Some info \<and> ki_kind info = Outbound \<and>
     ki_meta_pk info = str ''c'' \<and> ki_employee_id info = str ''e''"
proof -
  have "47 \<notin> set (str ''c'')" "47 \<notin> set (str ''e'')" by (simp_all add: str_def)
  then have "match_outbound ''transcripts'' ''.json'' (slashed ''transcripts'' (str ''c'', str ''e'', nat_str 1) ''.json'') =
      Some (str ''c'', str ''e'', nat_str 1)"
    using match_outbound_slashed [of "''transcripts''" "''.json''" "str ''c''" "str ''e''" "nat_str 1"]
    by (simp add: root_no_slash ext_no_slash all_digits_nat_str)
  then show ?thesis
    by (simp add: parse_transcript_key_def sample_key_def outbound_info_def slashed_def)
qed

lemma sample_fallback:
  obtains info s' where "parse_transcript_key sample_key = Some info" "ki_meta_pk info = str ''c''"
    "ki_employee_id info = str ''e''"
    "run throttled_ops (matcher_lambda_handler lower loads fuel sample_match_event) s = (Inr (fallback_answer info), s')"
proof -
  obtain info where i: "parse_transcript_key sample_key = Some info" "ki_kind info = Outbound"
      "ki_meta_pk info = str ''c''" "ki_employee_id info = str ''e''" using sample_key_parsed by blast
  obtain s' where "run throttled_ops (match_transcript lower loads fuel (PStr (str ''b'')) sample_key info) s =
      (Inr (fallback_answer info), s')" using throttled_match by blast
  with i that show thesis by (simp add: matcher_lambda_handler_def sample_event_parsed)
qed

theorem matching_gives_up_witness:
  "\<exists>tr info. exec (matcher_lambda_handler (\<lambda>s. s) (\<lambda>_. None) 1 sample_match_event) tr (Inr (fallback_answer info)) \<and>
     length (filter is_s3_get (calls tr)) = 3 \<and> last (calls tr) = fallback_request info"
proof -
  obtain info s' where "run throttled_ops (matcher_lambda_handler (\<lambda>s. s) (\<lambda>_. None) 1 sample_match_event)
      sample_match_store = (Inr (fallback_answer info), s')" by (rule sample_fallback)
  then obtain tr where tr: "exec (matcher_lambda_handler (\<lambda>s. s) (\<lambda>_. None) 1 sample_match_event) tr
      (Inr (fallback_answer info))"
    using run_exec [of "matcher_lambda_handler (\<lambda>s. s) (\<lambda>_. None) 1 sample_match_event" throttled_ops] by (metis fst_conv)
  have "dget (fallback_answer info) ''status'' \<noteq> PStr (str ''ok'')" by (simp add: fallback_answer_def)
  then obtain info' where "fallback_answer info = fallback_answer info'"
      "length (filter is_s3_get (calls tr)) = 3" "last (calls tr) = fallback_request info'"
    using matching_gives_up [OF tr] by blast
  with tr show ?thesis by auto
qed

text \<open>
  The fallback is unconditional: when all tries fail, the employee's status becomes
  \<open>OTHER\<close> whatever it was, so a transcript delivered again during a disturbance takes a \<open>SAFE\<close> that
  was found before away.
\<close>

theorem fallback_overwrites_answer:
  assumes "dynamodb W row" and "run W (matcher_lambda_handler lower loads fuel event) s = (Inr ans, s')"
    and "dget ans ''status'' \<noteq> PStr (str ''ok'')"
  shows "\<exists>c e d. dget ans ''cycleId'' = PStr c \<and> dget ans ''employeeId'' = PStr e \<and>
    row s' ResponseTable [PStr c, PStr e] = Some d \<and> dfind d ''voiceStatus'' = Some (PStr (str ''OTHER''))"
proof -
  obtain b k info where m: "run W (match_transcript lower loads fuel b k info) s = (Inr ans, s')"
    using assms(2) unfolding matcher_lambda_handler_def
    by (cases "matcher_parse_event event") (auto split: option.splits if_splits)
  obtain e s1 where e: "run W (run_with_retry lower loads fuel b k info) s = (Inl e, s1)"
  proof (cases "run W (run_with_retry lower loads fuel b k info) s")
    case (Pair r s1)
    obtain tr where tr: "exec (run_with_retry lower loads fuel b k info) tr r"
      using run_exec [of "run_with_retry lower loads fuel b k info" W s] Pair by auto
    show thesis
    proof (cases r)
      case (Inr a)
      then have "ans = a" using m Pair by (simp add: match_transcript_def run_catchP)
      then show thesis using exec_run_with_retry [OF tr] Inr assms(3) by simp
    qed (use that Pair in simp)
  qed
  have "run W (thenP (record_other_fallback info) (ret (fallback_answer info))) s1 = (Inr ans, s')"
    using m e by (simp add: match_transcript_def run_catchP split: if_splits)
  then obtain v where v: "run W (aws (fallback_request info)) s1 = (Inr v, s')" "ans = fallback_answer info"
    by (auto simp: record_other_fallback_def elim!: run_bindP_InrE)
  from dynamodb.run_update_row [OF assms(1) v(1) [unfolded fallback_request_def]]
  have "\<exists>d. row s' ResponseTable [PStr (ki_meta_pk info), PStr (ki_employee_id info)] = Some d \<and>
      dfind d ''voiceStatus'' = Some (PStr (str ''OTHER''))"
    by (simp add: key_of_info)
  with v(2) show ?thesis by (auto simp: fallback_answer_def)
qed

lemma throttled_laws: "dynamodb throttled_ops store_row"
proof -
  have w: "answer throttled_ops s q = answer store_ops s q" if "write_target q \<noteq> None" for s q
    using that by (cases q) (simp_all add: throttled_ops_def store_ops_def)
  have f: "store_row (snd (answer throttled_ops s q)) = store_row s \<or> answer throttled_ops s q = answer store_ops s q"
    for s q by (simp add: throttled_ops_def store_ops_def)
  show ?thesis
  proof unfold_locales
    show "write_target q = Some (t, k) \<Longrightarrow> write_row q (store_row s t k) = Some r \<Longrightarrow>
       (\<exists>v. fst (answer throttled_ops s q) = Inr v) \<and>
       store_row (snd (answer throttled_ops s q)) = (store_row s)(t := (store_row s t)(k := r))" for q t k s r
      using store.write_ok [of q t k s r] by (simp add: w)
    show "write_target q = Some (t, k) \<Longrightarrow> write_row q (store_row s t k) = None \<Longrightarrow>
       fst (answer throttled_ops s q) = Inl ccfe \<and> store_row (snd (answer throttled_ops s q)) = store_row s" for q t k s
      using store.write_fails [of q t k s] by (simp add: w)
    show "write_target q = None \<Longrightarrow> \<not> multi_write q \<Longrightarrow>
       store_row (snd (answer throttled_ops s q)) = store_row s" for q s
      using store.frame [of q s] f [of s q] by auto
  qed (simp_all add: throttled_ops_def store_ops_def)
qed

theorem fallback_overwrites_answer_witness:
  "dfind sample_response ''voiceStatus'' = Some (PStr (str ''SAFE'')) \<and>
   store_row sample_match_store ResponseTable [PStr (str ''c''), PStr (str ''e'')] = Some sample_response \<and>
   (\<exists>d. store_row (snd (run throttled_ops (matcher_lambda_handler (\<lambda>s. s) (\<lambda>_. None) 1 sample_match_event)
      sample_match_store)) ResponseTable [PStr (str ''c''), PStr (str ''e'')] = Some d \<and>
     dfind d ''voiceStatus'' = Some (PStr (str ''OTHER'')))"
proof -
  obtain info s' where r: "parse_transcript_key sample_key = Some info" "ki_meta_pk info = str ''c''"
    "ki_employee_id info = str ''e''" "run throttled_ops (matcher_lambda_handler (\<lambda>s. s) (\<lambda>_. None) 1 sample_match_event)
      sample_match_store = (Inr (fallback_answer info), s')" by (rule sample_fallback)
  have "dget (fallback_answer info) ''status'' \<noteq> PStr (str ''ok'')" by (simp add: fallback_answer_def)
  from fallback_overwrites_answer [OF throttled_laws r(4) this] r(2,3,4)
  show ?thesis by (auto simp: fallback_answer_def sample_response_def sample_match_store_def store_row_def)
qed

end
