(* ===== verification/Transcribe_Starter.thy ===== *)
theory Transcribe_Starter
  imports Connect Keyword Recording_Keys
begin

text \<open>
  The Lambda \<open>transcribe_starter\<close>, called for every new recording: it starts one Transcribe job under a
  name derived from the key, with retries, and records the job; outside production a mock writes
  the transcript itself.
\<close>

section \<open>Configuration and input\<close>

record transcribe_env =
  ts_mock_mode :: "pystr option"
  ts_environment_name :: "pystr option"
  ts_language_code :: "pystr option"
  ts_transcripts_bucket :: pystr
  ts_kms_cmk_arn :: pystr

definition ts_mock_enabled :: "(pystr \<Rightarrow> pystr) \<Rightarrow> transcribe_env \<Rightarrow> bool" where
  "ts_mock_enabled lower env \<longleftrightarrow>
     lower (case ts_mock_mode env of None \<Rightarrow> str ''false'' | Some v \<Rightarrow> v) = str ''true'' \<and>
     ts_environment_name env \<noteq> Some (str ''prod'')"

definition env_for_transcribe :: "bool \<Rightarrow> pystr option \<Rightarrow> pystr res" where
  "env_for_transcribe enabled v =
     (if enabled then Inr (case v of None \<Rightarrow> [] | Some s \<Rightarrow> s)
      else (case v of None \<Rightarrow> Inl KeyError | Some s \<Rightarrow> Inr s))"

definition max_transcribe_attempts :: nat where
  "max_transcribe_attempts = 3"

definition transcribe_retryable_codes :: "pystr list" where
  "transcribe_retryable_codes = [str ''ThrottlingException'', str ''LimitExceededException'']"

definition transcribe_parse_event :: "pyval \<Rightarrow> (pyval \<times> pyval) res" where
  "transcribe_parse_event event = (case event of
     PDict ev \<Rightarrow>
       (case dget ev ''detail'' of
          PDict detail \<Rightarrow>
            (let bucket = dget detail ''bucket''; object = dget detail ''object'' in
             if \<not> is_dict bucket \<or> \<not> truthy (dget (items_of bucket) ''name'') then Inl ValueError
             else if \<not> is_dict object \<or> \<not> truthy (dget (items_of object) ''key'') then Inl ValueError
             else Inr (dget (items_of bucket) ''name'', dget (items_of object) ''key''))
        | _ \<Rightarrow> Inl ValueError)
   | _ \<Rightarrow> Inl ValueError)"

section \<open>The job\<close>

text \<open>\<open>show\<close> is the text an f-string has for a bucket name that is not a string.\<close>

definition start_job_request ::
  "(pyval \<Rightarrow> pystr) \<Rightarrow> transcribe_env \<Rightarrow> pystr \<Rightarrow> pystr \<Rightarrow> pyval \<Rightarrow> pyval \<Rightarrow> key_info \<Rightarrow> req" where
  "start_job_request show env language job_name bucket object_key info =
     StartTranscriptionJob
       [(str ''TranscriptionJobName'', PStr job_name), (str ''LanguageCode'', PStr language),
        (str ''MediaFormat'', PStr (str ''wav'')),
        (str ''Media'', PDict [(str ''MediaFileUri'',
          PStr (str ''s3://'' @ py_str show bucket @ [47] @ py_str show object_key))]),
        (str ''OutputBucketName'', PStr (ts_transcripts_bucket env)),
        (str ''OutputKey'', PStr (ki_transcript_s3_key info)),
        (str ''OutputEncryptionKMSKeyId'', PStr (ts_kms_cmk_arn env))]"

definition start_job ::
  "(pyval \<Rightarrow> pystr) \<Rightarrow> transcribe_env \<Rightarrow> pystr \<Rightarrow> pystr \<Rightarrow> pyval \<Rightarrow> pyval \<Rightarrow> key_info \<Rightarrow> pystr prog" where
  "start_job show env language job_name bucket object_key info =
     on_codes [str ''ConflictException'']
       (thenP (aws (start_job_request show env language job_name bucket object_key info)) (ret job_name)) job_name"

definition start_transcribe_job_with_retry ::
  "(pyval \<Rightarrow> pystr) \<Rightarrow> transcribe_env \<Rightarrow> pystr \<Rightarrow> pystr \<Rightarrow> pyval \<Rightarrow> pyval \<Rightarrow> key_info \<Rightarrow> pystr prog" where
  "start_transcribe_job_with_retry show env language job_name bucket object_key info =
     retry_loop transcribe_retryable_codes TranscribeExhaustedError max_transcribe_attempts
       (start_job show env language job_name bucket object_key info) [0..<max_transcribe_attempts]"

section \<open>Writes\<close>

definition transcript_meta_item :: "key_info \<Rightarrow> pystr \<Rightarrow> pydict" where
  "transcript_meta_item info job_name =
     [(str ''cycleId'', PStr (ki_meta_pk info)), (str ''employeeIdSeq'', PStr (ki_meta_sk info)),
      (str ''transcribeJobId'', PStr job_name), (str ''transcriptS3Key'', PStr (ki_transcript_s3_key info))]"

definition record_transcript_meta :: "key_info \<Rightarrow> pystr \<Rightarrow> unit prog" where
  "record_transcript_meta info job_name =
     on_codes [ccfe]
       (thenP (aws (PutItem TranscriptMetaTable (transcript_meta_item info job_name) (AttrNotExists ''cycleId'')))
         (ret ()))
       ()"

definition transcribe_failed_request :: "key_info \<Rightarrow> req" where
  "transcribe_failed_request info =
     UpdateItem ResponseTable (response_key (ki_meta_pk info) (ki_employee_id info))
       [SetAttr ''callResultCode'' (PStr (str ''TRANSCRIBE_FAILED''))]
       (CondAnd (AttrExists ''callResultCode'') (AttrEq ''callResultCode'' (PStr (str ''RECORDED''))))"

definition record_transcribe_failed_on_response :: "key_info \<Rightarrow> unit prog" where
  "record_transcribe_failed_on_response info =
     on_codes [ccfe] (thenP (aws (transcribe_failed_request info)) (ret ())) ()"

section \<open>The mock\<close>

definition build_mock_transcript_json :: "pystr \<Rightarrow> pystr \<Rightarrow> pyval" where
  "build_mock_transcript_json job_name transcript_text = PDict
     [(str ''jobName'', PStr job_name), (str ''status'', PStr (str ''COMPLETED'')),
      (str ''results'', PDict
        [(str ''transcripts'', PList [PDict [(str ''transcript'', PStr transcript_text)]]),
         (str ''items'', PList [PDict
           [(str ''start_time'', PStr (str ''0.0'')), (str ''end_time'', PStr (str ''1.0'')),
            (str ''alternatives'', PList [PDict
              [(str ''confidence'', PStr (str ''1.0'')), (str ''content'', PStr transcript_text)]]),
            (str ''type'', PStr (str ''pronunciation''))]])])]"

definition put_mock_transcript :: "key_info \<Rightarrow> pyval \<Rightarrow> unit prog" where
  "put_mock_transcript info payload =
     thenP (aws (S3PutObject (ki_transcript_s3_key info) payload)) (ret ())"

definition transcribe_answer :: "key_info \<Rightarrow> pystr \<Rightarrow> pydict" where
  "transcribe_answer info job_name =
     [(str ''status'', PStr (str ''ok'')), (str ''transcribeJobId'', PStr job_name),
      (str ''transcriptS3Key'', PStr (ki_transcript_s3_key info))]"

definition handle_mock_event :: "(pystr \<Rightarrow> nat) \<Rightarrow> key_info \<Rightarrow> pydict prog" where
  "handle_mock_event digest0 info =
     bindP (lift (derive_mock_response digest0 (PStr (ki_employee_id info)))) (\<lambda>(call_result_code, transcript).
       case transcript of
         None \<Rightarrow> ret [(str ''status'', PStr (str ''skipped'')), (str ''reason'', PStr (str ''MOCK_NO_TRANSCRIPT'')),
                    (str ''callResultCode'', PStr (str call_result_code))]
       | Some words \<Rightarrow>
           bindP (lift (derive_transcribe_job_name (PStr (ki_meta_pk info)) (PStr (ki_meta_sk info)))) (\<lambda>job_name.
           thenP (put_mock_transcript info (build_mock_transcript_json job_name words))
           (thenP (record_transcript_meta info job_name)
           (ret (transcribe_answer info job_name)))))"

section \<open>The handler\<close>

definition transcribe_error_answer :: "key_info \<Rightarrow> pydict" where
  "transcribe_error_answer info =
     [(str ''status'', PStr (str ''error'')),
      (str ''kind'', PStr (str (case ki_kind info of Outbound \<Rightarrow> ''outbound'' | Inbound \<Rightarrow> ''inbound''))),
      (str ''reason'', PStr (str ''TRANSCRIBE_FAILED''))]"

definition transcribe_recording ::
  "(pyval \<Rightarrow> pystr) \<Rightarrow> transcribe_env \<Rightarrow> pystr \<Rightarrow> pyval \<Rightarrow> pyval \<Rightarrow> key_info \<Rightarrow> pydict prog" where
  "transcribe_recording show env language bucket object_key info =
     bindP (lift (derive_transcribe_job_name (PStr (ki_meta_pk info)) (PStr (ki_meta_sk info)))) (\<lambda>job_name.
     bindP (catchP
         (thenP (start_transcribe_job_with_retry show env language job_name bucket object_key info) (ret True))
         (\<lambda>e. if e = TranscribeExhaustedError
           then thenP (if ki_kind info = Outbound then record_transcribe_failed_on_response info else ret ())
             (ret False)
           else raise e))
       (\<lambda>started.
         if started then thenP (record_transcript_meta info job_name) (ret (transcribe_answer info job_name))
         else ret (transcribe_error_answer info)))"

definition transcribe_lambda_handler ::
  "(pystr \<Rightarrow> pystr) \<Rightarrow> (pyval \<Rightarrow> pystr) \<Rightarrow> (pystr \<Rightarrow> nat) \<Rightarrow> transcribe_env \<Rightarrow> pyval \<Rightarrow> pydict prog" where
  "transcribe_lambda_handler lower show digest0 env event =
     (let enabled = ts_mock_enabled lower env in
      bindP (lift (env_for_transcribe enabled (ts_language_code env))) (\<lambda>language.
      bindP (lift (transcribe_parse_event event)) (\<lambda>(bucket, object_key).
        case parse_recording_key object_key of
          None \<Rightarrow> raise ValueError
        | Some info \<Rightarrow>
            if enabled then handle_mock_event digest0 info
            else transcribe_recording show env language bucket object_key info)))"

section \<open>Facts\<close>

fun starts_job :: "req \<Rightarrow> bool" where
  "starts_job (StartTranscriptionJob d) = True"
| "starts_job _ = False"

text \<open>The writes of the handler: the two conditional ones.\<close>

fun transcribe_call :: "req \<Rightarrow> bool" where
  "transcribe_call (PutItem t item c) = (t = TranscriptMetaTable \<and> c = AttrNotExists ''cycleId'')"
| "transcribe_call (UpdateItem t key us c) = (\<exists>info. UpdateItem t key us c = transcribe_failed_request info)"
| "transcribe_call q = readonly q"

lemma transcribe_calls: "all_calls transcribe_call (transcribe_lambda_handler lower show digest0 env event)"
proof -
  have l: "all_calls transcribe_call (start_transcribe_job_with_retry show env l j b k info)" for l j b k info
    unfolding start_transcribe_job_with_retry_def
    by (rule retry_loop_calls)
      (auto simp: start_job_def start_job_request_def readonly_def intro!: all_calls_bindP all_calls_on_codes)
  have f: "transcribe_call (transcribe_failed_request info)" for info
    by (auto simp: transcribe_failed_request_def)
  show ?thesis
    unfolding transcribe_lambda_handler_def handle_mock_event_def transcribe_recording_def put_mock_transcript_def
      record_transcript_meta_def record_transcribe_failed_on_response_def Let_def
    by (auto simp: readonly_def f split: option.split prod.split
        intro!: all_calls_bindP all_calls_catchP all_calls_on_codes l)
qed

text \<open>The one change of a Response row, and what the handler may have done to the tables since \<open>r\<close>.\<close>

definition recorded_failed :: "pydict option \<Rightarrow> pydict option \<Rightarrow> bool" where
  "recorded_failed r r' \<longleftrightarrow>
     (\<exists>d. r = Some d \<and> dfind d ''callResultCode'' = Some (PStr (str ''RECORDED'')) \<and>
       r' = Some (dset d (str ''callResultCode'') (PStr (str ''TRANSCRIBE_FAILED''))))"

definition transcribe_rows ::
  "(ddb_table \<Rightarrow> pyval list \<Rightarrow> pydict option) \<Rightarrow> (ddb_table \<Rightarrow> pyval list \<Rightarrow> pydict option) \<Rightarrow> bool" where
  "transcribe_rows r r' \<longleftrightarrow>
     (\<forall>k. r' ResponseTable k = r ResponseTable k \<or> recorded_failed (r ResponseTable k) (r' ResponseTable k)) \<and>
     (\<forall>k d. r TranscriptMetaTable k = Some d \<longrightarrow> has_key d ''cycleId'' \<longrightarrow> r' TranscriptMetaTable k = Some d)"

lemma failed_write:
  "write_row (transcribe_failed_request info) r = (case r of
     Some d \<Rightarrow> if dfind d ''callResultCode'' = Some (PStr (str ''RECORDED''))
       then Some (Some (dset d (str ''callResultCode'') (PStr (str ''TRANSCRIBE_FAILED'')))) else None
   | None \<Rightarrow> None)"
  by (auto simp: transcribe_failed_request_def has_key_def split: option.split)

lemma failed_once: "recorded_failed r r' \<Longrightarrow> write_row (transcribe_failed_request info) r' = None"
  by (auto simp: recorded_failed_def failed_write)

context dynamodb begin

lemma transcribe_step:
  assumes "transcribe_call q" and "transcribe_rows r (row s)"
  shows "transcribe_rows r (row (snd (answer W s q)))"
proof -
  have b: "\<not> multi_write q" using assms(1) by (cases q) (auto simp: readonly_def)
  have i: "row s ResponseTable k = r ResponseTable k \<or> recorded_failed (r ResponseTable k) (row s ResponseTable k)"
    "r TranscriptMetaTable k = Some d \<Longrightarrow> has_key d ''cycleId'' \<Longrightarrow> row s TranscriptMetaTable k = Some d" for k d
    using assms(2) by (auto simp: transcribe_rows_def)
  consider (reads) "readonly q" | (put) item where "q = PutItem TranscriptMetaTable item (AttrNotExists ''cycleId'')"
    | (fail) info where "q = transcribe_failed_request info"
    using assms(1) by (cases q) auto
  then show ?thesis
  proof cases
    case reads
    then show ?thesis using assms(2) frame [of q s] by (simp add: readonly_def)
  next
    case put
    have "row (snd (answer W s q)) ResponseTable k = row s ResponseTable k" for k
      using row_after [OF b, of s ResponseTable k] put by simp
    moreover have "row (snd (answer W s q)) TranscriptMetaTable k = Some d"
      if "r TranscriptMetaTable k = Some d" "has_key d ''cycleId''" for k d
      using row_after [OF b, of s TranscriptMetaTable k] put i(2) [OF that] that(2) by simp
    ultimately show ?thesis using i(1) by (simp add: transcribe_rows_def)
  next
    case fail
    have t: "\<exists>k. write_target q = Some (ResponseTable, k)" by (simp add: fail transcribe_failed_request_def)
    have "row (snd (answer W s q)) TranscriptMetaTable k = row s TranscriptMetaTable k" for k
      using t row_after [OF b, of s TranscriptMetaTable k] by auto
    moreover have "row (snd (answer W s q)) ResponseTable k = r ResponseTable k \<or>
        recorded_failed (r ResponseTable k) (row (snd (answer W s q)) ResponseTable k)" for k
    proof (cases "recorded_failed (r ResponseTable k) (row s ResponseTable k)")
      case True
      then show ?thesis using row_after [OF b, of s ResponseTable k] failed_once [OF True, of info] fail by simp
    next
      case False
      then have "row s ResponseTable k = r ResponseTable k" using i(1) by blast
      then show ?thesis using row_after [OF b, of s ResponseTable k] fail
        by (cases "r ResponseTable k") (simp_all add: recorded_failed_def failed_write)
    qed
    ultimately show ?thesis using i(2) by (simp add: transcribe_rows_def)
  qed
qed

end

section \<open>Properties\<close>

text \<open>
  The mock transcript round-trips: what the matcher reads from the document the mock writes is
  the mock's text, with full confidence.
\<close>

theorem mock_transcript_roundtrip:
  "extract_transcript_payload (build_mock_transcript_json job_name words) = Inr (words, 1)"
proof -
  have d: "digit_value 49 = Some 1" "digit_value 48 = Some 0" "digit_value 46 = None"
    by (simp_all add: digit_value_def nd_blocks_def)
  have "py_strip [49, 46, 48] = [49, 46, 48]"
    by (rule py_strip_id) (auto simp: is_space_def spaces_def)
  then have "py_float_of_str (str ''1.0'') = Some 1"
    by (simp add: py_float_of_str_def str_def sign_part_def d exponent_part_def)
  then show ?thesis
    by (simp add: extract_transcript_payload_def build_mock_transcript_json_def item_confidence_def
        alternative_confidence_def py_float_def)
qed

text \<open>
  Property C35. Transcription changes a Response row in one way only, from \<open>RECORDED\<close> to
  \<open>TRANSCRIBE_FAILED\<close>, and never a recorded job: delivering the same event again is harmless.
\<close>

theorem transcription_changes:
  assumes "dynamodb W row"
  shows "transcribe_rows (row s) (row (snd (run W (transcribe_lambda_handler lower show digest0 env event) s)))"
proof (rule dynamodb.run_rows_invariant [OF assms transcribe_calls])
  show "transcribe_rows (row s) (row s)" by (simp add: transcribe_rows_def)
qed (rule dynamodb.transcribe_step [OF assms])

definition sample_transcribe_env :: transcribe_env where
  "sample_transcribe_env = \<lparr>ts_mock_mode = None, ts_environment_name = Some (str ''dev''),
     ts_language_code = Some (str ''ja-JP''), ts_transcripts_bucket = str ''t'', ts_kms_cmk_arn = str ''k''\<rparr>"

definition sample_recorded_event :: pyval where
  "sample_recorded_event = PDict [(str ''detail'', PDict
     [(str ''bucket'', PDict [(str ''name'', PStr (str ''b''))]),
      (str ''object'', PDict [(str ''key'',
        PStr (slashed ''recordings'' (str ''c'', str ''e'', nat_str 1) ''.wav''))])])]"

definition sample_recorded_store :: store where
  "sample_recorded_store = \<lparr>st_rows =
     [((ResponseTable, [PStr (str ''c''), PStr (str ''e'')]),
        [(str ''cycleId'', PStr (str ''c'')), (str ''callResultCode'', PStr (str ''RECORDED''))])],
     st_clock = 0, st_log = []\<rparr>"

theorem transcription_changes_witness:
  "transcribe_rows (store_row sample_recorded_store) (store_row (snd (run store_ops
     (transcribe_lambda_handler (\<lambda>s. s) str_of (\<lambda>s. 0) sample_transcribe_env sample_recorded_event)
     sample_recorded_store)))"
  by (rule transcription_changes [OF store.dynamodb_axioms])

end
