(* ===== verification/State_Machine.thy ===== *)
theory State_Machine
  imports Retry Cycle_Finalizer
begin

text \<open>
  The state machine \<open>infrastructure/state-machines/cycle-state-machine.asl.json\<close>: one iteration of its
  \<open>CallMap\<close>, for one employee, as a step relation. Between two steps any other part of the system may
  change the employee's Response row. The states that call a Lambda use that Lambda's model, and the
  states that write DynamoDB themselves use its requests.
\<close>

section \<open>An iteration\<close>

datatype asl_state =
    InitAttempt
  | DispatchCall
  | WaitForTranscribe
  | ReadResponse
  | EvaluateRetry
  | RetryChoice
  | WaitInterval
  | IncrementAttempt
  | FinalizeOne
  | FinalizeOneError
  | IterationEnd
  | IterationFailed

text \<open>What \<open>CallMap.Parameters\<close> passes in.\<close>

record iteration_input =
  im_cycle_id :: pystr
  im_employee_id :: pystr
  im_retry_count :: pyval
  im_interval :: pyval
  im_dictionary_version :: pyval

text \<open>
  The state's data: \<open>$.currentAttempt\<close>, the Response row in the table, \<open>$.responseRow.Item\<close> and
  \<open>$.evaluateResult\<close>; \<open>it_calls\<close> counts the invocations of \<open>connect_dispatcher\<close>.
\<close>

record iteration =
  it_state :: asl_state
  it_attempt :: int
  it_row :: "pydict option"
  it_read :: pydict
  it_eval :: pydict
  it_calls :: nat

definition iteration_start :: "pydict option \<Rightarrow> iteration" where
  "iteration_start r = \<lparr>it_state = InitAttempt, it_attempt = 1, it_row = r, it_read = [], it_eval = [], it_calls = 0\<rparr>"

definition iteration_key :: "iteration_input \<Rightarrow> pydict" where
  "iteration_key p = response_key (im_cycle_id p) (im_employee_id p)"

definition init_attempt_put :: "iteration_input \<Rightarrow> req" where
  "init_attempt_put p =
     PutItem ResponseTable
       (iteration_key p @
        [(str ''voiceStatus'', PStr (str ''PENDING'')), (str ''callAttempts'', PInt 0),
         (str ''dictionaryVersion'', im_dictionary_version p)])
       (AttrNotExists ''employeeId'')"

definition evaluate_payload :: "iteration_input \<Rightarrow> iteration \<Rightarrow> pyval \<Rightarrow> pystr \<Rightarrow> pydict" where
  "evaluate_payload p i voice_status entered =
     [(str ''cycleId'', PStr (im_cycle_id p)), (str ''employeeId'', PStr (im_employee_id p)),
      (str ''voiceStatus'', voice_status), (str ''attempts'', PInt (it_attempt i)),
      (str ''retryCount'', im_retry_count p), (str ''retryIntervalMinutes'', im_interval p),
      (str ''prevEndAt'', PStr entered)]"

definition finalize_one_update :: "iteration_input \<Rightarrow> pystr \<Rightarrow> pystr \<Rightarrow> req" where
  "finalize_one_update p final_status now =
     UpdateItem ResponseTable (iteration_key p)
       [SetAttr ''voiceStatus'' (PStr final_status), SetAttr ''finalizedAt'' (PStr now)] NoCond"

definition finalize_error_update :: "iteration_input \<Rightarrow> pystr \<Rightarrow> req" where
  "finalize_error_update p now =
     UpdateItem ResponseTable (iteration_key p)
       [SetAttr ''voiceStatus'' (PStr (str ''OTHER'')), SetAttr ''finalizedAt'' (PStr now),
        SetAttr ''sfnError'' (PStr (str ''SFN_ITERATION_FAILED''))] NoCond"

text \<open>
  One transition. A task that may fail has a second transition, to the state its \<open>Catch\<close> names, or to
  the failure of the whole map where it has none; the service's own retries of a task are within the
  transition.
\<close>

inductive iter_step :: "iteration_input \<Rightarrow> iteration \<Rightarrow> iteration \<Rightarrow> bool" for p where
  init_put: "it_state i = InitAttempt \<Longrightarrow> write_row (init_attempt_put p) (it_row i) = Some r \<Longrightarrow>
    iter_step p i (i\<lparr>it_state := DispatchCall, it_row := r\<rparr>)"
| init_exists: "it_state i = InitAttempt \<Longrightarrow> write_row (init_attempt_put p) (it_row i) = None \<Longrightarrow>
    iter_step p i (i\<lparr>it_state := DispatchCall\<rparr>)"
| init_fails: "it_state i = InitAttempt \<Longrightarrow> iter_step p i (i\<lparr>it_state := FinalizeOneError\<rparr>)"
| dispatched: "it_state i = DispatchCall \<Longrightarrow>
    iter_step p i (i\<lparr>it_state := WaitForTranscribe, it_calls := Suc (it_calls i)\<rparr>)"
| dispatch_fails: "it_state i = DispatchCall \<Longrightarrow>
    iter_step p i (i\<lparr>it_state := FinalizeOneError, it_calls := Suc (it_calls i)\<rparr>)"
| waited: "it_state i = WaitForTranscribe \<Longrightarrow> iter_step p i (i\<lparr>it_state := ReadResponse\<rparr>)"
| read_row: "it_state i = ReadResponse \<Longrightarrow>
    iter_step p i (i\<lparr>it_state := EvaluateRetry, it_read := (case it_row i of None \<Rightarrow> [] | Some d \<Rightarrow> d)\<rparr>)"
| read_fails: "it_state i = ReadResponse \<Longrightarrow> iter_step p i (i\<lparr>it_state := FinalizeOneError\<rparr>)"
| evaluated: "it_state i = EvaluateRetry \<Longrightarrow> is_str (dget (it_read i) ''voiceStatus'') \<Longrightarrow>
    exec (retry_lambda_handler (PDict (evaluate_payload p i (dget (it_read i) ''voiceStatus'') entered))) tr
      (Inr (PDict out)) \<Longrightarrow>
    iter_step p i (i\<lparr>it_state := RetryChoice, it_eval := out\<rparr>)"
| evaluate_fails: "it_state i = EvaluateRetry \<Longrightarrow> iter_step p i (i\<lparr>it_state := FinalizeOneError\<rparr>)"
| choice_retry: "it_state i = RetryChoice \<Longrightarrow> dget (it_eval i) ''retry'' = PBool True \<Longrightarrow>
    iter_step p i (i\<lparr>it_state := WaitInterval\<rparr>)"
| choice_final: "it_state i = RetryChoice \<Longrightarrow> dget (it_eval i) ''retry'' \<noteq> PBool True \<Longrightarrow>
    iter_step p i (i\<lparr>it_state := FinalizeOne\<rparr>)"
| interval_over: "it_state i = WaitInterval \<Longrightarrow> iter_step p i (i\<lparr>it_state := IncrementAttempt\<rparr>)"
| incremented: "it_state i = IncrementAttempt \<Longrightarrow>
    iter_step p i (i\<lparr>it_state := DispatchCall, it_attempt := it_attempt i + 1\<rparr>)"
| finalized: "it_state i = FinalizeOne \<Longrightarrow> dget (it_eval i) ''finalStatus'' = PStr f \<Longrightarrow>
    write_row (finalize_one_update p f now) (it_row i) = Some r \<Longrightarrow>
    iter_step p i (i\<lparr>it_state := IterationEnd, it_row := r\<rparr>)"
| finalize_fails: "it_state i = FinalizeOne \<Longrightarrow> iter_step p i (i\<lparr>it_state := IterationFailed\<rparr>)"
| error_written: "it_state i = FinalizeOneError \<Longrightarrow>
    write_row (finalize_error_update p now) (it_row i) = Some r \<Longrightarrow>
    iter_step p i (i\<lparr>it_state := IterationEnd, it_row := r\<rparr>)"
| error_fails: "it_state i = FinalizeOneError \<Longrightarrow> iter_step p i (i\<lparr>it_state := IterationFailed\<rparr>)"

text \<open>
  The configurations of an iteration after \<open>n\<close> transitions, the rest of the system changing the row in
  between as it likes.
\<close>

inductive iter_reach :: "iteration_input \<Rightarrow> nat \<Rightarrow> iteration \<Rightarrow> bool" for p where
  reach_start: "iter_reach p 0 (iteration_start r)"
| reach_step: "iter_reach p n i \<Longrightarrow> iter_step p i j \<Longrightarrow> iter_reach p (Suc n) j"
| reach_other: "iter_reach p n i \<Longrightarrow> iter_reach p n (i\<lparr>it_row := r\<rparr>)"

inductive_cases iter_stepE: "iter_step p i j"

section \<open>The invariant\<close>

text \<open>The position of a state in its attempt; an attempt is seven transitions.\<close>

fun position :: "asl_state \<Rightarrow> nat" where
  "position InitAttempt = 0"
| "position DispatchCall = 1"
| "position WaitForTranscribe = 2"
| "position ReadResponse = 3"
| "position EvaluateRetry = 4"
| "position RetryChoice = 5"
| "position WaitInterval = 6"
| "position IncrementAttempt = 7"
| "position FinalizeOne = 6"
| "position FinalizeOneError = 6"
| "position _ = 7"

definition final_state :: "asl_state \<Rightarrow> bool" where
  "final_state s \<longleftrightarrow> s = IterationEnd \<or> s = IterationFailed"

definition before_call :: "asl_state \<Rightarrow> bool" where
  "before_call s \<longleftrightarrow> s = InitAttempt \<or> s = DispatchCall"

text \<open>What an evaluation that is stored says.\<close>

definition evaluation_ok :: "int \<Rightarrow> int \<Rightarrow> pydict \<Rightarrow> bool" where
  "evaluation_ok a r ev \<longleftrightarrow>
     (if dget ev ''retry'' = PBool True then a < r
      else is_one_of (dget ev ''finalStatus'') terminal_final_statuses)"

definition iter_inv :: "int \<Rightarrow> nat \<Rightarrow> iteration \<Rightarrow> bool" where
  "iter_inv r n i \<longleftrightarrow>
     1 \<le> it_attempt i \<and> it_attempt i \<le> max 1 r \<and>
     (if before_call (it_state i) then int (it_calls i) = it_attempt i - 1 else int (it_calls i) \<le> it_attempt i) \<and>
     (it_state i \<in> {WaitForTranscribe, ReadResponse, EvaluateRetry, RetryChoice, WaitInterval, IncrementAttempt, FinalizeOne}
       \<longrightarrow> int (it_calls i) = it_attempt i) \<and>
     int n \<le> 7 * (it_attempt i - 1) + int (position (it_state i)) \<and>
     (it_state i \<in> {RetryChoice, WaitInterval, IncrementAttempt, FinalizeOne} \<longrightarrow>
        evaluation_ok (it_attempt i) r (it_eval i)) \<and>
     (it_state i \<in> {WaitInterval, IncrementAttempt} \<longrightarrow> dget (it_eval i) ''retry'' = PBool True) \<and>
     (it_state i = FinalizeOne \<longrightarrow> dget (it_eval i) ''retry'' \<noteq> PBool True)"

lemma retry_below_count: "should_retry v c (PInt a) (PInt r) = Inr True \<Longrightarrow> a < r"
  using should_retry_returns [of v c "PInt a" "PInt r" True] by (auto simp: is_one_of_iff should_retry_ints)

lemma evaluation_answers:
  assumes "exec (retry_lambda_handler (PDict (evaluate_payload p i v entered))) tr (Inr (PDict out))"
    and "im_retry_count p = PInt r"
  shows "evaluation_ok (it_attempt i) r out"
proof -
  let ?ev = "evaluate_payload p i v entered"
  have g: "dget ?ev ''attempts'' = PInt (it_attempt i)" "dget ?ev ''retryCount'' = PInt r"
    using assms(2) by (simp_all add: evaluate_payload_def)
  show ?thesis
    using retry_handler_cases [OF assms(1)] by (auto simp: evaluation_ok_def g dest: retry_below_count)
qed

lemma iter_inv_step:
  assumes "iter_inv r n i" and "iter_step p i j" and "im_retry_count p = PInt r"
  shows "iter_inv r (Suc n) j"
  using assms(2)
proof cases
  case (evaluated entered tr out)
  then show ?thesis using assms(1) evaluation_answers [OF evaluated(4) assms(3)]
    by (simp add: iter_inv_def before_call_def)
next
  case incremented
  then show ?thesis using assms(1) by (auto simp: iter_inv_def before_call_def evaluation_ok_def)
qed (use assms(1) in \<open>simp_all add: iter_inv_def before_call_def evaluation_ok_def\<close>)

lemma iter_reach_inv: "iter_reach p n i \<Longrightarrow> im_retry_count p = PInt r \<Longrightarrow> iter_inv r n i"
proof (induction rule: iter_reach.induct)
  case (reach_start x)
  then show ?case by (simp add: iter_inv_def iteration_start_def before_call_def)
next
  case (reach_step n i j)
  then show ?case using iter_inv_step by blast
next
  case (reach_other n i x)
  then show ?case by (simp add: iter_inv_def)
qed

lemma position_bound: "position s \<le> 7"
  by (cases s) simp_all

text \<open>Every state but the last two has a transition, so an iteration never gets stuck.\<close>

lemma iter_progress:
  assumes "\<not> final_state (it_state i)"
  shows "\<exists>j. iter_step p i j"
proof (cases "it_state i")
  case RetryChoice
  then show ?thesis by (cases "dget (it_eval i) ''retry'' = PBool True") (auto intro: choice_retry choice_final)
qed (use assms in \<open>auto simp: final_state_def intro: iter_step.intros\<close>)

text \<open>The two ways an iteration ends with a row written.\<close>

lemma iteration_writes:
  assumes "iter_reach p n i" and "im_retry_count p = PInt r" and "iter_step p i j" and "it_state j = IterationEnd"
  shows "\<exists>d v. it_row j = Some d \<and> dfind d ''voiceStatus'' = Some v \<and>
    (it_state i = FinalizeOne \<and> is_one_of v terminal_final_statuses \<or>
     it_state i = FinalizeOneError \<and> v = PStr (str ''OTHER''))"
  using assms(3)
proof cases
  case (finalized f now x)
  have "is_one_of (PStr f) terminal_final_statuses"
    using iter_reach_inv [OF assms(1,2)] finalized(2,3)
    by (auto simp: iter_inv_def evaluation_ok_def simp del: is_one_of.simps split: if_splits)
  then show ?thesis using finalized by (auto simp: finalize_one_update_def)
next
  case (error_written now x)
  then show ?thesis by (auto simp: finalize_error_update_def)
qed (use assms(4) in simp_all)

text \<open>A row with \<open>OTHER\<close> keeps its cycle from being complete.\<close>

lemma other_row_open:
  assumes "dfind d ''voiceStatus'' = Some (PStr (str ''OTHER''))" and "d \<in> set rows"
  shows "is_cycle_completed (rows_val rows) \<noteq> Inr True"
proof -
  have "dget d ''voiceStatus'' = PStr (str ''OTHER'')" using assms(1) by (simp add: dget_def)
  then have "\<not> row_terminal d" by (simp add: row_terminal_def terminal_voice_statuses_def confirmed_statuses_def)
  with assms(2) all_terminal_Inr_True [of rows] show ?thesis
    by (auto simp: is_cycle_completed_def list_all_iff)
qed

text \<open>A cycle with one call per employee: the iteration up to its last state, the employee unanswered.\<close>

definition unanswered :: pydict where
  "unanswered = [(str ''retry'', PBool False), (str ''retryWaitSeconds'', PInt 0), (str ''nextDispatchAt'', PNone),
     (str ''finalStatus'', PStr (str ''UNREACHABLE''))]"

lemma evaluate_unanswered:
  assumes "im_cycle_id p \<noteq> []" "im_employee_id p \<noteq> []" "im_retry_count p = PInt 1" "it_attempt i = 1"
  shows "exec (retry_lambda_handler (PDict (evaluate_payload p i (PStr (str ''PENDING'')) entered))) [] (Inr (PDict unanswered))"
proof -
  have "should_retry (PStr (str ''PENDING'')) c (PInt 1) (PInt 1) = Inr False" for c
    by (simp add: should_retry_ints valid_voice_statuses_def)
  then show ?thesis
    using assms by (simp add: retry_lambda_handler_def retry_parse_event_def retry_required_keys_def evaluate_payload_def
        has_key_def derive_final_status_def valid_voice_statuses_def confirmed_statuses_def unanswered_def)
qed

lemma reach_finalize_one:
  assumes "im_cycle_id p \<noteq> []" "im_employee_id p \<noteq> []" "im_retry_count p = PInt 1"
  obtains i where "iter_reach p 6 i" "it_state i = FinalizeOne" "it_eval i = unanswered" "it_calls i = 1"
proof -
  let ?r = "norm_row (iteration_key p @ [(str ''voiceStatus'', PStr (str ''PENDING'')), (str ''callAttempts'', PInt 0),
      (str ''dictionaryVersion'', im_dictionary_version p)])"
  let ?i = "\<lambda>st rd ev c. \<lparr>it_state = st, it_attempt = 1, it_row = Some ?r, it_read = rd, it_eval = ev, it_calls = c\<rparr>"
  have v: "dget ?r ''voiceStatus'' = PStr (str ''PENDING'')"
    by (simp add: norm_row_def iteration_key_def response_key_def)
  have 1: "iter_reach p 1 (?i DispatchCall [] [] 0)"
    using reach_step [OF reach_start [of p None] init_put [of _ p "Some ?r"]]
    by (simp add: iteration_start_def init_attempt_put_def)
  have 2: "iter_reach p 2 (?i WaitForTranscribe [] [] 1)"
    using reach_step [OF 1 dispatched] by (simp add: numeral_2_eq_2)
  have 3: "iter_reach p 3 (?i ReadResponse [] [] 1)"
    using reach_step [OF 2 waited] by (simp add: numeral_3_eq_3 numeral_2_eq_2)
  have 4: "iter_reach p 4 (?i EvaluateRetry ?r [] 1)"
    using reach_step [OF 3 read_row] by (simp add: eval_nat_numeral)
  have 5: "iter_reach p 5 (?i RetryChoice ?r unanswered 1)"
    using reach_step [OF 4 evaluated [of _ _ "[]" "[]" unanswered]]
      evaluate_unanswered [OF assms, of "?i EvaluateRetry ?r [] 1"] v
    by (simp add: eval_nat_numeral)
  have "iter_reach p 6 (?i FinalizeOne ?r unanswered 1)"
    using reach_step [OF 5 choice_final] by (simp add: eval_nat_numeral unanswered_def)
  then show thesis by (rule that) simp_all
qed

section \<open>Properties\<close>


text \<open>
  Every iteration comes to its end: at most \<open>7 * max 1 retryCount\<close> transitions are possible,
  and as long as it has not ended there is a next one.
\<close>

theorem iteration_ends:
  assumes "iter_reach p n i" and "im_retry_count p = PInt r"
  shows "int n \<le> 7 * max 1 r \<and> (final_state (it_state i) \<or> (\<exists>j. iter_step p i j))"
proof -
  have "int n \<le> 7 * (it_attempt i - 1) + int (position (it_state i))" "it_attempt i \<le> max 1 r"
    using iter_reach_inv [OF assms] by (auto simp: iter_inv_def)
  moreover have "int (position (it_state i)) \<le> 7" using position_bound [of "it_state i"] by simp
  ultimately have "int n \<le> 7 * it_attempt i" "7 * it_attempt i \<le> 7 * max 1 r" by simp_all
  then have "int n \<le> 7 * max 1 r" by (rule order_trans)
  then show ?thesis using iter_progress [of i p] by blast
qed

text \<open>
  Property C9. How an iteration ends: through \<open>FinalizeOne\<close> with one of the four final statuses, or
  through \<open>FinalizeOneError\<close> with \<open>OTHER\<close>; and a row of the second kind is not terminal for the cycle's
  completion check, although the state machine says it is.
\<close>

theorem iteration_outcome:
  assumes "iter_reach p n i" and "im_retry_count p = PInt r" and "iter_step p i j" and "it_state j = IterationEnd"
  shows "\<exists>d. it_row j = Some d \<and>
    (if it_state i = FinalizeOneError
     then dfind d ''voiceStatus'' = Some (PStr (str ''OTHER'')) \<and>
       (d \<in> set rows \<longrightarrow> is_cycle_completed (rows_val rows) \<noteq> Inr True)
     else is_one_of (dget d ''voiceStatus'') terminal_final_statuses \<and> row_terminal d)"
proof -
  obtain d v where d: "it_row j = Some d" "dfind d ''voiceStatus'' = Some v"
    "it_state i = FinalizeOne \<and> is_one_of v terminal_final_statuses \<or>
     it_state i = FinalizeOneError \<and> v = PStr (str ''OTHER'')"
    using iteration_writes [OF assms] by blast
  have g: "dget d ''voiceStatus'' = v" using d(2) by (simp add: dget_def)
  have "is_one_of v terminal_final_statuses \<Longrightarrow> row_terminal d"
    by (auto simp: row_terminal_def g is_one_of_iff terminal_final_statuses_def confirmed_statuses_def
        terminal_voice_statuses_def)
  with other_row_open [of d rows] show ?thesis using d g by auto
qed

definition sample_im :: iteration_input where
  "sample_im = \<lparr>im_cycle_id = str ''c'', im_employee_id = str ''e'', im_retry_count = PInt 1, im_interval = PInt 5,
     im_dictionary_version = PInt 3\<rparr>"

lemma sample_im_ok: "im_cycle_id sample_im \<noteq> []" "im_employee_id sample_im \<noteq> []" "im_retry_count sample_im = PInt 1"
  by (simp_all add: sample_im_def)


theorem iteration_ends_witness:
  "\<exists>i. iter_reach sample_im 6 i \<and> (int 6 \<le> 7 * max 1 1) \<and> (final_state (it_state i) \<or> (\<exists>j. iter_step sample_im i j))"
proof -
  obtain i where i: "iter_reach sample_im 6 i" by (rule reach_finalize_one [OF sample_im_ok])
  from iteration_ends [OF i sample_im_ok(3)] i show ?thesis by blast
qed

lemma finalize_over:
  assumes "it_state i = FinalizeOne" "it_eval i = unanswered"
  obtains j d where "iter_step p i j" "it_state j = IterationEnd" "it_row j = Some d"
    "dfind d ''voiceStatus'' = Some (PStr (str ''UNREACHABLE''))"
proof -
  have f: "dget (it_eval i) ''finalStatus'' = PStr (str ''UNREACHABLE'')" by (simp add: assms(2) unanswered_def)
  define d where "d = apply_upds (case it_row i of None \<Rightarrow> norm_row (iteration_key p) | Some d \<Rightarrow> d)
      [SetAttr ''voiceStatus'' (PStr (str ''UNREACHABLE'')), SetAttr ''finalizedAt'' (PStr [])]"
  have w: "write_row (finalize_one_update p (str ''UNREACHABLE'') []) (it_row i) = Some (Some d)"
      "dfind d ''voiceStatus'' = Some (PStr (str ''UNREACHABLE''))"
    unfolding d_def by (simp_all add: finalize_one_update_def)
  show thesis
  proof (rule that [OF finalized [OF assms(1) f w(1)]])
    show "it_row (i\<lparr>it_state := IterationEnd, it_row := Some d\<rparr>) = Some d" by simp
  qed (simp_all add: w(2))
qed

theorem iteration_outcome_witness:
  "\<exists>n i j d. iter_reach sample_im n i \<and> iter_step sample_im i j \<and> it_row j = Some d \<and> row_terminal d"
proof -
  obtain i where i: "iter_reach sample_im 6 i" "it_state i = FinalizeOne" "it_eval i = unanswered"
    by (rule reach_finalize_one [OF sample_im_ok])
  obtain j where j: "iter_step sample_im i j" "it_state j = IterationEnd" by (rule finalize_over [OF i(2,3)])
  from iteration_outcome [OF i(1) sample_im_ok(3) j] i j show ?thesis by auto
qed

text \<open>
  Property C40. A late answer is lost: the final status is written without a condition, so in a cycle with
  one call per employee a \<open>SAFE\<close> that reaches the row after \<open>ReadResponse\<close> is replaced by
  \<open>UNREACHABLE\<close>.
\<close>

theorem late_answer_lost:
  assumes "im_cycle_id p \<noteq> []" and "im_employee_id p \<noteq> []" and "im_retry_count p = PInt 1"
    and "dfind d ''voiceStatus'' = Some (PStr (str ''SAFE''))"
  shows "\<exists>n i j d'. iter_reach p n i \<and> it_row i = Some d \<and> iter_step p i j \<and> it_state j = IterationEnd \<and>
    it_row j = Some d' \<and> dfind d' ''voiceStatus'' = Some (PStr (str ''UNREACHABLE''))"
proof -
  obtain i where i: "iter_reach p 6 i" "it_state i = FinalizeOne" "it_eval i = unanswered"
    by (rule reach_finalize_one [OF assms(1-3)])
  have r: "iter_reach p 6 (i\<lparr>it_row := Some d\<rparr>)" by (rule reach_other [OF i(1)])
  obtain j d' where "iter_step p (i\<lparr>it_row := Some d\<rparr>) j" "it_state j = IterationEnd" "it_row j = Some d'"
      "dfind d' ''voiceStatus'' = Some (PStr (str ''UNREACHABLE''))"
    by (rule finalize_over [of "i\<lparr>it_row := Some d\<rparr>"]) (simp_all add: i)
  with r show ?thesis by (intro exI conjI) simp_all
qed

theorem late_answer_lost_witness:
  "\<exists>n i j d'. iter_reach sample_im n i \<and> it_row i = Some [(str ''voiceStatus'', PStr (str ''SAFE''))] \<and>
    iter_step sample_im i j \<and> it_row j = Some d' \<and> dfind d' ''voiceStatus'' = Some (PStr (str ''UNREACHABLE''))"
  using late_answer_lost [OF sample_im_ok, of "[(str ''voiceStatus'', PStr (str ''SAFE''))]"] by auto

end
