(* ===== verification/Cycle_Execution.thy ===== *)
theory Cycle_Execution
  imports State_Machine Load_Targets Cycle_Api
begin

text \<open>
  The execution that \<open>POST /cycles\<close> starts: the outer states of
  \<open>infrastructure/state-machines/cycle-state-machine.asl.json\<close> as a step relation around the iterations of
  \<open>State_Machine\<close>. The two Lambdas it invokes are their models; what it knows of the targets is the
  answer of \<open>load_targets\<close>.
\<close>

section \<open>The execution\<close>

datatype outer_state =
    NormalizeInput
  | LoadTargets
  | StartTimers
  | CallMap
  | Aggregate
  | FinalizeCycle
  | CycleFailed
  | ExecutionSucceeded
  | ExecutionFailed

text \<open>
  \<open>ex_data\<close> is the state's data without the results of the tasks, which are \<open>$.targetsResult.targets\<close> in
  \<open>ex_targets\<close> and \<open>$.finalizeResult\<close> in \<open>ex_result\<close>; \<open>ex_items\<close> has one entry per target, \<open>None\<close> before its
  iteration starts; \<open>ex_log\<close> collects what the two Lambdas did.
\<close>

record execution =
  ex_state :: outer_state
  ex_data :: pydict
  ex_targets :: "pydict list"
  ex_items :: "iteration option list"
  ex_result :: "finalizer_result option"
  ex_log :: "io list"

definition execution_start :: "pydict \<Rightarrow> execution" where
  "execution_start input = \<lparr>ex_state = NormalizeInput, ex_data = input, ex_targets = [], ex_items = [],
     ex_result = None, ex_log = []\<rparr>"

text \<open>\<open>States.JsonMerge(defaults, $, false)\<close>: the keys of the second object win.\<close>

definition json_merge :: "pydict \<Rightarrow> pydict \<Rightarrow> pydict" where
  "json_merge defaults input = input @ filter (\<lambda>(k, _). k \<notin> fst ` set input) defaults"

definition normalize_input :: "pydict \<Rightarrow> pydict" where
  "normalize_input input = json_merge [(str ''referencedCycleId'', PNone)] input"

definition load_payload :: "pydict \<Rightarrow> pyval" where
  "load_payload d = PDict [(str ''cycleId'', dget d ''cycleId''), (str ''mode'', dget d ''mode''),
     (str ''referencedCycleId'', dget d ''referencedCycleId'')]"

text \<open>What an iteration is given: \<open>CallMap.Parameters\<close>, and the employee's id within them.\<close>

definition item_input :: "pydict \<Rightarrow> pydict \<Rightarrow> iteration_input" where
  "item_input d target = \<lparr>im_cycle_id = str_of (dget d ''cycleId''),
     im_employee_id = str_of (dget target ''employeeId''), im_retry_count = dget d ''retryCount'',
     im_interval = dget d ''retryIntervalMinutes'', im_dictionary_version = dget d ''dictionaryVersion''\<rparr>"

definition finalize_payload :: "pystr \<Rightarrow> pystr \<Rightarrow> pyval" where
  "finalize_payload cycle_id execution_arn = PDict
     [(str ''trigger'', PStr (str ''MAP_COMPLETED'')), (str ''cycleId'', PStr cycle_id),
      (str ''executionArn'', PStr execution_arn)]"

lemma finalize_payload_handler:
  "c \<noteq> [] \<Longrightarrow> finalizer_lambda_handler fuel (finalize_payload c arn) = handle_map_completed fuel c"
  by (simp add: finalizer_lambda_handler_def finalizer_validate_event_def finalize_payload_def valid_triggers_def)

fun item_running :: "iteration option \<Rightarrow> bool" where
  "item_running None = False"
| "item_running (Some i) = (\<not> final_state (it_state i))"

fun item_ended :: "iteration option \<Rightarrow> bool" where
  "item_ended None = False"
| "item_ended (Some i) = (it_state i = IterationEnd)"

definition running_items :: "execution \<Rightarrow> nat" where
  "running_items e = length (filter item_running (ex_items e))"

text \<open>\<open>MaxConcurrency\<close>: 0 is no limit.\<close>

definition may_start_item :: "nat \<Rightarrow> execution \<Rightarrow> bool" where
  "may_start_item max_concurrent e \<longleftrightarrow> max_concurrent = 0 \<or> running_items e < max_concurrent"

text \<open>
  One transition. \<open>fuel\<close> bounds the pages of the Lambdas' queries, \<open>arn\<close> is \<open>$$.Execution.Id\<close>. A task
  that fails goes where its \<open>Catch\<close> says; \<open>load_lost\<close> and \<open>finalize_lost\<close> are failures of the Lambda
  service. A failed iteration fails the map. \<open>StartTimers\<close> and \<open>Aggregate\<close> pass their input on.
\<close>

inductive cycle_step :: "nat \<Rightarrow> nat \<Rightarrow> pystr \<Rightarrow> execution \<Rightarrow> execution \<Rightarrow> bool" for fuel max_concurrent arn where
  normalized: "ex_state e = NormalizeInput \<Longrightarrow>
    cycle_step fuel max_concurrent arn e (e\<lparr>ex_state := LoadTargets, ex_data := normalize_input (ex_data e)\<rparr>)"
| loaded: "ex_state e = LoadTargets \<Longrightarrow>
    exec (load_lambda_handler fuel (load_payload (ex_data e))) tr (Inr ans) \<Longrightarrow>
    dget ans ''targets'' = PList (map PDict ts) \<Longrightarrow>
    cycle_step fuel max_concurrent arn e
      (e\<lparr>ex_state := StartTimers, ex_targets := ts, ex_items := replicate (length ts) None, ex_log := ex_log e @ tr\<rparr>)"
| load_fails: "ex_state e = LoadTargets \<Longrightarrow>
    exec (load_lambda_handler fuel (load_payload (ex_data e))) tr (Inl err) \<Longrightarrow>
    cycle_step fuel max_concurrent arn e (e\<lparr>ex_state := CycleFailed, ex_log := ex_log e @ tr\<rparr>)"
| load_lost: "ex_state e = LoadTargets \<Longrightarrow>
    cycle_step fuel max_concurrent arn e (e\<lparr>ex_state := CycleFailed\<rparr>)"
| timers_passed: "ex_state e = StartTimers \<Longrightarrow>
    cycle_step fuel max_concurrent arn e (e\<lparr>ex_state := CallMap\<rparr>)"
| item_starts: "ex_state e = CallMap \<Longrightarrow> k < length (ex_items e) \<Longrightarrow> ex_items e ! k = None \<Longrightarrow>
    may_start_item max_concurrent e \<Longrightarrow>
    cycle_step fuel max_concurrent arn e (e\<lparr>ex_items := (ex_items e)[k := Some (iteration_start r)]\<rparr>)"
| item_steps: "ex_state e = CallMap \<Longrightarrow> k < length (ex_items e) \<Longrightarrow> ex_items e ! k = Some i \<Longrightarrow>
    iter_step (item_input (ex_data e) (ex_targets e ! k)) i j \<Longrightarrow>
    cycle_step fuel max_concurrent arn e
      (e\<lparr>ex_items := (ex_items e)[k := Some j],
         ex_state := if it_state j = IterationFailed then CycleFailed else CallMap\<rparr>)"
| map_done: "ex_state e = CallMap \<Longrightarrow> list_all item_ended (ex_items e) \<Longrightarrow>
    cycle_step fuel max_concurrent arn e (e\<lparr>ex_state := Aggregate\<rparr>)"
| aggregated: "ex_state e = Aggregate \<Longrightarrow>
    cycle_step fuel max_concurrent arn e (e\<lparr>ex_state := FinalizeCycle\<rparr>)"
| finalize_done: "ex_state e = FinalizeCycle \<Longrightarrow>
    exec (finalizer_lambda_handler fuel (finalize_payload (str_of (dget (ex_data e) ''cycleId'')) arn)) tr (Inr out) \<Longrightarrow>
    cycle_step fuel max_concurrent arn e
      (e\<lparr>ex_state := ExecutionSucceeded, ex_result := Some out, ex_log := ex_log e @ tr\<rparr>)"
| finalize_raises: "ex_state e = FinalizeCycle \<Longrightarrow>
    exec (finalizer_lambda_handler fuel (finalize_payload (str_of (dget (ex_data e) ''cycleId'')) arn)) tr (Inl err) \<Longrightarrow>
    cycle_step fuel max_concurrent arn e (e\<lparr>ex_state := ExecutionFailed, ex_log := ex_log e @ tr\<rparr>)"
| finalize_lost: "ex_state e = FinalizeCycle \<Longrightarrow>
    cycle_step fuel max_concurrent arn e (e\<lparr>ex_state := ExecutionFailed\<rparr>)"

text \<open>
  The configurations after \<open>n\<close> transitions of an execution that was given \<open>input\<close>. Between transitions
  other parts of the system change the row of any employee, and the execution can be stopped, as
  \<open>cycle_finalizer\<close> does at its timeout.
\<close>

inductive cycle_reach :: "nat \<Rightarrow> nat \<Rightarrow> pystr \<Rightarrow> pydict \<Rightarrow> nat \<Rightarrow> execution \<Rightarrow> bool" for fuel max_concurrent arn input where
  execution_begins: "cycle_reach fuel max_concurrent arn input 0 (execution_start input)"
| execution_moves: "cycle_reach fuel max_concurrent arn input n e \<Longrightarrow> cycle_step fuel max_concurrent arn e e' \<Longrightarrow>
    cycle_reach fuel max_concurrent arn input (Suc n) e'"
| row_changes: "cycle_reach fuel max_concurrent arn input n e \<Longrightarrow> k < length (ex_items e) \<Longrightarrow>
    ex_items e ! k = Some i \<Longrightarrow>
    cycle_reach fuel max_concurrent arn input n (e\<lparr>ex_items := (ex_items e)[k := Some (i\<lparr>it_row := r\<rparr>)]\<rparr>)"
| execution_stopped: "cycle_reach fuel max_concurrent arn input n e \<Longrightarrow>
    ex_state e \<notin> {ExecutionSucceeded, ExecutionFailed, CycleFailed} \<Longrightarrow>
    cycle_reach fuel max_concurrent arn input n (e\<lparr>ex_state := ExecutionFailed\<rparr>)"

inductive_cases cycle_stepE: "cycle_step fuel max_concurrent arn e e'"

definition execution_over :: "execution \<Rightarrow> bool" where
  "execution_over e \<longleftrightarrow> ex_state e \<in> {ExecutionSucceeded, ExecutionFailed, CycleFailed}"

definition total_calls :: "execution \<Rightarrow> nat" where
  "total_calls e = sum_list (map (\<lambda>x. case x of None \<Rightarrow> 0 | Some i \<Rightarrow> it_calls i) (ex_items e))"

section \<open>The invariant\<close>

fun outer_position :: "outer_state \<Rightarrow> nat" where
  "outer_position NormalizeInput = 0"
| "outer_position LoadTargets = 1"
| "outer_position StartTimers = 2"
| "outer_position CallMap = 3"
| "outer_position Aggregate = 4"
| "outer_position FinalizeCycle = 5"
| "outer_position _ = 6"

text \<open>The transitions \<open>c\<close> made so far for one target, its start included.\<close>

fun item_ok :: "iteration_input \<Rightarrow> iteration option \<Rightarrow> nat \<Rightarrow> bool" where
  "item_ok p None c \<longleftrightarrow> c = 0"
| "item_ok p (Some i) c \<longleftrightarrow> (\<exists>n. c = Suc n \<and> iter_reach p n i)"

definition items_ok :: "pydict \<Rightarrow> pydict list \<Rightarrow> iteration option list \<Rightarrow> nat list \<Rightarrow> bool" where
  "items_ok d ts xs cs \<longleftrightarrow> length ts = length xs \<and> length cs = length xs \<and>
     (\<forall>k < length xs. item_ok (item_input d (ts ! k)) (xs ! k) (cs ! k))"

definition exec_inv :: "pydict \<Rightarrow> nat \<Rightarrow> execution \<Rightarrow> bool" where
  "exec_inv input n e \<longleftrightarrow>
     dget (ex_data e) ''retryCount'' = dget input ''retryCount'' \<and>
     (ex_state e \<in> {NormalizeInput, LoadTargets} \<longrightarrow> ex_items e = []) \<and>
     (\<exists>cs. items_ok (ex_data e) (ex_targets e) (ex_items e) cs \<and> n \<le> outer_position (ex_state e) + sum_list cs)"

lemma exec_invI:
  assumes "dget (ex_data e) ''retryCount'' = dget input ''retryCount''"
    and "ex_state e \<in> {NormalizeInput, LoadTargets} \<Longrightarrow> ex_items e = []"
    and "items_ok (ex_data e) (ex_targets e) (ex_items e) cs" and "n \<le> outer_position (ex_state e) + sum_list cs"
  shows "exec_inv input n e"
  using assms by (auto simp: exec_inv_def)

lemma normalize_input_get [simp]: "dget (normalize_input d) ''retryCount'' = dget d ''retryCount''"
proof -
  have "dfind (normalize_input d) ''retryCount'' = dfind d ''retryCount''"
    by (cases "dfind d ''retryCount''")
      (auto simp: normalize_input_def json_merge_def dfind_def map_add_def str_def split: option.splits)
  then show ?thesis by (simp add: dget_def)
qed

lemma outer_position_le: "outer_position s \<le> 6"
  by (cases s) simp_all

text \<open>An entry of the map changes, and its count with it.\<close>

lemma items_ok_update:
  assumes "items_ok d ts xs cs" and "k < length xs" and "item_ok (item_input d (ts ! k)) x c"
  shows "items_ok d ts (xs[k := x]) (cs[k := c])"
  using assms by (auto simp: items_ok_def nth_list_update)

lemma items_ok_nth: "items_ok d ts xs cs \<Longrightarrow> k < length xs \<Longrightarrow> item_ok (item_input d (ts ! k)) (xs ! k) (cs ! k)"
  by (simp add: items_ok_def)

lemma items_ok_length: "items_ok d ts xs cs \<Longrightarrow> length ts = length xs \<and> length cs = length xs"
  by (simp add: items_ok_def)

lemma sum_list_update_Suc: "k < length cs \<Longrightarrow> sum_list (cs[k := Suc (cs ! k)]) = Suc (sum_list cs)"
  using member_le_sum_list [of "cs ! k" cs] by (simp add: sum_list_update)

lemma exec_inv_item:
  assumes "items_ok (ex_data e) (ex_targets e) (ex_items e) cs" and "n \<le> 3 + sum_list cs"
    and "dget (ex_data e) ''retryCount'' = dget input ''retryCount''" and "k < length (ex_items e)"
    and "item_ok (item_input (ex_data e) (ex_targets e ! k)) x (Suc (cs ! k))"
    and "s = CallMap \<or> s = CycleFailed"
  shows "exec_inv input (Suc n) (e\<lparr>ex_items := (ex_items e)[k := x], ex_state := s\<rparr>)"
proof (rule exec_invI)
  show "items_ok (ex_data (e\<lparr>ex_items := (ex_items e)[k := x], ex_state := s\<rparr>))
      (ex_targets (e\<lparr>ex_items := (ex_items e)[k := x], ex_state := s\<rparr>))
      (ex_items (e\<lparr>ex_items := (ex_items e)[k := x], ex_state := s\<rparr>)) (cs[k := Suc (cs ! k)])"
    using items_ok_update [OF assms(1,4,5)] by simp
  have "k < length cs" using assms(1,4) by (simp add: items_ok_def)
  then show "Suc n \<le> outer_position (ex_state (e\<lparr>ex_items := (ex_items e)[k := x], ex_state := s\<rparr>)) +
      sum_list (cs[k := Suc (cs ! k)])"
    using assms(2,6) by (auto simp: sum_list_update_Suc)
qed (use assms(3,6) in auto)

lemma exec_inv_step:
  assumes "exec_inv input n e" and "cycle_step fuel m arn e e'"
  shows "exec_inv input (Suc n) e'"
proof -
  obtain cs where cs: "items_ok (ex_data e) (ex_targets e) (ex_items e) cs"
      "n \<le> outer_position (ex_state e) + sum_list cs"
    and rc: "dget (ex_data e) ''retryCount'' = dget input ''retryCount''"
    and early: "ex_state e \<in> {NormalizeInput, LoadTargets} \<Longrightarrow> ex_items e = []"
    using assms(1) by (auto simp: exec_inv_def)
  from assms(2) show ?thesis
  proof cases
    case normalized
    then have "cs = []" using cs(1) early by (simp add: items_ok_def)
    then show ?thesis using normalized cs early rc
      by (intro exec_invI [of _ _ "[]"]) (simp_all add: items_ok_def)
  next
    case (loaded tr ans ts)
    then have "cs = []" using cs(1) early by (simp add: items_ok_def)
    then show ?thesis using loaded cs early rc
      by (intro exec_invI [of _ _ "replicate (length ts) 0"]) (simp_all add: items_ok_def)
  next
    case (item_starts k r)
    have c0: "cs ! k = 0" using items_ok_nth [OF cs(1), of k] item_starts by simp
    have "item_ok (item_input (ex_data e) (ex_targets e ! k)) (Some (iteration_start r)) (Suc (cs ! k))"
      unfolding c0 using reach_start by auto
    from exec_inv_item [OF cs(1) _ rc _ this, of n CallMap] item_starts cs(2)
    have "exec_inv input (Suc n) (e\<lparr>ex_items := (ex_items e)[k := Some (iteration_start r)], ex_state := CallMap\<rparr>)"
      by simp
    moreover have "e\<lparr>ex_items := xs, ex_state := CallMap\<rparr> = e\<lparr>ex_items := xs\<rparr>" for xs
      using item_starts(2) by (cases e) simp
    ultimately show ?thesis using item_starts(1) by simp
  next
    case (item_steps k i j)
    obtain l where l: "cs ! k = Suc l" "iter_reach (item_input (ex_data e) (ex_targets e ! k)) l i"
      using items_ok_nth [OF cs(1), of k] item_steps by auto
    have "item_ok (item_input (ex_data e) (ex_targets e ! k)) (Some j) (Suc (cs ! k))"
      using l reach_step [OF l(2) item_steps(5)] by auto
    from exec_inv_item [OF cs(1) _ rc _ this, of n "if it_state j = IterationFailed then CycleFailed else CallMap"]
      item_steps cs(2) show ?thesis by simp
  qed (use cs rc in \<open>auto intro!: exec_invI [of _ _ cs]\<close>)
qed

lemma exec_inv_row:
  assumes "exec_inv input n e" and "k < length (ex_items e)" and "ex_items e ! k = Some i"
  shows "exec_inv input n (e\<lparr>ex_items := (ex_items e)[k := Some (i\<lparr>it_row := r\<rparr>)]\<rparr>)"
proof -
  obtain cs where cs: "items_ok (ex_data e) (ex_targets e) (ex_items e) cs"
      "n \<le> outer_position (ex_state e) + sum_list cs"
    using assms(1) by (auto simp: exec_inv_def)
  have "item_ok (item_input (ex_data e) (ex_targets e ! k)) (Some (i\<lparr>it_row := r\<rparr>)) (cs ! k)"
    using items_ok_nth [OF cs(1) assms(2)] assms(3) by (auto intro: reach_other)
  from items_ok_update [OF cs(1) assms(2) this] cs(2) assms(1,2) show ?thesis
    by (auto simp: exec_inv_def)
qed

lemma cycle_reach_inv: "cycle_reach fuel m arn input n e \<Longrightarrow> exec_inv input n e"
proof (induction rule: cycle_reach.induct)
  case execution_begins
  then show ?case by (simp add: exec_inv_def execution_start_def items_ok_def)
next
  case (execution_stopped n e)
  obtain cs where "items_ok (ex_data e) (ex_targets e) (ex_items e) cs"
      "n \<le> outer_position (ex_state e) + sum_list cs"
    using execution_stopped(3) by (auto simp: exec_inv_def)
  then show ?case
    using execution_stopped(3) outer_position_le [of "ex_state e"]
    by (intro exec_invI [of _ _ cs]) (auto simp: exec_inv_def)
qed (auto intro: exec_inv_step exec_inv_row)

text \<open>What holds of the entries of the map in every state.\<close>

definition map_inv :: "nat \<Rightarrow> execution \<Rightarrow> bool" where
  "map_inv m e \<longleftrightarrow>
     (ex_state e \<in> {NormalizeInput, LoadTargets} \<longrightarrow> ex_items e = []) \<and>
     (m \<noteq> 0 \<longrightarrow> running_items e \<le> m) \<and>
     (ex_state e = CallMap \<longrightarrow> (\<forall>i. Some i \<in> set (ex_items e) \<longrightarrow> it_state i \<noteq> IterationFailed)) \<and>
     (ex_state e = StartTimers \<longrightarrow> (\<forall>x\<in>set (ex_items e). x = None)) \<and>
     (ex_state e \<in> {Aggregate, FinalizeCycle, ExecutionSucceeded} \<longrightarrow> list_all item_ended (ex_items e)) \<and>
     (ex_result e \<noteq> None \<longleftrightarrow> ex_state e = ExecutionSucceeded) \<and>
     (ex_state e \<notin> {ExecutionSucceeded, ExecutionFailed} \<longrightarrow> effects (ex_log e) = [])"

lemma running_update:
  "k < length xs \<Longrightarrow> length (filter P (xs[k := x])) + of_bool (P (xs ! k)) = length (filter P xs) + of_bool (P x)"
proof (induction xs arbitrary: k)
  case (Cons y xs)
  then show ?case by (cases k) force+
qed simp

lemma quiet_load: "all_calls quiet (load_lambda_handler fuel ev)"
proof -
  have pages: "all_calls quiet (pages stop n (Scan t) k)" for stop n t k
    by (induction n arbitrary: k) (auto simp: Let_def intro!: all_calls_bindP)
  have unreach: "all_calls quiet (unreachable_pages n r k)" for n r k
    by (induction n arbitrary: k) (auto simp: Let_def intro!: all_calls_bindP)
  have "quiet (BatchGet t ks)" for t ks by (simp add: quiet_def readonly_def)
  then have drain: "all_calls quiet (batch_drain n ks)" for n ks
    by (induction n ks rule: batch_drain.induct) (auto intro!: all_calls_bindP)
  have batch: "all_calls quiet (batch_chunks fuel cs)" for cs
    by (induction fuel cs rule: batch_chunks.induct) (auto intro!: all_calls_bindP drain)
  show ?thesis
    by (auto simp: load_lambda_handler_def load_candidates_def scan_all_employees_def batch_get_employees_def
        query_unreachable_response_ids_def split: option.splits intro!: all_calls_bindP pages unreach batch)
qed

lemma running_replace:
  assumes "k < length (ex_items e)"
  shows "running_items (e\<lparr>ex_items := (ex_items e)[k := x]\<rparr>) + of_bool (item_running (ex_items e ! k)) =
    running_items e + of_bool (item_running x)"
  using running_update [OF assms, of item_running x] by (simp add: running_items_def)

lemma running_state [simp]:
  "running_items (e\<lparr>ex_state := st\<rparr>) = running_items e" "running_items (e\<lparr>ex_data := d\<rparr>) = running_items e"
  "running_items (e\<lparr>ex_log := l\<rparr>) = running_items e" "running_items (e\<lparr>ex_result := x\<rparr>) = running_items e"
  by (simp_all add: running_items_def)

lemma iter_step_live: "iter_step p i j \<Longrightarrow> \<not> final_state (it_state i)"
  by (erule iter_stepE) (simp_all add: final_state_def)

lemma set_update_mem: "y \<in> set (xs[k := x]) \<Longrightarrow> y = x \<or> y \<in> set xs"
  using set_update_subset_insert [of xs k x] by auto

lemma map_inv_step:
  assumes "map_inv m e" and "cycle_step fuel m arn e e'"
  shows "map_inv m e'"
  using assms(2)
proof cases
  case (loaded tr ans ts)
  then show ?thesis using assms(1) quiet_effects [OF quiet_load loaded(3)]
    by (auto simp: map_inv_def running_items_def)
next
  case (load_fails tr err)
  then show ?thesis using assms(1) quiet_effects [OF quiet_load load_fails(3)]
    by (auto simp: map_inv_def)
next
  case (item_starts k r)
  have "running_items e' \<le> Suc (running_items e)" "m \<noteq> 0 \<Longrightarrow> running_items e < m"
    using running_replace [OF item_starts(3), of "Some (iteration_start r)"] item_starts
    by (auto simp: may_start_item_def of_bool_def split: if_splits)
  then show ?thesis using assms(1) item_starts
    by (auto simp: map_inv_def iteration_start_def dest!: set_update_mem)
next
  case (item_steps k i j)
  have "running_items e' \<le> running_items e"
    using running_replace [OF item_steps(3), of "Some j"] item_steps iter_step_live [OF item_steps(5)]
    by (auto simp: running_items_def of_bool_def split: if_splits)
  then show ?thesis using assms(1) item_steps
    by (auto simp: map_inv_def dest!: set_update_mem)
qed (use assms(1) in \<open>auto simp: map_inv_def\<close>)

lemma map_inv_row:
  assumes "map_inv m e" and "k < length (ex_items e)" and "ex_items e ! k = Some i"
  shows "map_inv m (e\<lparr>ex_items := (ex_items e)[k := Some (i\<lparr>it_row := r\<rparr>)]\<rparr>)" (is "map_inv m ?e")
proof -
  have "running_items ?e = running_items e"
    using running_replace [OF assms(2), of "Some (i\<lparr>it_row := r\<rparr>)"] assms(3) by simp
  moreover have i: "Some i \<in> set (ex_items e)" using nth_mem [OF assms(2)] assms(3) by simp
  moreover have "list_all item_ended (ex_items ?e)" if "list_all item_ended (ex_items e)"
  proof -
    have "item_ended (Some (i\<lparr>it_row := r\<rparr>))" using that i by (auto simp: list_all_iff)
    then show ?thesis using that by (auto simp: list_all_iff simp del: item_ended.simps dest!: set_update_mem)
  qed
  moreover have "it_state j \<noteq> IterationFailed" if "ex_state e = CallMap" "Some j \<in> set (ex_items ?e)" for j
    using that i assms(1) by (auto simp: map_inv_def dest!: set_update_mem)
  ultimately show ?thesis using assms(1) by (auto simp: map_inv_def)
qed

lemma cycle_reach_map_inv: "cycle_reach fuel m arn input n e \<Longrightarrow> map_inv m e"
proof (induction rule: cycle_reach.induct)
  case execution_begins
  then show ?case by (simp add: map_inv_def execution_start_def running_items_def)
next
  case (execution_stopped n e)
  then show ?case by (auto simp: map_inv_def)
qed (auto intro: map_inv_step map_inv_row)

section \<open>Calls and transitions\<close>

lemma sum_list_bound: "\<forall>x\<in>set xs. x \<le> b \<Longrightarrow> sum_list xs \<le> length xs * (b::nat)"
  by (induction xs) auto

lemma item_bounds:
  assumes "cycle_reach fuel m arn input n e" and "dget input ''retryCount'' = PInt r"
    and "k < length (ex_items e)" and "ex_items e ! k = Some i"
  obtains l where "iter_reach (item_input (ex_data e) (ex_targets e ! k)) l i"
    "im_retry_count (item_input (ex_data e) (ex_targets e ! k)) = PInt r"
proof -
  obtain cs where cs: "items_ok (ex_data e) (ex_targets e) (ex_items e) cs"
      "dget (ex_data e) ''retryCount'' = dget input ''retryCount''"
    using cycle_reach_inv [OF assms(1)] by (auto simp: exec_inv_def)
  then show thesis using items_ok_nth [OF cs(1) assms(3)] assms(2,4) that
    by (auto simp: item_input_def)
qed

lemma iter_calls:
  assumes "iter_inv r n i"
  shows "it_calls i \<le> nat (max 1 r)"
proof -
  have "int (it_calls i) \<le> max 1 r" using assms by (auto simp: iter_inv_def split: if_splits)
  then have "nat (int (it_calls i)) \<le> nat (max 1 r)" by (rule nat_mono)
  then show ?thesis by simp
qed

lemma iter_transitions:
  assumes "iter_inv r n i"
  shows "n \<le> 7 * nat (max 1 r)"
proof -
  have "int n \<le> 7 * (it_attempt i - 1) + int (position (it_state i))" "it_attempt i \<le> max 1 r"
    using assms by (auto simp: iter_inv_def)
  then have "int n \<le> 7 * it_attempt i" "7 * it_attempt i \<le> 7 * max 1 r"
    using position_bound [of "it_state i"] by simp_all
  then have "int n \<le> 7 * max 1 r" by (rule order_trans)
  then have "int n \<le> int (7 * nat (max 1 r))" by simp
  then show ?thesis by (simp only: of_nat_le_iff)
qed

lemma calls_within:
  assumes "cycle_reach fuel m arn input n e" and "dget input ''retryCount'' = PInt r"
  shows "total_calls e \<le> length (ex_targets e) * nat (max 1 r)"
proof -
  have "x \<le> nat (max 1 r)" if x: "x \<in> set (map (\<lambda>x. case x of None \<Rightarrow> 0 | Some i \<Rightarrow> it_calls i) (ex_items e))" for x
  proof -
    obtain k where k: "k < length (ex_items e)" "x = (case ex_items e ! k of None \<Rightarrow> 0 | Some i \<Rightarrow> it_calls i)"
      using x by (auto simp: in_set_conv_nth)
    show ?thesis
    proof (cases "ex_items e ! k")
      case (Some i)
      with item_bounds [OF assms k(1)] iter_reach_inv iter_calls k(2) show ?thesis by (metis option.simps(5))
    qed (use k in simp)
  qed
  moreover have "length (ex_targets e) = length (ex_items e)"
    using cycle_reach_inv [OF assms(1)] by (auto simp: exec_inv_def items_ok_def)
  ultimately show ?thesis unfolding total_calls_def by (metis (no_types, lifting) sum_list_bound length_map)
qed

lemma transitions_within:
  assumes "cycle_reach fuel m arn input n e" and "dget input ''retryCount'' = PInt r"
  shows "n \<le> 6 + length (ex_targets e) * (1 + 7 * nat (max 1 r))"
proof -
  obtain cs where cs: "items_ok (ex_data e) (ex_targets e) (ex_items e) cs"
      "n \<le> outer_position (ex_state e) + sum_list cs"
    using cycle_reach_inv [OF assms(1)] by (auto simp: exec_inv_def)
  have "c \<le> 1 + 7 * nat (max 1 r)" if c: "c \<in> set cs" for c
  proof -
    obtain k where k: "k < length cs" "c = cs ! k" using c by (auto simp: in_set_conv_nth)
    then have k': "k < length (ex_items e)" using cs(1) by (simp add: items_ok_def)
    note ok = items_ok_nth [OF cs(1) k']
    show ?thesis
    proof (cases "ex_items e ! k")
      case None
      then show ?thesis using ok k(2) by simp
    next
      case (Some i)
      then obtain l where l: "c = Suc l" "iter_reach (item_input (ex_data e) (ex_targets e ! k)) l i"
        using ok k(2) by auto
      have "im_retry_count (item_input (ex_data e) (ex_targets e ! k)) = PInt r"
        by (rule item_bounds [OF assms k' Some]) simp
      from iter_transitions [OF iter_reach_inv [OF l(2) this]] l(1) show ?thesis by simp
    qed
  qed
  then have "sum_list cs \<le> length cs * (1 + 7 * nat (max 1 r))" by (intro sum_list_bound) blast
  then show ?thesis using cs outer_position_le [of "ex_state e"] by (simp add: items_ok_def)
qed

text \<open>As long as it is not over, an execution has a next transition.\<close>

lemma map_progress:
  assumes "map_inv m e" and "ex_state e = CallMap"
  shows "\<exists>e'. cycle_step fuel m arn e e'"
proof (cases "\<exists>k < length (ex_items e). item_running (ex_items e ! k)")
  case True
  then obtain k i where k: "k < length (ex_items e)" "ex_items e ! k = Some i" "\<not> final_state (it_state i)"
    by (metis item_running.elims(2))
  from iter_progress [OF k(3)] item_steps [OF assms(2) k(1,2)] show ?thesis by blast
next
  case False
  then have "running_items e = 0"
    by (auto simp: running_items_def filter_empty_conv in_set_conv_nth)
  then have may: "may_start_item m e" by (auto simp: may_start_item_def)
  show ?thesis
  proof (cases "\<exists>k < length (ex_items e). ex_items e ! k = None")
    case True
    with item_starts [OF assms(2) _ _ may] show ?thesis by blast
  next
    case none: False
    have "item_ended x" if x: "x \<in> set (ex_items e)" for x
    proof (cases x)
      case None
      then show ?thesis using none x by (auto simp: in_set_conv_nth)
    next
      case (Some i)
      moreover have "final_state (it_state i)" using False x Some by (auto simp: in_set_conv_nth)
      ultimately show ?thesis using assms x by (auto simp: map_inv_def final_state_def)
    qed
    then have "list_all item_ended (ex_items e)" by (simp add: list_all_iff)
    then show ?thesis by (blast intro: map_done [OF assms(2)])
  qed
qed

lemma cycle_progress:
  assumes "map_inv m e" and "\<not> execution_over e"
  shows "\<exists>e'. cycle_step fuel m arn e e'"
proof (cases "ex_state e")
  case CallMap
  then show ?thesis by (rule map_progress [OF assms(1)])
qed (use assms(2) in \<open>auto simp: execution_over_def intro: cycle_step.intros\<close>)

lemma over_stays: "cycle_step fuel m arn e e' \<Longrightarrow> \<not> execution_over e"
  by (erule cycle_stepE) (simp_all add: execution_over_def)

text \<open>Every target is one \<open>load_targets\<close> answered, with a number to call.\<close>

lemma loaded_targets:
  assumes "exec (load_lambda_handler fuel ev) tr (Inr ans)" and "dget ans ''targets'' = PList (map PDict ts)"
    and "t \<in> set ts"
  shows "nonempty_str (dget t ''phoneNumber'')"
proof -
  obtain c m cands where "load_select c m cands = Inr ans"
    using assms(1) by (auto simp: load_lambda_handler_def exec_bindP split: prod.splits)
  from load_select_targets [OF this] obtain targets where t: "ans = load_answer c m targets"
    "\<And>t. t \<in> set targets \<Longrightarrow> \<exists>emp\<in>set cands. is_visible (PDict emp) \<and> target_of t emp" by blast
  have "inj PDict" by (rule injI) simp
  moreover have "map PDict ts = map PDict targets" using assms(2) t(1) by (simp add: load_answer_def)
  ultimately have "t \<in> set targets" using assms(3) by (simp add: inj_map_eq_map)
  from t(2) [OF this] show ?thesis by (auto simp: is_visible_def target_of_def split: if_splits)
qed

lemma cycle_reach_targets:
  "cycle_reach fuel m arn input n e \<Longrightarrow> \<forall>t\<in>set (ex_targets e). nonempty_str (dget t ''phoneNumber'')"
proof (induction rule: cycle_reach.induct)
  case (execution_moves n e e')
  from execution_moves(2,3) show ?case by cases (auto dest: loaded_targets)
qed (simp_all add: execution_start_def)

section \<open>The next cycle\<close>

context dynamodb_index begin

lemma running_cycle_found:
  assumes "row s CycleTable k = Some d" and "dfind d ''status'' = Some (PStr (str ''RUNNING''))"
    and "\<forall>x\<in>set (index_attrs ''StatusStartedAtIndex''). dfind d x \<noteq> None"
    and "run W query_running_cycles s = (Inr cs, s')"
  shows "can_start_cycle (rows_val cs) = Inr False"
proof -
  obtain resp where resp: "answer W s (Query CycleTable (Some ''StatusStartedAtIndex'') ''status''
       (PStr (str ''RUNNING'')) False (Some 1) PNone) = (Inr resp, s')" "cs = page_items resp"
    using assms(4) by (auto simp: query_running_cycles_def run_bindP run_aws split: prod.splits sum.splits)
  have "cs \<noteq> []" using index_finds [OF resp(1) _ assms(1) _ assms(3)] assms(2) resp(2) by simp
  then have c: "hd cs \<in> set cs" by simp
  have "dget (hd cs) ''status'' = PStr (str ''RUNNING'')"
    using index_rows [OF resp(1), of "hd cs"] c resp(2) by (simp add: dget_def)
  then show ?thesis using c by (auto simp: can_start_cycle_def list_all_iff)
qed

text \<open>While a row is \<open>RUNNING\<close>, no request starts a cycle.\<close>

lemma running_cycle_refuses:
  assumes "row s CycleTable k = Some d" and "dfind d ''status'' = Some (PStr (str ''RUNNING''))"
    and "\<forall>x\<in>set (index_attrs ''StatusStartedAtIndex''). dfind d x \<noteq> None"
    and run: "run W (create_cycle env created body headers who) s = (Inr resp, s')"
  shows "status_code resp \<in> {200, 400, 409} \<and> row s' = row s"
proof -
  obtain ik e s1 where e: "run W is_active_dictionary_empty s = (Inr e, s1)"
    and r1: "run W (if e then
         thenP (audit_start_rejected env created who (str ''dictionary_empty'')
             [(str ''reason'', PStr (str ''dictionary_empty'')),
              (str ''categories'', PList (map (\<lambda>c. PStr (str c)) active_categories))])
           (ret (response env 400 ErrorText))
       else bindP query_running_cycles (\<lambda>existing_cycles.
         bindP (lift (can_start_cycle (rows_val existing_cycles))) (\<lambda>free.
         if \<not> free then answer_running env created ik (hd existing_cycles) who
         else start_cycle env created (dget body ''mode'')
           (dget_or body ''retryCount'' (PInt (default_retry_count env)))
           (dget_or body ''retryIntervalMinutes'' (PInt (default_retry_interval env)))
           (dget body ''referencedCycleId'') ik who)))
       s1 = (Inr resp, s')"
    using run unfolding create_cycle_def Let_def by (elim run_bindP_InrE) auto
  have s1: "row s1 = row s" by (rule run_quiet [OF quiet_reads(3) e])
  show ?thesis
  proof (cases e)
    case True
    then show ?thesis using r1 s1
      by (auto simp: audit_start_rejected_def response_def dest!: run_quiet [OF quiet_audit] elim!: run_bindP_InrE)
  next
    case False
    then obtain cs s2 where q: "run W query_running_cycles s1 = (Inr cs, s2)"
      and r2: "run W (bindP (lift (can_start_cycle (rows_val cs))) (\<lambda>free.
         if \<not> free then answer_running env created ik (hd cs) who
         else start_cycle env created (dget body ''mode'')
           (dget_or body ''retryCount'' (PInt (default_retry_count env)))
           (dget_or body ''retryIntervalMinutes'' (PInt (default_retry_interval env)))
           (dget body ''referencedCycleId'') ik who)) s2 = (Inr resp, s')"
      using r1 by (auto elim!: run_bindP_InrE)
    have "can_start_cycle (rows_val cs) = Inr False"
      by (rule running_cycle_found [OF _ assms(2,3) q]) (use assms(1) s1 in simp)
    then have a: "run W (answer_running env created ik (hd cs) who) s2 = (Inr resp, s')" using r2 by simp
    show ?thesis
      using answer_running_run_codes [OF a] run_quiet [OF quiet_answer_running a] run_quiet [OF quiet_reads(4) q] s1
      by auto
  qed
qed

end


section \<open>Samples\<close>

text \<open>The map of one target runs an iteration to any of its configurations.\<close>

lemma map_runs_item:
  assumes "iter_reach p l i" and "cycle_reach fuel m arn input n e" and "ex_state e = CallMap"
    and "ex_items e = [None]" and "p = item_input (ex_data e) (ex_targets e ! 0)"
  shows "it_state i \<noteq> IterationFailed \<Longrightarrow> \<exists>n'. cycle_reach fuel m arn input n' (e\<lparr>ex_items := [Some i]\<rparr>)"
  using assms(1)
proof (induction rule: iter_reach.induct)
  case (reach_start r)
  have "may_start_item m e" by (auto simp: may_start_item_def running_items_def assms(4))
  from execution_moves [OF assms(2) item_starts [OF assms(3) _ _ this, where k = 0 and arn = arn and fuel = fuel and r = r]] show ?case
    by (auto simp: assms(4))
next
  case (reach_step l i j)
  then obtain n' where n': "cycle_reach fuel m arn input n' (e\<lparr>ex_items := [Some i]\<rparr>)"
    using iter_step_live [OF reach_step(2)] by (auto simp: final_state_def)
  have "cycle_step fuel m arn (e\<lparr>ex_items := [Some i]\<rparr>)
      (e\<lparr>ex_items := [Some i], ex_items := [Some i][0 := Some j], ex_state := CallMap\<rparr>)"
    using item_steps [where e = "e\<lparr>ex_items := [Some i]\<rparr>" and k = 0 and i = i and j = j and max_concurrent = m and arn = arn and fuel = fuel] reach_step(2,4) assms(3,5) by simp
  moreover have "e\<lparr>ex_items := [Some i], ex_items := [Some i][0 := Some j], ex_state := CallMap\<rparr> = e\<lparr>ex_items := [Some j]\<rparr>"
    using assms(3) by (cases e) simp
  ultimately show ?case using execution_moves [OF n'] by fastforce
next
  case (reach_other l i r)
  then obtain n' where n': "cycle_reach fuel m arn input n' (e\<lparr>ex_items := [Some i]\<rparr>)" by auto
  from row_changes [OF n', of 0 i r] show ?case by auto
qed

definition sample_cycle_input :: pydict where
  "sample_cycle_input = [(str ''cycleId'', PStr (str ''c'')), (str ''mode'', PStr (str ''ALL'')),
     (str ''retryCount'', PInt 1), (str ''retryIntervalMinutes'', PInt 5), (str ''dictionaryVersion'', PInt 3)]"

definition sample_target :: pydict where
  "sample_target = [(str ''employeeId'', PStr (str ''E'')), (str ''name'', PStr (str ''Eve'')),
     (str ''phoneNumber'', PStr (str ''+81''))]"

lemma normal_sample:
  "normalize_input sample_cycle_input = [(str ''cycleId'', PStr (str ''c'')), (str ''mode'', PStr (str ''ALL'')),
     (str ''retryCount'', PInt 1), (str ''retryIntervalMinutes'', PInt 5), (str ''dictionaryVersion'', PInt 3),
     (str ''referencedCycleId'', PNone)]"
  by (auto simp: normalize_input_def json_merge_def sample_cycle_input_def str_def)

lemma load_sample_event:
  "load_parse_event (load_payload (normalize_input sample_cycle_input)) = Inr (str ''c'', PStr (str ''ALL''), None)"
  by (simp add: normal_sample load_payload_def load_parse_event_def load_modes_def)

lemma load_sample_run:
  "run store_ops (load_lambda_handler 1 (load_payload (normalize_input sample_cycle_input))) sample_staff =
    (Inr (load_answer (str ''c'') (PStr (str ''ALL'')) [sample_target]), sample_staff)"
proof -
  have "table_rows sample_staff EmployeeTable = map snd (st_rows sample_staff)"
    by (simp add: table_rows_def sample_staff_def)
  then show ?thesis
    by (simp add: load_lambda_handler_def load_sample_event load_candidates_def scan_all_employees_def run_bindP
        store_scan load_select_def is_visible_def sample_staff_def project_target_def dindex_def sample_target_def
        del: pages.simps)
qed

text \<open>The execution of the sample, up to its map.\<close>

lemma sample_reaches_map:
  obtains n e where "cycle_reach 1 m arn sample_cycle_input n e" "ex_state e = CallMap" "ex_items e = [None]"
    "ex_data e = normalize_input sample_cycle_input" "ex_targets e = [sample_target]"
proof -
  let ?load = "load_lambda_handler 1 (load_payload (normalize_input sample_cycle_input))"
  obtain tr where tr: "exec ?load tr (Inr (load_answer (str ''c'') (PStr (str ''ALL'')) [sample_target]))"
    using run_exec [of ?load store_ops sample_staff] unfolding load_sample_run by auto
  let ?e0 = "execution_start sample_cycle_input"
  let ?e1 = "?e0\<lparr>ex_state := LoadTargets, ex_data := normalize_input sample_cycle_input\<rparr>"
  have 1: "cycle_reach 1 m arn sample_cycle_input 1 ?e1"
    using execution_moves [OF execution_begins normalized [of ?e0]] by (simp add: execution_start_def)
  let ?e2 = "?e1\<lparr>ex_state := StartTimers, ex_targets := [sample_target], ex_items := [None], ex_log := ex_log ?e1 @ tr\<rparr>"
  have "cycle_step 1 m arn ?e1 ?e2"
    using loaded [OF _ _, where e = ?e1 and fuel = 1 and tr = tr and max_concurrent = m and arn = arn and
      ans = "load_answer (str ''c'') (PStr (str ''ALL'')) [sample_target]" and ts = "[sample_target]"] tr
    by (simp add: load_answer_def)
  note 2 = execution_moves [OF 1 this]
  have "cycle_step 1 m arn ?e2 (?e2\<lparr>ex_state := CallMap\<rparr>)" by (rule timers_passed) simp
  from that [OF execution_moves [OF 2 this]] show thesis by simp
qed

lemma sample_item_input:
  "item_input (normalize_input sample_cycle_input) sample_target =
     \<lparr>im_cycle_id = str ''c'', im_employee_id = str ''E'', im_retry_count = PInt 1, im_interval = PInt 5,
      im_dictionary_version = PInt 3\<rparr>"
  by (simp add: item_input_def normal_sample sample_target_def)

lemma sample_calls:
  obtains n e i where "cycle_reach 1 m arn sample_cycle_input n e" "ex_state e = CallMap" "ex_items e = [Some i]"
    "ex_data e = normalize_input sample_cycle_input" "ex_targets e = [sample_target]" "it_state i = FinalizeOne"
    "it_eval i = unanswered" "it_calls i = 1"
proof (rule sample_reaches_map [of m arn])
  fix n e
  assume e: "cycle_reach 1 m arn sample_cycle_input n e" "ex_state e = CallMap" "ex_items e = [None]"
    "ex_data e = normalize_input sample_cycle_input" "ex_targets e = [sample_target]"
  let ?p = "item_input (normalize_input sample_cycle_input) sample_target"
  obtain i where i: "iter_reach ?p 6 i" "it_state i = FinalizeOne" "it_eval i = unanswered" "it_calls i = 1"
    by (rule reach_finalize_one [of ?p]) (simp_all add: sample_item_input)
  obtain n' where "cycle_reach 1 m arn sample_cycle_input n' (e\<lparr>ex_items := [Some i]\<rparr>)"
    using map_runs_item [OF i(1) e(1-3)] e(4,5) i(2) by auto
  from that [OF this] e i show thesis by simp
qed

definition stranded_row :: pydict where
  "stranded_row = [(str ''cycleId'', PStr (str ''c'')), (str ''employeeId'', PStr (str ''e'')),
     (str ''voiceStatus'', PStr (str ''OTHER'')), (str ''finalizedAt'', PStr []),
     (str ''sfnError'', PStr (str ''SFN_ITERATION_FAILED''))]"

definition stranded_store :: store where
  "stranded_store = \<lparr>st_rows =
     [((CycleTable, [PStr (str ''c'')]), [(str ''cycleId'', PStr (str ''c'')), (str ''status'', PStr (str ''RUNNING''))]),
      ((ResponseTable, [PStr (str ''c''), PStr (str ''e'')]), stranded_row)], st_clock = 0, st_log = []\<rparr>"

lemma stranded_run:
  "run store_ops (finalizer_lambda_handler 1 (finalize_payload (str ''c'') [])) stranded_store =
     (Inr (Incomplete 1), stranded_store)"
proof -
  have q: "run store_ops (query_responses 1 (str ''c'')) stranded_store = (Inr [stranded_row], stranded_store)"
    by (simp add: query_responses_def store_pages query_rows_def table_rows_def stranded_store_def stranded_row_def
        del: pages.simps)
  show ?thesis
    by (simp add: finalize_payload_handler handle_map_completed_def run_bindP q [unfolded One_nat_def]
        is_cycle_completed_def count_pending_responses_def terminal_voice_statuses_def confirmed_statuses_def
        stranded_row_def in_set_def)
qed


lemma sample_item_ends:
  obtains n e i where "cycle_reach 1 m arn sample_cycle_input n e" "ex_state e = CallMap" "ex_items e = [Some i]"
    "ex_data e = normalize_input sample_cycle_input" "ex_targets e = [sample_target]" "it_state i = IterationEnd"
proof (rule sample_calls [of m arn])
  fix n e i
  assume e: "cycle_reach 1 m arn sample_cycle_input n e" "ex_state e = CallMap" "ex_items e = [Some i]"
    "ex_data e = normalize_input sample_cycle_input" "ex_targets e = [sample_target]" "it_state i = FinalizeOne"
    "it_eval i = unanswered"
  obtain j where j: "iter_step (item_input (ex_data e) (ex_targets e ! 0)) i j" "it_state j = IterationEnd"
    by (rule finalize_over [OF e(6,7)])
  have "cycle_step 1 m arn e (e\<lparr>ex_items := [Some j], ex_state := CallMap\<rparr>)"
    using item_steps [OF e(2), where k = 0 and i = i and j = j and max_concurrent = m and arn = arn and fuel = 1]
      e(3) j by simp
  from that [OF execution_moves [OF e(1) this]] e j show thesis by simp
qed

lemma sample_succeeds:
  "\<exists>n e. cycle_reach 1 m arn sample_cycle_input n e \<and> ex_state e = ExecutionSucceeded \<and> ex_targets e = [sample_target]"
proof (rule sample_item_ends [of m arn])
  fix n e i
  assume e: "cycle_reach 1 m arn sample_cycle_input n e" "ex_state e = CallMap" "ex_items e = [Some i]"
    "ex_data e = normalize_input sample_cycle_input" "ex_targets e = [sample_target]" "it_state i = IterationEnd"
  have "cycle_step 1 m arn e (e\<lparr>ex_state := Aggregate\<rparr>)" by (rule map_done [OF e(2)]) (simp add: e(3,6))
  note 1 = execution_moves [OF e(1) this]
  have "cycle_step 1 m arn (e\<lparr>ex_state := Aggregate\<rparr>) (e\<lparr>ex_state := FinalizeCycle\<rparr>)"
    using aggregated [of "e\<lparr>ex_state := Aggregate\<rparr>" 1 m arn] by simp
  note 2 = execution_moves [OF 1 this]
  let ?final = "finalizer_lambda_handler 1 (finalize_payload (str ''c'') arn)"
  have "fst (run store_ops ?final stranded_store) = Inr (Incomplete 1)"
    using stranded_run by (simp add: finalize_payload_handler)
  then obtain tr where tr: "exec ?final tr (Inr (Incomplete 1))"
    using run_exec [of ?final store_ops stranded_store] by auto
  have c: "str_of (dget (ex_data e) ''cycleId'') = str ''c''" by (simp add: e(4) normal_sample)
  have "cycle_step 1 m arn (e\<lparr>ex_state := FinalizeCycle\<rparr>) ((e\<lparr>ex_state := FinalizeCycle\<rparr>)
      \<lparr>ex_state := ExecutionSucceeded, ex_result := Some (Incomplete 1), ex_log := ex_log (e\<lparr>ex_state := FinalizeCycle\<rparr>) @ tr\<rparr>)"
    by (rule finalize_done) (simp_all add: c tr del: One_nat_def)
  from execution_moves [OF 2 this] e(5) show ?thesis by fastforce
qed

section \<open>Properties\<close>



text \<open>
  Property C2. An execution terminates: it makes at most \<open>6 + targets * (1 + 7 * max 1 retryCount)\<close>
  transitions in any interleaving of its iterations, has a next one as long as it is not over, and none
  afterwards.
\<close>

theorem cycle_terminates:
  assumes "cycle_reach fuel m arn input n e" and "dget input ''retryCount'' = PInt r"
  shows "n \<le> 6 + length (ex_targets e) * (1 + 7 * nat (max 1 r)) \<and>
    (execution_over e \<longleftrightarrow> \<not> (\<exists>e'. cycle_step fuel m arn e e'))"
  using transitions_within [OF assms] cycle_progress [OF cycle_reach_map_inv [OF assms(1)]] over_stays by blast

theorem cycle_terminates_witness:
  "\<exists>n e. cycle_reach 1 2 [] sample_cycle_input n e \<and> ex_state e = CallMap \<and> n \<le> 6 + 1 * (1 + 7 * nat (max 1 1)) \<and>
    (\<exists>e'. cycle_step 1 2 [] e e')"
proof (rule sample_calls [of 2 "[]"])
  fix n e i
  assume e: "cycle_reach 1 2 [] sample_cycle_input n e" "ex_state e = CallMap" "ex_targets e = [sample_target]"
  have r: "dget sample_cycle_input ''retryCount'' = PInt 1" by (simp add: sample_cycle_input_def)
  from cycle_terminates [OF e(1) r] e show ?thesis
    by (intro exI [of _ n] exI [of _ e]) (simp add: execution_over_def)
qed

text \<open>
  Property C12. A successful execution left nobody out: for every target an iteration was run to its end,
  each with the cycle's parameters and that target's id, and \<open>cycle_finalizer\<close> answered after them.
\<close>

theorem success_covers_targets:
  assumes "cycle_reach fuel m arn input n e" and "ex_state e = ExecutionSucceeded"
  shows "ex_result e \<noteq> None \<and> length (ex_items e) = length (ex_targets e) \<and>
    (\<forall>k < length (ex_targets e). \<exists>i l. ex_items e ! k = Some i \<and> it_state i = IterationEnd \<and>
       iter_reach (item_input (ex_data e) (ex_targets e ! k)) l i)"
proof -
  obtain cs where cs: "items_ok (ex_data e) (ex_targets e) (ex_items e) cs"
    using cycle_reach_inv [OF assms(1)] by (auto simp: exec_inv_def)
  have m: "ex_result e \<noteq> None" "list_all item_ended (ex_items e)"
    using cycle_reach_map_inv [OF assms(1)] assms(2) by (auto simp: map_inv_def)
  have "\<exists>i l. ex_items e ! k = Some i \<and> it_state i = IterationEnd \<and>
       iter_reach (item_input (ex_data e) (ex_targets e ! k)) l i" if "k < length (ex_items e)" for k
  proof -
    have "item_ended (ex_items e ! k)" using m(2) that by (simp add: list_all_length)
    then show ?thesis using items_ok_nth [OF cs that] by (cases "ex_items e ! k") auto
  qed
  then show ?thesis using m(1) items_ok_length [OF cs] by auto
qed

theorem success_covers_targets_witness:
  "\<exists>n e i. cycle_reach 1 2 [] sample_cycle_input n e \<and> ex_state e = ExecutionSucceeded \<and>
    ex_items e ! 0 = Some i \<and> it_state i = IterationEnd"
proof -
  obtain n e where e: "cycle_reach 1 2 [] sample_cycle_input n e" "ex_state e = ExecutionSucceeded"
    "ex_targets e = [sample_target]" using sample_succeeds by blast
  from success_covers_targets [OF e(1,2)] e show ?thesis by auto
qed

text \<open>
  Property C4. A cycle with nobody to call blocks every later one: when \<open>load_targets\<close> raises, as it does
  with no visible employee, the execution goes to \<open>CycleFailed\<close> without having written a row and without
  \<open>cycle_finalizer\<close>, and is over; the cycle's row stays \<open>RUNNING\<close>, and a later \<open>POST /cycles\<close> is answered
  200, 400 or 409 and changes nothing.
\<close>

theorem failed_load_blocks_cycles:
  assumes "dynamodb_index W row index_attrs"
    and "run W (load_lambda_handler fuel (load_payload (normalize_input input))) s = (Inl err, s')"
    and "row s CycleTable k = Some d" and "dfind d ''status'' = Some (PStr (str ''RUNNING''))"
    and "\<forall>x\<in>set (index_attrs ''StatusStartedAtIndex''). dfind d x \<noteq> None"
    and "run W (create_cycle env created body headers who) s' = (Inr resp, s'')"
  shows "(\<exists>n e. cycle_reach fuel m arn input n e \<and> ex_state e = CycleFailed \<and> effects (ex_log e) = [] \<and>
      ex_result e = None \<and> \<not> (\<exists>e'. cycle_step fuel m arn e e')) \<and>
    row s'' CycleTable k = Some d \<and> status_code resp \<in> {200, 400, 409} \<and> row s'' = row s"
proof -
  let ?load = "load_lambda_handler fuel (load_payload (normalize_input input))"
  obtain tr where tr: "exec ?load tr (Inl err)" using run_exec [of ?load W s] assms(2) by auto
  let ?e0 = "execution_start input"
  let ?e1 = "?e0\<lparr>ex_state := LoadTargets, ex_data := normalize_input input\<rparr>"
  have 1: "cycle_reach fuel m arn input 1 ?e1"
    using execution_moves [OF execution_begins normalized [of ?e0]] by (simp add: execution_start_def)
  let ?e2 = "?e1\<lparr>ex_state := CycleFailed, ex_log := ex_log ?e1 @ tr\<rparr>"
  have "cycle_step fuel m arn ?e1 ?e2" by (rule load_fails [of ?e1 fuel tr err]) (simp_all add: tr)
  note 2 = execution_moves [OF 1 this]
  have "execution_over ?e2" by (simp add: execution_over_def)
  with 2 over_stays [of fuel m arn ?e2] cycle_reach_map_inv [OF 2]
  have "\<exists>n e. cycle_reach fuel m arn input n e \<and> ex_state e = CycleFailed \<and> effects (ex_log e) = [] \<and>
      ex_result e = None \<and> \<not> (\<exists>e'. cycle_step fuel m arn e e')"
    by (intro exI [of _ "Suc 1"] exI [of _ ?e2]) (auto simp: map_inv_def)
  moreover have s': "row s' = row s"
    by (rule dynamodb.run_quiet [OF dynamodb_index.axioms(1) [OF assms(1)] quiet_load assms(2)])
  moreover have "status_code resp \<in> {200, 400, 409} \<and> row s'' = row s'"
    by (rule dynamodb_index.running_cycle_refuses [OF assms(1) assms(3) [folded s'] assms(4,5,6)])
  ultimately show ?thesis using assms(3) by simp
qed

definition no_staff_store :: store where
  "no_staff_store = sample_start_store\<lparr>st_rows := ((CycleTable, [PStr (str ''c'')]),
     [(str ''cycleId'', PStr (str ''c'')), (str ''status'', PStr (str ''RUNNING'')),
      (str ''startedAt'', PStr [])]) # st_rows sample_start_store\<rparr>"

lemma no_staff_load:
  "run store_ops (load_lambda_handler 1 (load_payload (normalize_input sample_cycle_input))) no_staff_store =
    (Inl NoTargetsError, no_staff_store)"
proof -
  have "table_rows no_staff_store EmployeeTable = []"
    by (simp add: table_rows_def no_staff_store_def sample_start_store_def)
  then show ?thesis
    by (simp add: load_lambda_handler_def load_sample_event load_candidates_def scan_all_employees_def run_bindP
        store_scan load_select_def del: pages.simps)
qed

lemma no_staff_refused:
  "\<exists>resp s'. run store_ops (create_cycle sample_cycle_env [] sample_start_body (PDict []) PNone) no_staff_store =
     (Inr resp, s') \<and> status_code resp = 409"
proof -
  let ?d = "[(str ''cycleId'', PStr (str ''c'')), (str ''status'', PStr (str ''RUNNING'')), (str ''startedAt'', PStr [])]"
  have e: "run store_ops is_active_dictionary_empty no_staff_store = (Inr False, no_staff_store)"
      "run store_ops query_running_cycles no_staff_store = (Inr [?d], no_staff_store)"
    by (simp_all add: is_active_dictionary_empty_def query_category_def query_running_cycles_def run_bindP
      store_query_page query_rows_def table_rows_def sample_start_store_def no_staff_store_def
      is_dictionary_empty_def count_active_keywords_def)
  obtain cr s' where "run store_ops (audit_start_rejected sample_cycle_env [] PNone (str ''c'')
      [(str ''reason'', PStr (str ''cycle_running'')), (str ''existingCycleId'', PStr (str ''c''))]) no_staff_store = (Inr cr, s')"
    unfolding audit_start_rejected_def using run_store_audit [of sample_cycle_env "str ''audit''"] by fastforce
  then show ?thesis
    by (simp add: create_cycle_def Let_def idempotency_key_from_def check_cycle_body_def cycle_valid_modes_def
        run_bindP e can_start_cycle_def answer_running_def py_str_def response_def)
qed

theorem failed_load_blocks_cycles_witness:
  "\<exists>resp s' n e. run store_ops (create_cycle sample_cycle_env [] sample_start_body (PDict []) PNone) no_staff_store =
      (Inr resp, s') \<and> status_code resp = 409 \<and> store_row s' = store_row no_staff_store \<and>
      cycle_reach 1 2 [] sample_cycle_input n e \<and> ex_state e = CycleFailed"
proof -
  obtain resp s' where r: "run store_ops (create_cycle sample_cycle_env [] sample_start_body (PDict []) PNone)
      no_staff_store = (Inr resp, s')" "status_code resp = 409" using no_staff_refused by blast
  have "store_row no_staff_store CycleTable [PStr (str ''c'')] = Some [(str ''cycleId'', PStr (str ''c'')),
      (str ''status'', PStr (str ''RUNNING'')), (str ''startedAt'', PStr [])]"
    by (simp add: no_staff_store_def store_row_def)
  from failed_load_blocks_cycles [OF store.dynamodb_index_axioms no_staff_load this _ _ r(1), of 2 "[]"] r
  show ?thesis by simp blast
qed

section \<open>A boolean as the number of calls\<close>

text \<open>
  \<open>POST /cycles\<close> tests \<open>retryCount\<close> with \<open>isinstance(.., int)\<close>, which a boolean passes; the evaluator
  refuses booleans. An iteration with such a count never gets past \<open>EvaluateRetry\<close>.
\<close>

definition unevaluated :: "iteration \<Rightarrow> bool" where
  "unevaluated i \<longleftrightarrow> it_state i \<notin> {RetryChoice, WaitInterval, IncrementAttempt, FinalizeOne} \<and>
     (if before_call (it_state i) then it_calls i = 0 else it_calls i \<le> 1)"

lemma bool_count_not_evaluated:
  assumes "im_retry_count p = PBool b"
  shows "\<not> exec (retry_lambda_handler (PDict (evaluate_payload p i v entered))) tr (Inr out)"
proof
  let ?ev = "evaluate_payload p i v entered"
  assume e: "exec (retry_lambda_handler (PDict ?ev)) tr (Inr out)"
  have "dget ?ev ''retryCount'' = PBool b" by (simp add: evaluate_payload_def assms)
  moreover obtain r where "should_retry (dget ?ev ''voiceStatus'') (dget ?ev ''callResultCode'')
      (dget ?ev ''attempts'') (dget ?ev ''retryCount'') = Inr r"
    using retry_handler_cases [OF e] by blast
  ultimately show False using should_retry_returns(3) by fastforce
qed

lemma bool_count_unevaluated:
  assumes "iter_reach p n i" and "im_retry_count p = PBool b"
  shows "unevaluated i"
  using assms(1)
proof induction
  case (reach_step n i j)
  from reach_step.hyps(2) show ?case
  proof cases
    case (evaluated entered tr out)
    with bool_count_not_evaluated [OF assms(2)] show ?thesis by blast
  qed (use reach_step.IH in \<open>simp_all add: unevaluated_def before_call_def\<close>)
qed (auto simp: unevaluated_def before_call_def iteration_start_def)

text \<open>
  Theorem. A cycle started with \<open>"retryCount": true\<close> or \<open>false\<close> is accepted like one with 1 or 0, but every
  iteration of it that ends wrote \<open>OTHER\<close>, after at most one call and whatever the employee answered, so
  the cycle is not completed as long as one of these rows is among its responses.
\<close>

theorem boolean_count_accepted_and_stranded:
  assumes "iter_reach p n i" and "im_retry_count p = PBool b" and "iter_step p i j" and "it_state j = IterationEnd"
  shows "check_cycle_body mode (im_retry_count p) interval = check_cycle_body mode (PInt (if b then 1 else 0)) interval \<and>
    it_state i = FinalizeOneError \<and> it_calls j \<le> 1 \<and>
    (\<exists>d. it_row j = Some d \<and> dfind d ''voiceStatus'' = Some (PStr (str ''OTHER'')) \<and>
      (d \<in> set rows \<longrightarrow> is_cycle_completed (rows_val rows) \<noteq> Inr True))"
proof -
  have u: "unevaluated i" by (rule bool_count_unevaluated [OF assms(1,2)])
  have c: "check_cycle_body mode (PBool b) interval = check_cycle_body mode (PInt (if b then 1 else 0)) interval"
    by (simp add: check_cycle_body_def)
  show ?thesis using assms(3)
  proof cases
    case (finalized f now x)
    with u show ?thesis by (simp add: unevaluated_def)
  next
    case (error_written now x)
    then obtain d where d: "it_row j = Some d" "dfind d ''voiceStatus'' = Some (PStr (str ''OTHER''))"
      by (auto simp: finalize_error_update_def)
    with u error_written other_row_open [OF d(2), of rows] show ?thesis
      by (auto simp: unevaluated_def before_call_def assms(2) c)
  qed (use assms(4) in simp_all)
qed

theorem boolean_count_accepted_and_stranded_witness:
  "\<exists>n i j d. iter_reach (sample_im\<lparr>im_retry_count := PBool True\<rparr>) n i \<and> it_row j = Some d \<and>
    iter_step (sample_im\<lparr>im_retry_count := PBool True\<rparr>) i j \<and> it_state j = IterationEnd \<and>
    dfind d ''voiceStatus'' = Some (PStr (str ''OTHER''))"
proof -
  let ?p = "sample_im\<lparr>im_retry_count := PBool True\<rparr>"
  let ?i = "iteration_start None\<lparr>it_state := FinalizeOneError\<rparr>"
  have r: "iter_reach ?p 1 ?i"
    using reach_step [OF reach_start init_fails [of "iteration_start None" ?p]] by (simp add: iteration_start_def)
  let ?j = "?i\<lparr>it_state := IterationEnd, it_row := the (write_row (finalize_error_update ?p []) (it_row ?i))\<rparr>"
  have "write_row (finalize_error_update ?p []) (it_row ?i) \<noteq> None" by (simp add: finalize_error_update_def)
  then have s: "iter_step ?p ?i ?j"
    using error_written [of ?i ?p "[]"] by force
  have j: "im_retry_count ?p = PBool True" "it_state ?j = IterationEnd" by simp_all
  obtain d where "it_row ?j = Some d" "dfind d ''voiceStatus'' = Some (PStr (str ''OTHER''))"
    using boolean_count_accepted_and_stranded [OF r j(1) s j(2)] by blast
  with r s j(2) show ?thesis by blast
qed

end
