(* ===== verification/Concurrency.thy ===== *)
theory Concurrency
  imports Cycle_Api
begin

text \<open>
  Two invocations of Lambdas at the same time: their requests reach the services one at a time, in some
  order. The check-then-write of \<open>POST /cycles\<close> is not atomic, and two requests can both start a cycle.
\<close>

section \<open>Interleavings\<close>

text \<open>One request or reading of a program.\<close>

fun prog_step :: "'s ops \<Rightarrow> 'a prog \<Rightarrow> 's \<Rightarrow> 'a prog \<times> 's" where
  "prog_step W (Done r) s = (Done r, s)"
| "prog_step W (Call q k) s = (case answer W s q of (a, s') \<Rightarrow> (k a, s'))"
| "prog_step W (Env e k) s = (case reading W s e of (n, s') \<Rightarrow> (k n, s'))"

text \<open>A schedule says which of the two programs moves next.\<close>

fun interleave :: "'s ops \<Rightarrow> bool list \<Rightarrow> 'a prog \<Rightarrow> 'b prog \<Rightarrow> 's \<Rightarrow> 'a prog \<times> 'b prog \<times> 's" where
  "interleave W [] p q s = (p, q, s)"
| "interleave W (b # bs) p q s =
     (if b then (case prog_step W p s of (p', s') \<Rightarrow> interleave W bs p' q s')
      else (case prog_step W q s of (q', s') \<Rightarrow> interleave W bs p q' s'))"

lemma interleave_append:
  "interleave W (xs @ ys) p q s = (case interleave W xs p q s of (p', q', s') \<Rightarrow> interleave W ys p' q' s')"
  by (induction xs arbitrary: p q s) (auto split: prod.splits)

text \<open>The first program alone, up to the end of its first part; the second alone, to its end.\<close>

lemma interleave_first:
  assumes "run W p s = (Inr x, s')"
  shows "\<exists>bs. interleave W bs (bindP p f) q s = (f x, q, s')"
  using assms
proof (induction p arbitrary: s)
  case (Done r)
  then show ?case by (intro exI [of _ "[]"]) simp
next
  case (Call c k)
  obtain a s1 where a: "answer W s c = (a, s1)" by force
  then obtain bs where "interleave W bs (bindP (k a) f) q s1 = (f x, q, s')" using Call by fastforce
  with a show ?case by (intro exI [of _ "True # bs"]) simp
next
  case (Env e k)
  obtain n s1 where a: "reading W s e = (n, s1)" by force
  then obtain bs where "interleave W bs (bindP (k n) f) q s1 = (f x, q, s')" using Env by fastforce
  with a show ?case by (intro exI [of _ "True # bs"]) simp
qed

lemma interleave_second:
  assumes "run W q s = (r, s')"
  shows "\<exists>bs. interleave W bs p q s = (p, Done r, s')"
  using assms
proof (induction q arbitrary: s)
  case (Done x)
  then show ?case by (intro exI [of _ "[]"]) simp
next
  case (Call c k)
  obtain a s1 where a: "answer W s c = (a, s1)" by force
  then obtain bs where "interleave W bs p (k a) s1 = (p, Done r, s')" using Call by fastforce
  with a show ?case by (intro exI [of _ "False # bs"]) simp
next
  case (Env e k)
  obtain n s1 where a: "reading W s e = (n, s1)" by force
  then obtain bs where "interleave W bs p (k n) s1 = (p, Done r, s')" using Env by fastforce
  with a show ?case by (intro exI [of _ "False # bs"]) simp
qed

text \<open>The second program runs between the two parts of the first.\<close>

lemma interleave_between:
  assumes "run W p s = (Inr x, s1)" and "run W q s1 = (r, s2)" and "run W (f x) s2 = (Inr y, s3)"
  shows "\<exists>bs. interleave W bs (bindP p f) q s = (Done (Inr y), Done r, s3)"
proof -
  obtain bs1 where 1: "interleave W bs1 (bindP p f) q s = (f x, q, s1)"
    using interleave_first [OF assms(1)] by blast
  obtain bs2 where 2: "interleave W bs2 (f x) q s1 = (f x, Done r, s2)"
    using interleave_second [OF assms(2)] by blast
  obtain bs3 where 3: "interleave W bs3 (f x) (Done r) s2 = (Done (Inr y), Done r, s3)"
    using interleave_first [OF assms(3), of ret "Done r"] by (auto simp: bindP_ret)
  show ?thesis by (intro exI [of _ "bs1 @ bs2 @ bs3"]) (simp add: interleave_append 1 2 3)
qed

section \<open>Two starts\<close>

text \<open>A service that gives the two invocations different UUIDs.\<close>

definition two_ops :: "store ops" where
  "two_ops = store_ops\<lparr>reading := \<lambda>s e.
     (case e of ClockUs \<Rightarrow> st_clock s | Uuid4 \<Rightarrow> (if st_log s = [] then 0 else 1) | Rand53 \<Rightarrow> 0, s)\<rparr>"

lemma two_ops_calls: "run two_ops (aws q) s = run store_ops (aws q) s"
  by (simp add: run_aws two_ops_def)

lemma two_ops_start:
  "run two_ops (start_execution cid mode rc ri v ref) s =
     (Inr True, s\<lparr>st_log := st_log s @ [StartExecution (str ''cycle-'' @ cid) (sfn_input_of cid mode rc ri v ref)]\<rparr>)"
  by (simp add: start_execution_def run_catchP run_bindP run_aws two_ops_def store_ops_def)

lemma two_ops_audit:
  "\<exists>created' s'. run two_ops (write_audit_log sample_cycle_env [] ev who target outcome None None extra) s =
     (Inr created', s') \<and> st_log s' \<noteq> []"
  by (simp add: write_audit_log_def audit_now_iso_def stream_name_def today_yyyymmdd_def
      ensure_log_stream_def now_epoch_ms_def run_simps two_ops_def store_ops_def Let_def)

lemma two_ops_now: "run two_ops cycle_now_iso s = (Inr (iso_z_seconds (st_clock s)), s)"
  by (simp add: cycle_now_iso_def run_bindP run_now two_ops_def)

lemma two_ops_uuid:
  "run two_ops (Env Uuid4 k) s = run two_ops (k (if st_log s = [] then 0 else 1)) s"
  by (simp add: two_ops_def)

lemma two_ops_dynamodb: "dynamodb two_ops store_row"
  by unfold_locales
    (use store.write_ok store.write_fails store.frame in \<open>auto simp: two_ops_def store_ops_def\<close>)

lemma distinct_ids: "uuid4_str 0 \<noteq> uuid4_str 1"
  by (simp add: uuid4_str_def Let_def uuid4_bits_def hex_digit_def upt_rec)

definition start_item :: "pystr \<Rightarrow> store \<Rightarrow> pydict" where
  "start_item cid s = cycle_item cid (PStr (str ''ALL'')) (PInt 3) (PInt 5) 0 (iso_z_seconds (st_clock s)) (PStr []) PNone"

lemma key_of_start_item: "key_of CycleTable (start_item cid s) = [PStr cid]"
  by (simp add: key_of_def start_item_def cycle_item_def)

text \<open>What a start does once its guards have passed, whatever is in the cycle table by then.\<close>

lemma run_start_cycle:
  assumes "store_row s DictTable [PStr (str ''META''), PStr (str ''META'')] = None"
  shows "\<exists>resp s'. run two_ops (start_cycle sample_cycle_env [] (PStr (str ''ALL'')) (PInt 3) (PInt 5) PNone (PStr []) PNone) s =
      (Inr resp, s') \<and> status_code resp = 201 \<and> st_log s' \<noteq> [] \<and>
    store_row s' = (let cid = uuid4_str (if st_log s = [] then 0 else 1) in
      (store_row s)(CycleTable := (store_row s CycleTable)([PStr cid] := Some (norm_row (start_item cid s)))))"
proof -
  obtain cid where cid: "uuid4_str (if st_log s = [] then 0 else 1) = cid" by blast
  have v: "run two_ops get_dict_version s = (Inr 0, s)"
    using assms by (simp add: get_dict_version_def run_bindP two_ops_calls run_store_get key_of_def)
  let ?s1 = "s\<lparr>st_rows := put_row (st_rows s) (CycleTable, [PStr cid]) (Some (norm_row (start_item cid s)))\<rparr>"
  have put: "run two_ops (aws (PutItem CycleTable (start_item cid s) NoCond)) s = (Inr (PDict []), ?s1)"
    unfolding two_ops_calls by (rule run_store_write) (simp_all add: key_of_start_item)
  let ?q = "StartExecution (str ''cycle-'' @ cid) (sfn_input_of cid (PStr (str ''ALL'')) (PInt 3) (PInt 5) 0 PNone)"
  let ?s2 = "?s1\<lparr>st_log := st_log ?s1 @ [?q]\<rparr>"
  have start: "run two_ops (start_execution cid (PStr (str ''ALL'')) (PInt 3) (PInt 5) 0 PNone) ?s1 = (Inr True, ?s2)"
    by (rule two_ops_start)
  let ?audit = "write_audit_log sample_cycle_env [] (str ''CYCLE_START'') PNone cid
      (str ''SUCCESS'') None None (Some [(str ''mode'', PStr (str ''ALL'')), (str ''retryCount'', PInt 3),
        (str ''retryIntervalMinutes'', PInt 5), (str ''dictionaryVersion'', PInt 0)])"
  obtain cr s3 where audit: "run two_ops ?audit ?s2 = (Inr cr, s3)" "st_log s3 \<noteq> []"
    using two_ops_audit by blast
  have rows: "store_row s3 = store_row ?s2"
  proof -
    have "all_calls readonly ?audit" by (rule all_calls_mono [OF quiet_audit]) (auto simp: quiet_def readonly_def split: req.splits)
    from dynamodb.run_readonly [OF two_ops_dynamodb this audit(1)] show ?thesis .
  qed
  have "store_row ?s2 = store_row ?s1" by (simp add: store_row_def fun_eq_iff)
  then have "store_row s3 = (store_row s)(CycleTable := (store_row s CycleTable)([PStr cid] :=
      Some (norm_row (start_item cid s))))" using rows by (simp add: store_row_put)
  moreover have "\<exists>resp. run two_ops (start_cycle sample_cycle_env [] (PStr (str ''ALL'')) (PInt 3) (PInt 5) PNone
      (PStr []) PNone) s = (Inr resp, s3) \<and> status_code resp = 201"
    unfolding start_cycle_def run_bindP [of two_ops get_dict_version] v
    by (simp add: run_bindP two_ops_uuid cid two_ops_now put [unfolded start_item_def]
        two_ops_start answer_start_def audit(1) [unfolded start_item_def, simplified] response_def del: run.simps(3))
  ultimately show ?thesis using audit(2) unfolding Let_def cid by blast
qed

abbreviation sample_create :: "http prog" where
  "sample_create \<equiv> create_cycle sample_cycle_env [] sample_start_body (PDict []) PNone"

abbreviation sample_start :: "http prog" where
  "sample_start \<equiv> start_cycle sample_cycle_env [] (PStr (str ''ALL'')) (PInt 3) (PInt 5) PNone (PStr []) PNone"

lemma two_ops_guards:
  "run two_ops is_active_dictionary_empty sample_start_store = (Inr False, sample_start_store)"
  "run two_ops query_running_cycles sample_start_store = (Inr [], sample_start_store)"
  by (simp_all add: is_active_dictionary_empty_def query_category_def query_running_cycles_def run_bindP
      two_ops_calls store_query_page query_rows_def table_rows_def sample_start_store_def is_dictionary_empty_def
      count_active_keywords_def)

text \<open>The request as its first guard and the rest, and what is left after both guards.\<close>

lemma sample_create_parts:
  obtains f g where "sample_create = bindP is_active_dictionary_empty f" "f False = bindP query_running_cycles g"
    "g [] = sample_start"
proof -
  have ck: "check_cycle_body (PStr (str ''ALL'')) (PInt 3) (PInt 5) = Inr ()"
    by (simp add: check_cycle_body_def cycle_valid_modes_def)
  let ?g = "\<lambda>ex. bindP (lift (can_start_cycle (rows_val ex))) (\<lambda>free.
    if \<not> free then answer_running sample_cycle_env [] (PStr []) (hd ex) PNone else sample_start)"
  let ?f = "\<lambda>dictionary_empty. if dictionary_empty then
      thenP (audit_start_rejected sample_cycle_env [] PNone (str ''dictionary_empty'')
          [(str ''reason'', PStr (str ''dictionary_empty'')),
           (str ''categories'', PList (map (\<lambda>c. PStr (str c)) active_categories))])
        (ret (response sample_cycle_env 400 ErrorText))
    else bindP query_running_cycles ?g"
  have "sample_create = bindP is_active_dictionary_empty ?f"
    by (simp add: create_cycle_def Let_def idempotency_key_from_def ck cong: if_cong)
  then show thesis by (rule that [of ?f ?g]) (simp_all add: can_start_cycle_def)
qed

definition running_rows :: "store \<Rightarrow> pyval list set" where
  "running_rows s = {k. \<exists>d. store_row s CycleTable k = Some d \<and> dget d ''status'' = PStr (str ''RUNNING'')}"

lemma start_item_running: "dget (norm_row (start_item cid s)) ''status'' = PStr (str ''RUNNING'')"
  by (simp add: start_item_def cycle_item_def norm_row_def)

section \<open>Properties\<close>

text \<open>
  Property C39. The exclusivity of cycles is not atomic: two \<open>POST /cycles\<close> whose requests interleave, each
  reading before the other has written, are both answered 201 and leave two cycles \<open>RUNNING\<close>.
\<close>

theorem concurrent_starts_both_succeed:
  "\<exists>schedule resp1 resp2 s'.
     interleave two_ops schedule sample_create sample_create sample_start_store = (Done (Inr resp1), Done (Inr resp2), s') \<and>
     status_code resp1 = 201 \<and> status_code resp2 = 201 \<and>
     [PStr (uuid4_str 0)] \<in> running_rows s' \<and> [PStr (uuid4_str 1)] \<in> running_rows s' \<and> uuid4_str 0 \<noteq> uuid4_str 1"
proof -
  let ?s = sample_start_store
  obtain f g where p: "sample_create = bindP is_active_dictionary_empty f" "f False = bindP query_running_cycles g"
    "g [] = sample_start" by (rule sample_create_parts)
  have full: "run two_ops sample_create ?s = run two_ops sample_start ?s"
    by (simp add: p run_bindP two_ops_guards)
  have l: "st_log ?s = []" and d: "store_row ?s DictTable [PStr (str ''META''), PStr (str ''META'')] = None"
    by (simp_all add: sample_start_store_def store_row_def)
  obtain resp2 s2 where 2: "run two_ops sample_start ?s = (Inr resp2, s2)" "status_code resp2 = 201" "st_log s2 \<noteq> []"
    "store_row s2 = (store_row ?s)(CycleTable := (store_row ?s CycleTable)([PStr (uuid4_str 0)] :=
       Some (norm_row (start_item (uuid4_str 0) ?s))))"
    using run_start_cycle [OF d] l by (auto simp: Let_def)
  have "store_row s2 DictTable [PStr (str ''META''), PStr (str ''META'')] = None" using 2(4) d by simp
  then obtain resp1 s3 where 1: "run two_ops sample_start s2 = (Inr resp1, s3)" "status_code resp1 = 201"
    "store_row s3 = (store_row s2)(CycleTable := (store_row s2 CycleTable)([PStr (uuid4_str 1)] :=
       Some (norm_row (start_item (uuid4_str 1) s2))))"
    using run_start_cycle [of s2] 2(3) by (auto simp: Let_def)
  obtain b1 where b1: "interleave two_ops b1 sample_create sample_create ?s = (f False, sample_create, ?s)"
    using interleave_first [OF two_ops_guards(1), of f sample_create] p(1) by auto
  obtain b2 where b2: "interleave two_ops b2 (f False) sample_create ?s = (sample_start, sample_create, ?s)"
    using interleave_first [OF two_ops_guards(2), of g sample_create] p(2,3) by auto
  obtain b3 where b3: "interleave two_ops b3 sample_start sample_create ?s = (sample_start, Done (Inr resp2), s2)"
    using interleave_second [OF full [unfolded 2(1)]] by blast
  obtain b4 where b4: "interleave two_ops b4 sample_start (Done (Inr resp2)) s2 = (Done (Inr resp1), Done (Inr resp2), s3)"
    using interleave_first [OF 1(1), of ret "Done (Inr resp2)"] by auto
  have "interleave two_ops (b1 @ b2 @ b3 @ b4) sample_create sample_create ?s = (Done (Inr resp1), Done (Inr resp2), s3)"
    by (simp add: interleave_append b1 b2 b3 b4)
  moreover have "[PStr (uuid4_str 1)] \<in> running_rows s3"
    by (simp add: running_rows_def 1(3) start_item_running)
  moreover have "[PStr (uuid4_str 0)] \<in> running_rows s3"
    using distinct_ids by (simp add: running_rows_def 1(3) 2(4) start_item_running)
  ultimately show ?thesis using 1(2) 2(2) distinct_ids by blast
qed

end
