(* ===== verification/Lockout.thy ===== *)
theory Lockout
  imports Dictionary Validation
begin

text \<open>
  The account lockout: the Cognito triggers \<open>auth_pre_auth\<close>, \<open>auth_post_auth\<close> and
  \<open>auth_pre_signup\<close> and the public route of \<open>auth_failure_reporter\<close>, with the history of failed
  sign-ins they share. The abstraction is that history, a list of instants: a report appends to it, a
  sign-in empties it, and the next attempt is refused by a count over it.
\<close>

section \<open>The handlers\<close>

text \<open>\<open>int(time.time())\<close>.\<close>

definition now_epoch_s :: "int prog" where
  "now_epoch_s = bindP now_us (\<lambda>t. ret ((t - epoch_us) div 1000000))"

definition lockout_key :: "pystr \<Rightarrow> pydict" where
  "lockout_key user_identifier = [(str ''userIdentifier'', PStr user_identifier)]"

definition user_name_of :: "pydict \<Rightarrow> pystr res" where
  "user_name_of event =
     (let user_identifier = dget event ''userName'' in
      if \<not> nonempty_str user_identifier then Inl ValueError else Inr (str_of user_identifier))"

text \<open>\<open>for v in raw\<close> on a value.\<close>

fun py_iter :: "pyval \<Rightarrow> pyval list res" where
  "py_iter (PList xs) = Inr xs"
| "py_iter (PStr s) = Inr (map (\<lambda>c. PStr [c]) s)"
| "py_iter (PDict d) = Inr (map (\<lambda>kv. PStr (fst kv)) d)"
| "py_iter _ = Inl TypeError"

definition failed_ats_of :: "pyval \<Rightarrow> int list res" where
  "failed_ats_of item =
     (if item = PNone then Inr []
      else bind_res (py_iter (dget_or (items_of item) ''failedAts'' (PList []))) (map_res py_int))"

text \<open>\<open>LOCKOUT_THRESHOLD\<close> and \<open>LOCKOUT_WINDOW_SECONDS\<close>.\<close>

record lockout_env = api_env +
  lockout_threshold :: int
  lockout_window :: int

definition pre_auth_handler :: "'a lockout_env_scheme \<Rightarrow> pydict \<Rightarrow> pydict prog" where
  "pre_auth_handler env event =
     bindP (lift (user_name_of event)) (\<lambda>user_identifier.
     bindP now_epoch_s (\<lambda>now_epoch.
     bindP (aws (GetItem LockoutTable (lockout_key user_identifier))) (\<lambda>resp.
     bindP (lift (failed_ats_of (dget (items_of resp) ''Item''))) (\<lambda>failed_ats.
       if is_locked failed_ats now_epoch (lockout_threshold env) (lockout_window env)
       then raise PermissionError else ret event))))"

definition clear_lockout :: "pystr \<Rightarrow> int \<Rightarrow> unit prog" where
  "clear_lockout user_identifier now_epoch =
     on_codes [ccfe]
       (thenP (aws (UpdateItem LockoutTable (lockout_key user_identifier)
          [SetAttr ''failedAts'' (PList []), SetAttr ''expireAt'' (PInt (now_epoch - 1))]
          (AttrExists ''userIdentifier'')))
        (ret ())) ()"

definition post_auth_handler :: "'a lockout_env_scheme \<Rightarrow> pystr list \<Rightarrow> pydict \<Rightarrow> pydict prog" where
  "post_auth_handler env created event =
     bindP (lift (user_name_of event)) (\<lambda>user_identifier.
     bindP now_epoch_s (\<lambda>now_epoch.
     thenP (clear_lockout user_identifier now_epoch)
     (thenP (write_audit_log env created (str ''AUTH_SUCCESS'') (PStr user_identifier) user_identifier
         (str ''SUCCESS'') None None (Some [(str ''sourceIp'', PNone)]))
       (ret event))))"

definition allowed_trigger_source :: string where
  "allowed_trigger_source = ''PreSignUp_AdminCreateUser''"

definition pre_signup_handler :: "pydict \<Rightarrow> pydict res" where
  "pre_signup_handler event =
     (if dget_or event ''triggerSource'' (PStr []) \<noteq> PStr (str allowed_trigger_source)
      then Inl PermissionError else Inr event)"

definition record_failure_update :: "pystr \<Rightarrow> int \<Rightarrow> int \<Rightarrow> req" where
  "record_failure_update user_identifier now_epoch expire_at =
     UpdateItem LockoutTable (lockout_key user_identifier)
       [ListAppend ''failedAts'' [PInt now_epoch], SetAttr ''expireAt'' (PInt expire_at)] NoCond"

definition recorded_answer :: "'a lockout_env_scheme \<Rightarrow> bool \<Rightarrow> http" where
  "recorded_answer env b = response env 202 (Json (PDict [(str ''recorded'', PBool b)]))"

text \<open>\<open>except ClientError\<close> around the update swallows every service error.\<close>

definition failure_reporter_handler ::
  "(pystr \<Rightarrow> pyval option) \<Rightarrow> 'a lockout_env_scheme \<Rightarrow> pystr list \<Rightarrow> pydict \<Rightarrow> http prog" where
  "failure_reporter_handler loads env created event =
     (if \<not> is_route event ''POST'' ''/auth/record-failure'' then ret (response env 405 ErrorText)
      else case parse_body loads (dget event ''body'') of
        Inl e \<Rightarrow> if e = ValueError then ret (response env 400 ErrorText) else raise e
      | Inr body \<Rightarrow>
          (let user_identifier = dget body ''userIdentifier'' in
           if \<not> is_valid_email user_identifier then ret (recorded_answer env False)
           else
             bindP now_epoch_s (\<lambda>now_epoch.
             let expire_at = now_epoch + lockout_window env in
             bindP (catchP
                 (thenP (aws (record_failure_update (str_of user_identifier) now_epoch expire_at)) (ret True))
                 (\<lambda>e. case e of ClientError c \<Rightarrow> ret False | _ \<Rightarrow> raise e)) (\<lambda>ok.
             if \<not> ok then ret (recorded_answer env False)
             else thenP
               (write_audit_log env created (str ''AUTH_FAILURE_RECORDED'') (PStr (str ''<anonymous>''))
                 (str_of user_identifier) (str ''RECORDED'') None None
                 (Some [(str ''expireAt'', PInt expire_at), (str ''epochTimestamp'', PInt now_epoch)]))
               (ret (recorded_answer env True))))))"

section \<open>The history\<close>

text \<open>
  The instants recorded for a user, when the row is absent or has the shape the two writers give it.
\<close>

definition row_failures :: "pydict option \<Rightarrow> int list option" where
  "row_failures r = (case r of
     None \<Rightarrow> Some []
   | Some d \<Rightarrow> (case dget_or d ''failedAts'' (PList []) of
       PList xs \<Rightarrow> (case map_res py_int xs of
          Inr ts \<Rightarrow> if xs = map (\<lambda>t. PDec (of_int t)) ts then Some ts else None | Inl _ \<Rightarrow> None)
     | _ \<Rightarrow> None))"

definition stamps :: "int list \<Rightarrow> pyval" where
  "stamps ts = PList (map (\<lambda>t. PDec (of_int t)) ts)"

lemma map_res_stamps: "map_res py_int (map (\<lambda>t. PDec (of_int t)) ts) = Inr ts"
  by (induction ts) (simp_all add: rat_trunc_def)

lemma map_stamp_eq [simp]:
  "map (\<lambda>t. PDec (of_int t)) xs = map (\<lambda>t. PDec (of_int t)) ys \<longleftrightarrow> xs = ys"
  by (rule inj_map_eq_map) (simp add: inj_def)

lemma row_failures_iff:
  "row_failures r = Some ts \<longleftrightarrow>
     (case r of None \<Rightarrow> ts = [] | Some d \<Rightarrow> dget_or d ''failedAts'' (PList []) = stamps ts)"
proof (cases r)
  case (Some d)
  show ?thesis
    by (cases "dget_or d ''failedAts'' (PList [])")
      (auto simp: Some row_failures_def stamps_def map_res_stamps split: sum.split)
qed (auto simp: row_failures_def)

lemma failed_ats_of_row:
  "row_failures r = Some ts \<Longrightarrow>
     failed_ats_of (dget (case r of None \<Rightarrow> [] | Some d \<Rightarrow> [(str ''Item'', PDict d)]) ''Item'') = Inr ts"
  by (cases r) (auto simp: row_failures_iff failed_ats_of_def stamps_def map_res_stamps)

text \<open>\<open>update_item\<close> on a list that is absent or a list of instants.\<close>

lemma failure_row:
  assumes "row_failures r = Some ts"
  shows "write_row (record_failure_update u n e) r = Some (Some (apply_upds
      (case r of None \<Rightarrow> norm_row (lockout_key u) | Some d \<Rightarrow> d)
      [ListAppend ''failedAts'' [PInt n], SetAttr ''expireAt'' (PInt e)]))"
    and "row_failures (Some (apply_upds (case r of None \<Rightarrow> norm_row (lockout_key u) | Some d \<Rightarrow> d)
      [ListAppend ''failedAts'' [PInt n], SetAttr ''expireAt'' (PInt e)])) = Some (ts @ [n])"
proof -
  have "dget d ''failedAts'' = (case dfind d ''failedAts'' of None \<Rightarrow> PNone | Some v \<Rightarrow> v)" for d
    by (simp add: dget_def)
  moreover have "elems_of (dget d ''failedAts'') = map (\<lambda>t. PDec (of_int t)) ts"
    if "dget_or d ''failedAts'' (PList []) = stamps ts" for d
    using that by (auto simp: dget_def dget_or_def stamps_def split: option.splits)
  ultimately show "row_failures (Some (apply_upds (case r of None \<Rightarrow> norm_row (lockout_key u) | Some d \<Rightarrow> d)
      [ListAppend ''failedAts'' [PInt n], SetAttr ''expireAt'' (PInt e)])) = Some (ts @ [n])"
    using assms by (cases r) (auto simp: row_failures_iff stamps_def norm_row_def lockout_key_def)
qed (simp add: record_failure_update_def)

lemma lockout_key_of [simp]: "key_of LockoutTable (lockout_key u) = [PStr u]"
  by (simp add: key_of_def lockout_key_def)

lemma readonly_audit: "all_calls readonly (write_audit_log env created ev who target outcome ts ph extra)"
  by (auto simp: write_audit_log_def audit_now_iso_def stream_name_def today_yyyymmdd_def readonly_def
      ensure_log_stream_def now_epoch_ms_def Let_def split: option.splits list.splits
      intro!: all_calls_bindP all_calls_catchP)

definition clock_s :: "'s ops \<Rightarrow> 's \<Rightarrow> int" where
  "clock_s W s = (fst (reading W s ClockUs) - epoch_us) div 1000000"

context dynamodb begin

lemma run_now_epoch_s:
  obtains s' where "run W now_epoch_s s = (Inr (clock_s W s), s')" "row s' = row s"
  using frame_reading [of s ClockUs]
  by (cases "reading W s ClockUs") (auto simp: now_epoch_s_def run_bindP run_now clock_s_def)

lemma run_pre_auth:
  assumes "dget event ''userName'' = PStr u" "u \<noteq> []"
    and "row_failures (row s LockoutTable [PStr u]) = Some ts"
  obtains s' where "run W (pre_auth_handler env event) s =
      (if is_locked ts (clock_s W s) (lockout_threshold env) (lockout_window env)
       then Inl PermissionError else Inr event, s')" "row s' = row s"
proof -
  obtain s1 where 1: "run W now_epoch_s s = (Inr (clock_s W s), s1)" "row s1 = row s"
    by (rule run_now_epoch_s)
  obtain s2 where 2: "run W (aws (GetItem LockoutTable (lockout_key u))) s1 =
      (Inr (PDict (case row s LockoutTable [PStr u] of None \<Rightarrow> [] | Some d \<Rightarrow> [(str ''Item'', PDict d)])), s2)"
      "row s2 = row s"
    using run_get [of LockoutTable "lockout_key u" s1] 1(2) by auto
  show thesis using assms 1 2 failed_ats_of_row [OF assms(3)]
    by (intro that [of s2]) (simp_all add: pre_auth_handler_def user_name_of_def run_bindP)
qed

text \<open>A report with a valid address is counted, whatever becomes of its audit record.\<close>

lemma run_report:
  assumes "is_route event ''POST'' ''/auth/record-failure''"
    and "parse_body loads (dget event ''body'') = Inr body"
    and "dget body ''userIdentifier'' = PStr u" "is_valid_email (PStr u)"
    and "row_failures (row s LockoutTable [PStr u]) = Some ts"
    and "run W (failure_reporter_handler loads env created event) s = (r, s')"
  shows "\<exists>d. row s' = (row s)(LockoutTable := (row s LockoutTable)([PStr u] := Some d)) \<and>
    row_failures (Some d) = Some (ts @ [clock_s W s])"
proof -
  let ?e = "clock_s W s + lockout_window env"
  obtain s1 where 1: "run W now_epoch_s s = (Inr (clock_s W s), s1)" "row s1 = row s"
    by (rule run_now_epoch_s)
  note f = failure_row [OF assms(5), of u "clock_s W s" ?e]
  obtain v s2 where 2: "run W (aws (record_failure_update u (clock_s W s) ?e)) s1 = (Inr v, s2)"
    "row s2 = (row s1)(LockoutTable := (row s1 LockoutTable)([PStr u] := Some
       (apply_upds (case row s LockoutTable [PStr u] of None \<Rightarrow> norm_row (lockout_key u) | Some d \<Rightarrow> d)
      [ListAppend ''failedAts'' [PInt (clock_s W s)], SetAttr ''expireAt'' (PInt ?e)])))"
    by (rule run_write_ok [of "record_failure_update u (clock_s W s) ?e" LockoutTable "[PStr u]" s1])
      (use f(1) 1(2) in \<open>simp_all add: record_failure_update_def\<close>)
  have "row s' = row s2"
    using assms(6) 1(1) 2(1)
    by (auto simp: failure_reporter_handler_def assms(1-4) run_bindP run_catchP Let_def
        split: prod.splits sum.splits dest: run_readonly [OF readonly_audit])
  with 2(2) 1(2) f(2) show ?thesis by auto
qed

lemma run_clear:
  assumes "row_failures (row s LockoutTable [PStr u]) = Some ts"
    and "\<And>d. row s LockoutTable [PStr u] = Some d \<Longrightarrow> has_key d ''userIdentifier''"
  obtains s' where "run W (clear_lockout u n) s = (Inr (), s')"
    "row_failures (row s' LockoutTable [PStr u]) = Some []"
proof -
  let ?us = "[SetAttr ''failedAts'' (PList []), SetAttr ''expireAt'' (PInt (n - 1))]"
  let ?q = "UpdateItem LockoutTable (lockout_key u) ?us (AttrExists ''userIdentifier'')"
  have t: "write_target ?q = Some (LockoutTable, [PStr u])" by simp
  obtain s' where s': "run W (clear_lockout u n) s = (Inr (), s')"
    "row s' = (case write_row ?q (row s LockoutTable [PStr u]) of
       None \<Rightarrow> row s | Some r \<Rightarrow> (row s)(LockoutTable := (row s LockoutTable)([PStr u] := r)))"
    using run_on_codes_write [OF t, of "()" "()" s] unfolding clear_lockout_def by auto
  have r: "row_failures (row s' LockoutTable [PStr u]) = Some []"
    using assms s'(2) by (cases "row s LockoutTable [PStr u]") (auto simp: row_failures_iff stamps_def)
  show thesis by (rule that [OF s'(1) r])
qed

end

section \<open>Properties\<close>

text \<open>The state after the reports of some events, one invocation after the other.\<close>

definition after_reports ::
  "'s ops \<Rightarrow> (pystr \<Rightarrow> pyval option) \<Rightarrow> 'a lockout_env_scheme \<Rightarrow> pystr list \<Rightarrow> pydict list \<Rightarrow> 's \<Rightarrow> 's" where
  "after_reports W loads env created events s =
     foldl (\<lambda>s event. snd (run W (failure_reporter_handler loads env created event) s)) s events"

definition reports_user :: "(pystr \<Rightarrow> pyval option) \<Rightarrow> pystr \<Rightarrow> pydict \<Rightarrow> bool" where
  "reports_user loads u event \<longleftrightarrow> is_route event ''POST'' ''/auth/record-failure'' \<and>
     (\<exists>body. parse_body loads (dget event ''body'') = Inr body \<and> dget body ''userIdentifier'' = PStr u)"

context dynamodb begin

lemma reports_recorded:
  assumes "is_valid_email (PStr u)" and "list_all (reports_user loads u) events"
    and "\<And>n. n < length events \<Longrightarrow> P (clock_s W (after_reports W loads env created (take n events) s))"
    and "row_failures (row s LockoutTable [PStr u]) = Some ts"
  shows "\<exists>us. length us = length events \<and> list_all P us \<and>
    row_failures (row (after_reports W loads env created events s) LockoutTable [PStr u]) = Some (ts @ us) \<and>
    (\<forall>k. k \<noteq> [PStr u] \<longrightarrow>
       row (after_reports W loads env created events s) LockoutTable k = row s LockoutTable k)"
  using assms(2-)
proof (induction events arbitrary: s ts)
  case Nil
  then show ?case by (simp add: after_reports_def)
next
  case (Cons event events)
  obtain r s' where r: "run W (failure_reporter_handler loads env created event) s = (r, s')" by force
  obtain body where "is_route event ''POST'' ''/auth/record-failure''"
    "parse_body loads (dget event ''body'') = Inr body" "dget body ''userIdentifier'' = PStr u"
    using Cons.prems(1) by (auto simp: reports_user_def)
  from run_report [OF this assms(1) Cons.prems(3) r]
  have f: "row_failures (row s' LockoutTable [PStr u]) = Some (ts @ [clock_s W s])"
    and o: "k \<noteq> [PStr u] \<Longrightarrow> row s' LockoutTable k = row s LockoutTable k" for k by auto
  have p: "P (clock_s W s)" using Cons.prems(2) [of 0] by (simp add: after_reports_def)
  have "P (clock_s W (after_reports W loads env created (take n events) s'))" if "n < length events" for n
    using Cons.prems(2) [of "Suc n"] that r by (simp add: after_reports_def)
  with Cons.IH [of s' "ts @ [clock_s W s]"] Cons.prems(1) f obtain us where
    "length us = length events" "list_all P us"
    "row_failures (row (after_reports W loads env created events s') LockoutTable [PStr u]) =
       Some (ts @ clock_s W s # us)"
    "\<forall>k. k \<noteq> [PStr u] \<longrightarrow>
       row (after_reports W loads env created events s') LockoutTable k = row s' LockoutTable k" by auto
  then show ?case using r o p
    by (intro exI [of _ "clock_s W s # us"]) (simp add: after_reports_def)
qed

end


definition lockout_sample :: lockout_env where
  "lockout_sample = \<lparr>log_group_name = None, function_name = None, cors_allowed_origin = None,
     lockout_threshold = 5, lockout_window = 1800\<rparr>"

definition no_rows :: store where
  "no_rows = \<lparr>st_rows = [], st_clock = 0, st_log = []\<rparr>"

definition failure_event :: pydict where
  "failure_event = [(str ''httpMethod'', PStr (str ''POST'')), (str ''resource'', PStr (str ''/auth/record-failure'')),
     (str ''body'', PStr (str ''x''))]"

definition failure_loads :: "pystr \<Rightarrow> pyval option" where
  "failure_loads raw = Some (PDict [(str ''userIdentifier'', PStr (str ''a@b.c''))])"

definition login_event :: "string \<Rightarrow> pydict" where
  "login_event u = [(str ''userName'', PStr (str u))]"

lemma run_store_clock: "st_clock (snd (run store_ops p s)) = st_clock s"
proof (rule run_invariant [where P = "\<lambda>q. True" and I = "\<lambda>s'. st_clock s' = st_clock s"])
  show "all_calls (\<lambda>q. True) p" by (induction p) simp_all
  show "st_clock (snd (answer store_ops s' q)) = st_clock s" if "st_clock s' = st_clock s" for q s'
    using that by (cases q) (auto simp: store_ops_def split: option.split)
qed (simp_all add: store_ops_def)


text \<open>
  A sign-in unlocks: after the post-authentication trigger ran for a user, also when its
  audit record could not be written, the next pre-authentication lets that user in.
\<close>

theorem sign_in_unlocks:
  assumes "dynamodb W row" and "dget event ''userName'' = PStr u" and "u \<noteq> []"
    and "row_failures (row s LockoutTable [PStr u]) = Some ts"
    and "\<And>d. row s LockoutTable [PStr u] = Some d \<Longrightarrow> has_key d ''userIdentifier''"
    and "1 \<le> lockout_threshold env"
  shows "fst (run W (pre_auth_handler env event) (snd (run W (post_auth_handler env created event) s))) = Inr event"
proof -
  obtain s1 where 1: "run W now_epoch_s s = (Inr (clock_s W s), s1)" "row s1 = row s"
    by (rule dynamodb.run_now_epoch_s [OF assms(1)])
  obtain s2 where 2: "run W (clear_lockout u (clock_s W s)) s1 = (Inr (), s2)"
    "row_failures (row s2 LockoutTable [PStr u]) = Some []"
    by (rule dynamodb.run_clear [OF assms(1), of s1 u ts]) (simp_all add: 1(2) assms(4,5))
  obtain r s' where 3: "run W (post_auth_handler env created event) s = (r, s')" by force
  have "row s' = row s2"
    using 3 1(1) 2(1) by (auto simp: post_auth_handler_def user_name_of_def assms(2,3) run_bindP
        split: prod.splits sum.splits dest: dynamodb.run_readonly [OF assms(1) readonly_audit])
  then obtain s'' where "run W (pre_auth_handler env event) s' =
      (if is_locked [] (clock_s W s') (lockout_threshold env) (lockout_window env)
       then Inl PermissionError else Inr event, s'')"
    using dynamodb.run_pre_auth [OF assms(1-3), of s' "[]" env] 2(2) by auto
  moreover have "\<not> is_locked [] (clock_s W s') (lockout_threshold env) (lockout_window env)"
    by (simp add: locked_iff [OF assms(6)]) (use assms(6) in linarith)
  ultimately show ?thesis by (simp add: 3)
qed

theorem sign_in_unlocks_witness:
  "fst (run store_ops (pre_auth_handler lockout_sample (login_event ''a@b.c''))
      (snd (run store_ops (post_auth_handler lockout_sample [] (login_event ''a@b.c'')) no_rows))) =
    Inr (login_event ''a@b.c'')"
  by (rule sign_in_unlocks [OF store.dynamodb_axioms, where u = "str ''a@b.c''" and ts = "[]"])
    (simp_all add: lockout_sample_def login_event_def no_rows_def store_row_def row_failures_def)

end
