(* ===== verification/Recording_Lambdas.thy ===== *)
theory Recording_Lambdas
  imports Connect Recording_Keys Dictionary
begin

text \<open>
  The Lambdas around a recording: \<open>recording_relocator\<close> moves what Connect stored to the key the rest of
  the system expects, \<open>recording_metadata_writer\<close> registers it once, \<open>recording_api\<close> hands out links.
\<close>

section \<open>S3 events\<close>

text \<open>The bucket's name and the object block of an S3 event, checked as both Lambdas check them.\<close>

definition s3_event :: "pyval \<Rightarrow> (pyval \<times> pydict) res" where
  "s3_event event = (case event of
     PDict ev \<Rightarrow>
       (case dget ev ''detail'' of
          PDict detail \<Rightarrow>
            (let bucket_block = dget detail ''bucket''; object_block = dget detail ''object'' in
             if \<not> is_dict bucket_block \<or> \<not> truthy (dget (items_of bucket_block) ''name'') then Inl ValueError
             else if \<not> is_dict object_block \<or> \<not> truthy (dget (items_of object_block) ''key'') then Inl ValueError
             else Inr (dget (items_of bucket_block) ''name'', items_of object_block))
        | _ \<Rightarrow> Inl ValueError)
   | _ \<Rightarrow> Inl ValueError)"

definition ddb_retryable_codes :: "pystr list" where
  "ddb_retryable_codes = [str ''ThrottlingException'', str ''ProvisionedThroughputExceededException'']"

section \<open>recording_relocator\<close>

text \<open>\<open>CONTACT_ID_INDEX_NAME\<close> and \<open>CONNECT_RECORDINGS_PREFIX\<close>.\<close>

record relocator_env =
  contact_id_index :: string
  connect_prefix :: string

definition relocator_parse_event :: "pyval \<Rightarrow> (pyval \<times> pyval) res" where
  "relocator_parse_event event =
     bind_res (s3_event event) (\<lambda>(bucket, object_block). Inr (bucket, dget object_block ''key''))"

definition max_gsi_attempts :: nat where
  "max_gsi_attempts = 3"

definition contact_query :: "string \<Rightarrow> pystr \<Rightarrow> req" where
  "contact_query index contact_id =
     Query ResponseTable (Some index) ''contactId'' (PStr contact_id) True (Some 1) PNone"

text \<open>A try that is throttled and one that finds no row are both repeated after a sleep.\<close>

fun lookup_loop :: "string \<Rightarrow> pystr \<Rightarrow> nat list \<Rightarrow> pydict prog" where
  "lookup_loop index contact_id [] = raise GsiLookupExhaustedError"
| "lookup_loop index contact_id (try_idx # idxs) =
     (let again = (if try_idx < max_gsi_attempts - 1
                   then thenP (backoff_sleep try_idx) (lookup_loop index contact_id idxs)
                   else raise GsiLookupExhaustedError) in
      bindP (one_try ddb_retryable_codes (aws (contact_query index contact_id))) (\<lambda>r. case r of
        None \<Rightarrow> again
      | Some resp \<Rightarrow> (case page_items resp of row # _ \<Rightarrow> ret row | [] \<Rightarrow> again)))"

definition lookup_response_by_contact_id :: "string \<Rightarrow> pystr \<Rightarrow> pydict prog" where
  "lookup_response_by_contact_id index contact_id = lookup_loop index contact_id [0..<max_gsi_attempts]"

definition copy_and_delete :: "pyval \<Rightarrow> pyval \<Rightarrow> pystr \<Rightarrow> unit prog" where
  "copy_and_delete bucket source_key target_key =
     thenP (aws (CopyObject bucket target_key source_key))
     (thenP (aws (DeleteObject bucket source_key)) (ret ()))"

record relocation =
  rl_contact_id :: pystr
  rl_cycle_id :: pystr
  rl_employee_id :: pystr
  rl_seq :: int
  rl_source_key :: pyval
  rl_target_key :: pystr

text \<open>The cycle, the employee and the number of the attempt, from the row found.\<close>

definition row_target :: "pydict \<Rightarrow> (pystr \<times> pystr \<times> int) res" where
  "row_target row =
     (let cycle_id = dget row ''cycleId''; employee_id = dget row ''employeeId'';
          call_attempts_raw = dget row ''callAttempts'' in
      if \<not> nonempty_str cycle_id then Inl ValueError
      else if \<not> nonempty_str employee_id then Inl ValueError
      else if call_attempts_raw = PNone then Inl ValueError
      else case py_int call_attempts_raw of
        Inl e \<Rightarrow> if e \<in> {TypeError, ValueError} then Inl ValueError else Inl e
      | Inr seq \<Rightarrow> Inr (str_of cycle_id, str_of employee_id, seq))"

definition relocator_lambda_handler :: "relocator_env \<Rightarrow> pyval \<Rightarrow> relocation prog" where
  "relocator_lambda_handler env event =
     bindP (lift (relocator_parse_event event)) (\<lambda>(bucket, source_key).
     if \<not> is_str source_key then raise AttributeError
     else if \<not> starts_with (str_of source_key) (connect_prefix env) then raise ValueError
     else case parse_connect_native_key source_key of
       None \<Rightarrow> raise ValueError
     | Some info \<Rightarrow>
         bindP (lookup_response_by_contact_id (contact_id_index env) (ck_contact_id info)) (\<lambda>row.
         bindP (lift (row_target row)) (\<lambda>(cycle_id, employee_id, seq).
         bindP (lift (derive_target_outbound_key (PStr cycle_id) (PStr employee_id) (PInt seq))) (\<lambda>target_key.
         thenP (copy_and_delete bucket source_key target_key)
           (ret \<lparr>rl_contact_id = ck_contact_id info, rl_cycle_id = cycle_id, rl_employee_id = employee_id,
                 rl_seq = seq, rl_source_key = source_key, rl_target_key = target_key\<rparr>)))))"

section \<open>recording_metadata_writer\<close>

text \<open>\<open>int(raw_size)\<close>, 0 when it is refused or negative.\<close>

definition size_of_object :: "pydict \<Rightarrow> int res" where
  "size_of_object object_block =
     (case py_int (dget_or object_block ''size'' (PInt 0)) of
        Inl e \<Rightarrow> if e \<in> {TypeError, ValueError} then Inr 0 else Inl e
      | Inr n \<Rightarrow> Inr (if n < 0 then 0 else n))"

definition writer_parse_event :: "pyval \<Rightarrow> (pyval \<times> pyval \<times> int) res" where
  "writer_parse_event event =
     bind_res (s3_event event) (\<lambda>(bucket, object_block).
     bind_res (size_of_object object_block) (\<lambda>size_bytes.
       Inr (bucket, dget object_block ''key'', size_bytes)))"

text \<open>\<open>round\<close> to the nearest integer, ties to the even one.\<close>

definition py_round :: "rat \<Rightarrow> int" where
  "py_round r =
     (let f = \<lfloor>r\<rfloor>; d = r - of_int f in
      if d < 1 / 2 then f else if d > 1 / 2 then f + 1 else if even f then f else f + 1)"

definition default_bitrate_kbps :: int where
  "default_bitrate_kbps = 128"

definition estimate_duration_seconds :: "int \<Rightarrow> int \<Rightarrow> int" where
  "estimate_duration_seconds file_size_bytes bitrate_kbps =
     (if file_size_bytes \<le> 0 \<or> bitrate_kbps \<le> 0 then 0
      else py_round (of_int (file_size_bytes * 8) / of_int (bitrate_kbps * 1000)))"

definition writer_now_iso :: "pystr prog" where
  "writer_now_iso = bindP now_us (\<lambda>t. ret (iso_z_seconds t))"

definition kind_text :: "key_kind \<Rightarrow> pyval" where
  "kind_text k = PStr (str (case k of Outbound \<Rightarrow> ''outbound'' | Inbound \<Rightarrow> ''inbound''))"

definition recording_meta_item :: "key_info \<Rightarrow> pyval \<Rightarrow> pyval \<Rightarrow> int \<Rightarrow> pystr \<Rightarrow> pydict" where
  "recording_meta_item info bucket object_key file_size_bytes recorded_at =
     [(str ''cycleId'', PStr (ki_meta_pk info)), (str ''employeeIdSeq'', PStr (ki_meta_sk info)),
      (str ''employeeId'', PStr (ki_employee_id info)), (str ''s3Bucket'', bucket),
      (str ''s3ObjectKey'', object_key), (str ''recordedAt'', PStr recorded_at),
      (str ''fileSizeBytes'', PInt file_size_bytes),
      (str ''durationSeconds'', PInt (estimate_duration_seconds file_size_bytes default_bitrate_kbps)),
      (str ''kind'', kind_text (ki_kind info))] @
     (if ki_kind info = Inbound then [(str ''contactId'', PStr (ki_seq_or_contact info))] else [])"

definition max_ddb_attempts :: nat where
  "max_ddb_attempts = 3"

definition meta_put :: "pydict \<Rightarrow> req" where
  "meta_put item = PutItem RecordingMetaTable item (AttrNotExists ''cycleId'')"

definition write_metadata_with_retry :: "pydict \<Rightarrow> unit prog" where
  "write_metadata_with_retry item =
     retry_loop ddb_retryable_codes DdbWriteExhaustedError max_ddb_attempts
       (on_codes [ccfe] (thenP (aws (meta_put item)) (ret ())) ()) [0..<max_ddb_attempts]"

definition writer_lambda_handler :: "pyval \<Rightarrow> (pystr \<times> pystr \<times> key_kind) prog" where
  "writer_lambda_handler event =
     bindP (lift (writer_parse_event event)) (\<lambda>(bucket, object_key, file_size_bytes).
     case parse_recording_key object_key of
       None \<Rightarrow> raise ValueError
     | Some info \<Rightarrow>
         bindP writer_now_iso (\<lambda>recorded_at.
         thenP (write_metadata_with_retry
             (recording_meta_item info bucket object_key file_size_bytes recorded_at))
           (ret (ki_meta_pk info, ki_meta_sk info, ki_kind info))))"

section \<open>recording_api\<close>

record recording_env = api_env +
  recordings_bucket :: pystr
  transcripts_bucket :: pystr

text \<open>The two templates, \<open>cycles/{cycle_id}/{employee_id}#{seq}.{ext}\<close> and \<open>inbound/{contact_id}.{ext}\<close>.\<close>

definition cycle_object_key :: "pystr \<Rightarrow> pystr \<Rightarrow> pystr \<Rightarrow> string \<Rightarrow> pystr" where
  "cycle_object_key cycle_id employee_id seq ext =
     str ''cycles/'' @ cycle_id @ [47] @ employee_id @ [35] @ seq @ [46] @ str ext"

definition inbound_link_key :: "pystr \<Rightarrow> string \<Rightarrow> pystr" where
  "inbound_link_key contact_id ext = str ''inbound/'' @ contact_id @ [46] @ str ext"

definition link_answer :: "'a recording_env_scheme \<Rightarrow> pystr \<Rightarrow> pystr \<Rightarrow> pyval \<Rightarrow> http" where
  "link_answer env bucket s3_key url = response env 200 (Json (PDict
     [(str ''url'', url), (str ''expiresInSeconds'', PInt presigned_url_ttl_seconds),
      (str ''bucket'', PStr bucket), (str ''key'', PStr s3_key)]))"

definition now_iso_utc :: "pystr prog" where
  "now_iso_utc = bindP now_us (\<lambda>t. ret (iso_z_seconds t))"

text \<open>
  The answer for an item whose timestamp is \<open>reference\<close>: 500 without one, 410 after 90 days, else the
  link.
\<close>

definition issue_link :: "'a recording_env_scheme \<Rightarrow> pyval \<Rightarrow> pystr \<Rightarrow> pystr \<Rightarrow> http prog" where
  "issue_link env reference bucket s3_key =
     (if \<not> is_str reference then ret (response env 500 ErrorText)
      else
        bindP now_iso_utc (\<lambda>now.
        bindP (lift (can_issue_url (str_of reference) now 90)) (\<lambda>ok.
        if \<not> ok then ret (response env 410 ErrorText)
        else bindP (aws (PresignedUrl bucket s3_key presigned_url_ttl_seconds)) (\<lambda>url.
          ret (link_answer env bucket s3_key url)))))"

definition cycle_artifact :: "'a recording_env_scheme \<Rightarrow> pyval \<Rightarrow> pystr \<Rightarrow> string \<Rightarrow> http prog" where
  "cycle_artifact env path_params bucket ext =
     bindP (lift (vget_or path_params ''id'' PNone)) (\<lambda>cycle_id.
     bindP (lift (vget_or path_params ''employeeId'' PNone)) (\<lambda>employee_id.
     bindP (lift (vget_or path_params ''seq'' PNone)) (\<lambda>seq.
     if \<not> list_all nonempty_str [cycle_id, employee_id, seq] then raise ValueError
     else bindP (aws (GetItem CycleTable [(str ''cycleId'', cycle_id)])) (\<lambda>resp.
       let cycle = dget (items_of resp) ''Item'' in
       if cycle = PNone then ret (response env 404 ErrorText)
       else issue_link env (dget (items_of cycle) ''startedAt'') bucket
         (cycle_object_key (str_of cycle_id) (str_of employee_id) (str_of seq) ext)))))"

definition inbound_artifact :: "'a recording_env_scheme \<Rightarrow> pyval \<Rightarrow> pystr \<Rightarrow> string \<Rightarrow> http prog" where
  "inbound_artifact env path_params bucket ext =
     bindP (lift (vget_or path_params ''contactId'' PNone)) (\<lambda>contact_id.
     if \<not> nonempty_str contact_id then raise ValueError
     else bindP (aws (GetItem InboundTable [(str ''contactId'', contact_id)])) (\<lambda>resp.
       let inbound = dget (items_of resp) ''Item'' in
       if inbound = PNone then ret (response env 404 ErrorText)
       else issue_link env (dget (items_of inbound) ''receivedAt'') bucket
         (inbound_link_key (str_of contact_id) ext)))"

definition recording_route :: "'a recording_env_scheme \<Rightarrow> pydict \<Rightarrow> http prog" where
  "recording_route env event =
     (let path_params = or_empty (dget event ''pathParameters'') in
      if is_route event ''GET'' ''/cycles/{id}/recordings/{employeeId}/{seq}'' then
        cycle_artifact env path_params (recordings_bucket env) ''wav''
      else if is_route event ''GET'' ''/cycles/{id}/transcripts/{employeeId}/{seq}'' then
        cycle_artifact env path_params (transcripts_bucket env) ''json''
      else if is_route event ''GET'' ''/inbound/{contactId}/recording'' then
        inbound_artifact env path_params (recordings_bucket env) ''wav''
      else if is_route event ''GET'' ''/inbound/{contactId}/transcript'' then
        inbound_artifact env path_params (transcripts_bucket env) ''json''
      else ret (response env 405 ErrorText))"

definition recording_lambda_handler :: "'a recording_env_scheme \<Rightarrow> pydict \<Rightarrow> http prog" where
  "recording_lambda_handler env event =
     catchP (recording_route env event) (\<lambda>e.
       if e = ValueError then ret (response env 400 ErrorText) else raise e)"

section \<open>Facts\<close>

lemma one_try_aws_calls: "exec (one_try codes (aws q)) tr r \<Longrightarrow> calls tr = [q]"
  by (auto dest!: exec_one_try simp: exec_aws)

text \<open>The lookup issues nothing but the query and sleeps.\<close>

lemma lookup_calls:
  "all_calls (\<lambda>q. q = contact_query index contact_id \<or> (\<exists>d. q = Sleep d)) (lookup_loop index contact_id idxs)"
proof (induction idxs)
  case (Cons i "is")
  let ?P = "\<lambda>q. q = contact_query index contact_id \<or> (\<exists>d. q = Sleep d)"
  have b: "all_calls ?P (backoff_sleep i)" unfolding backoff_sleep_def all_calls.simps
    by (auto simp: py_sleep_def intro!: all_calls_bindP)
  have t: "all_calls ?P (one_try ddb_retryable_codes (aws (contact_query index contact_id)))"
    by (auto simp: one_try_def intro!: all_calls_catchP all_calls_bindP)
  show ?case using Cons b
    by (auto simp: Let_def split: option.split list.split intro!: all_calls_bindP t)
qed simp

lemma exec_copy_and_delete:
  "exec (copy_and_delete b k t) tr r \<longleftrightarrow>
     (\<exists>c. tr = [CallEv (CopyObject b t k) (Inl c)] \<and> r = Inl (ClientError c)) \<or>
     (\<exists>v c. tr = [CallEv (CopyObject b t k) (Inr v), CallEv (DeleteObject b k) (Inl c)] \<and> r = Inl (ClientError c)) \<or>
     (\<exists>v w. tr = [CallEv (CopyObject b t k) (Inr v), CallEv (DeleteObject b k) (Inr w)] \<and> r = Inr ())"
  by (auto simp: copy_and_delete_def bindP_aws exec_Call split_sum_ex)

text \<open>
  A run of the relocator: it ends before anything is moved, or it found a row and got as far as
  copying, and the trace ends with what \<open>copy_and_delete\<close> did.
\<close>

lemma exec_relocator:
  assumes "exec (relocator_lambda_handler env event) tr r"
  shows "((\<exists>e. r = Inl e) \<and> list_all (\<lambda>q. (\<exists>c. q = contact_query (contact_id_index env) c) \<or> (\<exists>d. q = Sleep d)) (calls tr)) \<or>
    (\<exists>tr1 tr2 b k info c e n t r'. tr = tr1 @ tr2 \<and> relocator_parse_event event = Inr (b, k) \<and>
       parse_connect_native_key k = Some info \<and>
       list_all (\<lambda>q. (\<exists>c. q = contact_query (contact_id_index env) c) \<or> (\<exists>d. q = Sleep d)) (calls tr1) \<and>
       derive_target_outbound_key (PStr c) (PStr e) (PInt n) = Inr t \<and> exec (copy_and_delete b k t) tr2 r' \<and>
       r = map_sum id (\<lambda>_. \<lparr>rl_contact_id = ck_contact_id info, rl_cycle_id = c, rl_employee_id = e,
                 rl_seq = n, rl_source_key = k, rl_target_key = t\<rparr>) r')"
proof (cases "relocator_parse_event event")
  case (Inl e)
  then show ?thesis using assms by (auto simp: relocator_lambda_handler_def)
next
  case (Inr bk)
  obtain b k where bk: "bk = (b, k)" by force
  show ?thesis
  proof (cases "parse_connect_native_key k")
    case None
    then show ?thesis using assms Inr bk by (auto simp: relocator_lambda_handler_def split: if_splits)
  next
    case (Some info)
    let ?Q = "\<lambda>q. (\<exists>c. q = contact_query (contact_id_index env) c) \<or> (\<exists>d. q = Sleep d)"
    let ?l = "lookup_response_by_contact_id (contact_id_index env) (ck_contact_id info)"
    have l: "list_all ?Q (calls tr1)" if "exec ?l tr1 r1" for tr1 r1
      using all_calls_exec [OF that [unfolded lookup_response_by_contact_id_def] lookup_calls]
      by (rule list.pred_mono_strong) auto
    show ?thesis
    proof (cases "is_str k \<and> starts_with (str_of k) (connect_prefix env)")
      case False
      then show ?thesis using assms Inr bk by (auto simp: relocator_lambda_handler_def split: if_splits)
    next
      case True
      then have x: "exec (bindP ?l (\<lambda>row.
         bindP (lift (row_target row)) (\<lambda>(cycle_id, employee_id, seq).
         bindP (lift (derive_target_outbound_key (PStr cycle_id) (PStr employee_id) (PInt seq))) (\<lambda>target_key.
         thenP (copy_and_delete b k target_key)
           (ret \<lparr>rl_contact_id = ck_contact_id info, rl_cycle_id = cycle_id, rl_employee_id = employee_id,
                 rl_seq = seq, rl_source_key = k, rl_target_key = target_key\<rparr>))))) tr r"
        using assms Inr bk Some by (simp add: relocator_lambda_handler_def)
      then consider (a) e where "exec ?l tr (Inl e)" "r = Inl e"
        | (b) tr1 tr2 row where "tr = tr1 @ tr2" "exec ?l tr1 (Inr row)" "exec (bindP (lift (row_target row)) (\<lambda>(cycle_id, employee_id, seq).
         bindP (lift (derive_target_outbound_key (PStr cycle_id) (PStr employee_id) (PInt seq))) (\<lambda>target_key.
         thenP (copy_and_delete b k target_key)
           (ret \<lparr>rl_contact_id = ck_contact_id info, rl_cycle_id = cycle_id, rl_employee_id = employee_id,
                 rl_seq = seq, rl_source_key = k, rl_target_key = target_key\<rparr>)))) tr2 r"
        unfolding exec_bindP [of ?l] by blast
      then show ?thesis
      proof cases
        case a
        then show ?thesis using l by blast
      next
        case b
        show ?thesis
        proof (cases "row_target row")
          case (Inl e)
          then show ?thesis using b l by auto
        next
          case r: (Inr cen)
          obtain c e n where cen: "cen = (c, e, n)" by (cases cen) auto
          show ?thesis
          proof (cases "derive_target_outbound_key (PStr c) (PStr e) (PInt n)")
            case (Inl err)
            then show ?thesis using b r cen l by auto
          next
            case t: (Inr t)
            then obtain r' where "exec (copy_and_delete b k t) tr2 r'"
              "r = map_sum id (\<lambda>_. \<lparr>rl_contact_id = ck_contact_id info, rl_cycle_id = c, rl_employee_id = e,
                 rl_seq = n, rl_source_key = k, rl_target_key = t\<rparr>) r'"
              using b(3) r cen by (fastforce simp: exec_bindP)
            then show ?thesis using Inr bk Some b(1) l [OF b(2)] t by blast
          qed
        qed
      qed
    qed
  qed
qed

lemma split_after:
  assumes "xs @ ys = us @ x # vs" and "x \<notin> set xs"
  obtains ws where "us = xs @ ws" "ys = ws @ x # vs"
  using assms(1) unfolding append_eq_append_conv2
proof (elim exE disjE conjE)
  fix w assume "xs = us @ w" "w @ ys = x # vs"
  then have "w = []" "ys = x # vs" using assms(2) by (cases w; auto)+
  then show thesis using that [of "[]"] \<open>xs = us @ w\<close> by simp
next
  fix w assume "xs @ w = us" "ys = w @ x # vs"
  then show thesis using that [of w] by simp
qed

lemma delete_after_copy:
  assumes "exec (copy_and_delete b k t) tr r" and "tr = us @ CallEv (DeleteObject b' k') a # vs"
  shows "\<exists>v. CallEv (CopyObject b' t k') (Inr v) \<in> set us"
proof (cases us)
  case Nil
  then show ?thesis using assms unfolding exec_copy_and_delete by auto
next
  case (Cons u us')
  then show ?thesis using assms unfolding exec_copy_and_delete by (cases us') auto
qed

lemma derived_target:
  assumes "derive_target_outbound_key (PStr c) (PStr e) (PInt n) = Inr t"
  shows "parse_recording_key (PStr t) =
      Some (outbound_info (slashed ''transcripts'' (c, e, nat_str (nat n)) ''.json'') (c, e, nat_str (nat n)))"
proof -
  have "c \<noteq> []" "47 \<notin> set c" "e \<noteq> []" "47 \<notin> set e" "0 \<le> n"
    using derive_target_returns [OF assms] by auto
  then show ?thesis
    using assms derive_target_value [of c e n] parse_recording_outbound [of c e "nat_str (nat n)"] all_digits_nat_str
    by simp
qed

lemma relocator_cases:
  assumes "exec (relocator_lambda_handler env event) tr r"
  obtains (stopped) e where "r = Inl e"
      "list_all (\<lambda>q. (\<exists>c. q = contact_query (contact_id_index env) c) \<or> (\<exists>d. q = Sleep d)) (calls tr)"
    | (moved) tr1 tr2 b k info c e n t r' where "tr = tr1 @ tr2" "relocator_parse_event event = Inr (b, k)"
      "parse_connect_native_key k = Some info"
      "list_all (\<lambda>q. (\<exists>c. q = contact_query (contact_id_index env) c) \<or> (\<exists>d. q = Sleep d)) (calls tr1)"
      "derive_target_outbound_key (PStr c) (PStr e) (PInt n) = Inr t" "exec (copy_and_delete b k t) tr2 r'"
      "r = map_sum id (\<lambda>_. \<lparr>rl_contact_id = ck_contact_id info, rl_cycle_id = c, rl_employee_id = e,
                 rl_seq = n, rl_source_key = k, rl_target_key = t\<rparr>) r'"
  using exec_relocator [OF assms]
  apply (elim disjE exE conjE)
  subgoal by (rule stopped)
  subgoal by (rule moved)
  done

context dynamodb begin

lemma run_write_metadata:
  assumes "key_of RecordingMetaTable item = k"
  obtains s' where "run W (write_metadata_with_retry item) s = (Inr (), s')"
    "row s' = (case write_row (meta_put item) (row s RecordingMetaTable k) of
       None \<Rightarrow> row s | Some r \<Rightarrow> (row s)(RecordingMetaTable := (row s RecordingMetaTable)(k := r)))"
proof -
  have t: "write_target (meta_put item) = Some (RecordingMetaTable, k)" by (simp add: meta_put_def assms)
  obtain s' where s': "run W (on_codes [ccfe] (thenP (aws (meta_put item)) (ret ())) ()) s = (Inr (), s')"
    "row s' = (case write_row (meta_put item) (row s RecordingMetaTable k) of
       None \<Rightarrow> row s | Some r \<Rightarrow> (row s)(RecordingMetaTable := (row s RecordingMetaTable)(k := r)))"
    using run_on_codes_write [OF t, of "()" "()" s] by auto
  moreover have "[0..<max_ddb_attempts] = [0, 1, 2]" by (simp add: max_ddb_attempts_def upt_rec)
  ultimately show thesis
    by (intro that [of s']) (simp_all add: write_metadata_with_retry_def one_try_def run_bindP run_catchP)
qed

lemma run_writer_ok:
  assumes "writer_parse_event event = Inr (b, k, n)" and "parse_recording_key k = Some info"
  obtains s' where "run W (writer_lambda_handler event) s = (Inr (ki_meta_pk info, ki_meta_sk info, ki_kind info), s')"
proof -
  obtain t s1 where t: "run W now_us s = (Inr t, s1)" by (rule run_now_frame)
  obtain s2 where "run W (write_metadata_with_retry (recording_meta_item info b k n (iso_z_seconds t))) s1 = (Inr (), s2)"
    by (rule run_write_metadata [OF refl])
  with assms t that show thesis by (simp add: writer_lambda_handler_def writer_now_iso_def run_bindP)
qed

lemma run_writer:
  assumes "run W (writer_lambda_handler event) s = (Inr (pk, sk, kd), s')"
  shows "\<exists>b k n info t. writer_parse_event event = Inr (b, k, n) \<and> parse_recording_key k = Some info \<and>
    pk = ki_meta_pk info \<and> sk = ki_meta_sk info \<and>
    row s' = (case row s RecordingMetaTable [PStr pk, PStr sk] of
       Some d \<Rightarrow> if has_key d ''cycleId'' then row s else (row s)(RecordingMetaTable :=
         (row s RecordingMetaTable)([PStr pk, PStr sk] := Some (norm_row (recording_meta_item info b k n (iso_z_seconds t)))))
     | None \<Rightarrow> (row s)(RecordingMetaTable := (row s RecordingMetaTable)([PStr pk, PStr sk] :=
         Some (norm_row (recording_meta_item info b k n (iso_z_seconds t))))))"
proof -
  obtain b k n where p: "writer_parse_event event = Inr (b, k, n)"
    using assms by (cases "writer_parse_event event") (auto simp: writer_lambda_handler_def)
  obtain info where i: "parse_recording_key k = Some info"
    using assms p by (cases "parse_recording_key k") (auto simp: writer_lambda_handler_def)
  obtain t s1 where t: "run W now_us s = (Inr t, s1)" "row s1 = row s" by (rule run_now_frame)
  let ?item = "recording_meta_item info b k n (iso_z_seconds t)"
  have k: "key_of RecordingMetaTable ?item = [PStr (ki_meta_pk info), PStr (ki_meta_sk info)]"
    by (simp add: key_of_def recording_meta_item_def)
  obtain s2 where w: "run W (write_metadata_with_retry ?item) s1 = (Inr (), s2)"
    "row s2 = (case write_row (meta_put ?item) (row s1 RecordingMetaTable [PStr (ki_meta_pk info), PStr (ki_meta_sk info)]) of
       None \<Rightarrow> row s1 | Some r \<Rightarrow> (row s1)(RecordingMetaTable :=
         (row s1 RecordingMetaTable)([PStr (ki_meta_pk info), PStr (ki_meta_sk info)] := r)))"
    by (rule run_write_metadata [OF k])
  have "run W (writer_lambda_handler event) s = (Inr (ki_meta_pk info, ki_meta_sk info, ki_kind info), s2)"
    using p i t(1) w(1) by (simp add: writer_lambda_handler_def writer_now_iso_def run_bindP)
  with assms p i t(2) w(2) show ?thesis
    by (intro exI [of _ b] exI [of _ k] exI [of _ n] exI [of _ info] exI [of _ t])
      (simp add: meta_put_def split: option.split)
qed

end

lemma size_nonneg: "size_of_object d = Inr n \<Longrightarrow> 0 \<le> n"
  by (cases "py_int (dget_or d ''size'' (PInt 0))") (auto simp: size_of_object_def split: if_splits)

text \<open>The keys \<open>recording_api\<close> presigns, and why no parser accepts them.\<close>

definition link_key :: "pyval \<Rightarrow> pystr \<Rightarrow> bool" where
  "link_key path_params k \<longleftrightarrow> (\<exists>c e n ext. k = cycle_object_key c e n ext) \<or>
     (\<exists>ext\<in>{''wav'', ''json''}. k = inbound_link_key (str_of (dget (items_of path_params) ''contactId'')) ext)"

fun link_call :: "pyval \<Rightarrow> req \<Rightarrow> bool" where
  "link_call path_params (PresignedUrl b k ttl) = link_key path_params k"
| "link_call path_params q = True"

lemma presigned_link_key:
  "all_calls (link_call (or_empty (dget event ''pathParameters''))) (recording_lambda_handler env event)"
proof -
  let ?p = "or_empty (dget event ''pathParameters'')"
  let ?P = "link_call ?p"
  have l: "all_calls ?P (issue_link env ref b k)" if "link_key ?p k" for ref b k
    using that by (auto simp: issue_link_def now_iso_utc_def intro!: all_calls_bindP)
  have k: "link_key ?p (cycle_object_key c e n ext)" for c e n ext by (auto simp: link_key_def)
  have c: "all_calls ?P (cycle_artifact env ?p b ext)" for b ext
    unfolding cycle_artifact_def by (auto simp: Let_def intro!: all_calls_bindP l k)
  have i: "all_calls ?P (inbound_artifact env ?p b ext)" if "ext \<in> {''wav'', ''json''}" for b ext
  proof (cases ?p)
    case (PDict d)
    have "link_key ?p (inbound_link_key (str_of (dget d ''contactId'')) ext)"
      using that by (auto simp: link_key_def PDict)
    moreover have "vget_or (PDict d) ''contactId'' PNone = Inr (dget d ''contactId'')"
      by (simp add: vget_or_def dget_or_def dget_def)
    ultimately show ?thesis unfolding inbound_artifact_def PDict
      by (auto simp: Let_def intro!: all_calls_bindP l [unfolded PDict])
  qed (simp_all add: inbound_artifact_def vget_or_def)
  show ?thesis unfolding recording_lambda_handler_def recording_route_def
    by (auto simp: Let_def intro!: all_calls_catchP c i)
qed

lemma no_parser_accepts:
  assumes "link_key path_params k" and "47 \<notin> set (str_of (dget (items_of path_params) ''contactId''))"
  shows "parse_recording_key (PStr k) = None \<and> parse_transcript_key (PStr k) = None"
proof -
  have "(\<exists>ss. split_on 47 k = str ''cycles'' # ss) \<or> (\<exists>a b. split_on 47 k = [a, b])"
    using assms(1) unfolding link_key_def
  proof (elim disjE exE bexE)
    fix c e n ext assume "k = cycle_object_key c e n ext"
    moreover have "str ''cycles/'' = str ''cycles'' @ [47]" "47 \<notin> set (str ''cycles'')" by (simp_all add: str_def)
    ultimately show ?thesis by (simp add: cycle_object_key_def split_on_append)
  next
    let ?c = "str_of (dget (items_of path_params) ''contactId'')"
    fix ext assume "ext \<in> {''wav'', ''json''}" "k = inbound_link_key ?c ext"
    moreover have "str ''inbound/'' = str ''inbound'' @ [47]" by (simp add: str_def)
    moreover have "47 \<notin> set (?c @ 46 # str ext)" using calculation(1) assms(2) by (auto simp: str_def)
    ultimately show ?thesis by (simp add: inbound_link_key_def split_on_append root_no_slash split_on_no)
  qed
  then have "match_outbound ''recordings'' x k = None" "match_outbound ''transcripts'' x k = None"
    "match_inbound x k = None" for x
    by (auto simp: match_outbound_def match_inbound_def split: list.split option.split)
  then show ?thesis by (simp add: parse_recording_key_def parse_transcript_key_def)
qed

section \<open>Properties\<close>

text \<open>
  Property C18. Relocation never loses a recording: whatever the services answer, the original is deleted
  only after a copy of it was acknowledged in the same bucket; and when the Lambda succeeds it ended
  with exactly that copy and that deletion, under a key from which the rest of the system reads back
  the cycle, the employee and the number of the attempt.
\<close>

theorem relocation_never_loses:
  assumes "exec (relocator_lambda_handler env event) tr r"
  shows "(\<forall>b k a tr1 tr2. tr = tr1 @ CallEv (DeleteObject b k) a # tr2 \<longrightarrow>
      (\<exists>t v. CallEv (CopyObject b t k) (Inr v) \<in> set tr1)) \<and>
    (\<forall>rl. r = Inr rl \<longrightarrow> (\<exists>b info qs. relocator_parse_event event = Inr (b, rl_source_key rl) \<and>
      calls tr = qs @ [CopyObject b (rl_target_key rl) (rl_source_key rl), DeleteObject b (rl_source_key rl)] \<and>
      parse_recording_key (PStr (rl_target_key rl)) = Some info \<and> ki_kind info = Outbound \<and>
      ki_meta_pk info = rl_cycle_id rl \<and>
      ki_meta_sk info = rl_employee_id rl @ [35] @ nat_str (nat (rl_seq rl))))"
proof -
  let ?Q = "\<lambda>q. (\<exists>c. q = contact_query (contact_id_index env) c) \<or> (\<exists>d. q = Sleep d)"
  have nd: "CallEv (DeleteObject b k) a \<notin> set tr'" if "list_all ?Q (calls tr')" for tr' b k a
    using that by (induction tr' rule: calls.induct) (auto simp: contact_query_def)
  from assms show ?thesis
  proof (cases rule: relocator_cases)
    case stopped
    have n: "CallEv (DeleteObject b k) a \<notin> set tr" for b k a by (rule nd) (rule stopped(2))
    show ?thesis
    proof (intro conjI allI impI)
      fix b k a tr1 tr2 assume "tr = tr1 @ CallEv (DeleteObject b k) a # tr2"
      then show "\<exists>t v. CallEv (CopyObject b t k) (Inr v) \<in> set tr1" using n [of b k a] by simp
    qed (use stopped(1) in simp)
  next
    case b: (moved tr1 tr2 b k info c e n t r')
    have "CallEv (DeleteObject b' k') a \<notin> set tr1" for b' k' a by (rule nd) (rule b(4))
    then have del: "\<exists>t v. CallEv (CopyObject b' t k') (Inr v) \<in> set tr3"
      if t: "tr = tr3 @ CallEv (DeleteObject b' k') a # tr4" for b' k' a tr3 tr4
    proof -
      obtain ws where "tr3 = tr1 @ ws" "tr2 = ws @ CallEv (DeleteObject b' k') a # tr4"
        by (rule split_after [OF trans [OF b(1) [symmetric] t]]) (rule nd [OF b(4)])
      then show ?thesis using delete_after_copy [OF b(6)] by fastforce
    qed
    have ok: "r' = Inr () \<Longrightarrow> calls tr2 = [CopyObject b t k, DeleteObject b k]"
      using b(6) by (auto simp: exec_copy_and_delete)
    have "\<exists>b info qs. relocator_parse_event event = Inr (b, rl_source_key rl) \<and>
      calls tr = qs @ [CopyObject b (rl_target_key rl) (rl_source_key rl), DeleteObject b (rl_source_key rl)] \<and>
      parse_recording_key (PStr (rl_target_key rl)) = Some info \<and> ki_kind info = Outbound \<and>
      ki_meta_pk info = rl_cycle_id rl \<and>
      ki_meta_sk info = rl_employee_id rl @ [35] @ nat_str (nat (rl_seq rl))" if "r = Inr rl" for rl
      using that b(1,2,7) ok derived_target [OF b(5)] by (cases r') (auto simp: outbound_info_def)
    with del show ?thesis by blast
  qed
qed

text \<open>A recording of employee \<open>e\<close> in cycle \<open>c\<close>, stored by Connect under the contact \<open>x\<close>.\<close>

definition rec_env :: relocator_env where
  "rec_env = \<lparr>contact_id_index = ''ContactIdIndex'', connect_prefix = ''p/''\<rparr>"

definition rec_event :: "string \<Rightarrow> pyval" where
  "rec_event key = PDict [(str ''detail'', PDict
     [(str ''bucket'', PDict [(str ''name'', PStr (str ''b''))]),
      (str ''object'', PDict [(str ''key'', PStr (str key)), (str ''size'', PInt 32000)])])]"

definition rec_store :: store where
  "rec_store = \<lparr>st_rows =
     [((ResponseTable, [PStr (str ''c''), PStr (str ''e'')]),
       [(str ''cycleId'', PStr (str ''c'')), (str ''employeeId'', PStr (str ''e'')),
        (str ''contactId'', PStr (str ''x'')), (str ''callAttempts'', PDec 1)])], st_clock = 0, st_log = []\<rparr>"

lemma rec_split: "split_on 47 (str ''p/CallRecordings/2026/01/02/x_1_UTC.wav'') =
   [str ''p'', str ''CallRecordings'', str ''2026'', str ''01'', str ''02'', str ''x_1_UTC.wav'']"
  by (simp add: str_def)
lemma rec_digits: "all_digits (str ''2026'')" "all_digits (str ''01'')" "all_digits (str ''02'')"
  by (simp_all add: all_digits_def is_digit_def digit_value_def nd_blocks_def str_def)
lemma rec_stamp: "lazy_timestamp [] (str ''1_UTC.wav'') = Some (str ''1'')"
  by (simp add: str_def utc_tail_def cut_ext_def Let_def suffix_def)
lemma rec_native_key:
  "parse_connect_native_key (PStr (str ''p/CallRecordings/2026/01/02/x_1_UTC.wav'')) =
     Some \<lparr>ck_contact_id = str ''x'', ck_yyyy = str ''2026'', ck_mm = str ''01'', ck_dd = str ''02'',
       ck_timestamp = str ''1''\<rparr>"
proof -
  have f: "takeWhile (\<lambda>c. c \<noteq> 95) (str ''x_1_UTC.wav'') = str ''x''"
    "dropWhile (\<lambda>c. c \<noteq> 95) (str ''x_1_UTC.wav'') = 95 # str ''1_UTC.wav''" "10 \<notin> set (str ''p'')"
    by (simp_all add: str_def)
  show ?thesis by (simp add: parse_connect_native_key_def match_connect_def rec_split rec_digits rec_stamp f Let_def)
qed
lemma rec_relocated:
  "fst (run store_ops (relocator_lambda_handler rec_env
      (rec_event ''p/CallRecordings/2026/01/02/x_1_UTC.wav'')) rec_store) =
    Inr \<lparr>rl_contact_id = str ''x'', rl_cycle_id = str ''c'', rl_employee_id = str ''e'', rl_seq = 1,
      rl_source_key = PStr (str ''p/CallRecordings/2026/01/02/x_1_UTC.wav''),
      rl_target_key = str ''recordings/c/e/1.wav''\<rparr>"
proof -
  let ?row = "[(str ''cycleId'', PStr (str ''c'')), (str ''employeeId'', PStr (str ''e'')),
        (str ''contactId'', PStr (str ''x'')), (str ''callAttempts'', PDec 1)]"
  have "run store_ops (aws (contact_query ''ContactIdIndex'' (str ''x''))) rec_store = (Inr (one_page [?row]), rec_store)"
    by (simp add: contact_query_def store_query_page query_rows_def table_rows_def rec_store_def)
  moreover have "[0..<max_gsi_attempts] = [0, 1, 2]" by (simp add: max_gsi_attempts_def upt_rec)
  ultimately have l: "run store_ops (lookup_response_by_contact_id ''ContactIdIndex'' (str ''x'')) rec_store =
      (Inr ?row, rec_store)"
    by (simp add: lookup_response_by_contact_id_def one_try_def run_bindP run_catchP Let_def)
  have d: "derive_target_outbound_key (PStr (str ''c'')) (PStr (str ''e'')) (PInt 1) = Inr (str ''recordings/c/e/1.wav'')"
    by (simp add: derive_target_outbound_key_def str_def int_str_def nat_str.simps)
  have r: "row_target ?row = Inr (str ''c'', str ''e'', 1)"
    by (simp add: row_target_def Let_def rat_trunc_def)
  have "starts_with (str ''p/CallRecordings/2026/01/02/x_1_UTC.wav'') ''p/''" by (simp add: starts_with_def str_def)
  moreover have "run store_ops (aws (CopyObject b k' k)) s' = (Inr (PDict []), s'\<lparr>st_log := st_log s' @ [CopyObject b k' k]\<rparr>)"
    "run store_ops (aws (DeleteObject b k)) s' = (Inr (PDict []), s'\<lparr>st_log := st_log s' @ [DeleteObject b k]\<rparr>)"
    for b k k' s' by (simp_all add: run_aws store_ops_def)
  ultimately show ?thesis
    by (simp add: relocator_lambda_handler_def relocator_parse_event_def s3_event_def rec_event_def rec_env_def
        rec_native_key run_bindP l d r copy_and_delete_def Let_def)
qed

theorem relocation_never_loses_witness:
  "\<exists>tr qs. exec (relocator_lambda_handler rec_env
      (rec_event ''p/CallRecordings/2026/01/02/x_1_UTC.wav'')) tr (Inr
    \<lparr>rl_contact_id = str ''x'', rl_cycle_id = str ''c'', rl_employee_id = str ''e'', rl_seq = 1,
      rl_source_key = PStr (str ''p/CallRecordings/2026/01/02/x_1_UTC.wav''),
      rl_target_key = str ''recordings/c/e/1.wav''\<rparr>) \<and>
    calls tr = qs @ [CopyObject (PStr (str ''b'')) (str ''recordings/c/e/1.wav'')
        (PStr (str ''p/CallRecordings/2026/01/02/x_1_UTC.wav'')),
      DeleteObject (PStr (str ''b'')) (PStr (str ''p/CallRecordings/2026/01/02/x_1_UTC.wav''))]"
proof -
  let ?e = "rec_event ''p/CallRecordings/2026/01/02/x_1_UTC.wav''"
  obtain tr where tr: "exec (relocator_lambda_handler rec_env ?e) tr
      (fst (run store_ops (relocator_lambda_handler rec_env ?e) rec_store))"
    using run_exec [of "relocator_lambda_handler rec_env ?e" store_ops rec_store] by blast
  have p: "relocator_parse_event ?e =
      Inr (PStr (str ''b''), PStr (str ''p/CallRecordings/2026/01/02/x_1_UTC.wav''))"
    by (simp add: rec_event_def relocator_parse_event_def s3_event_def Let_def)
  from relocation_never_loses [OF tr] show ?thesis
    using tr unfolding rec_relocated p by auto
qed

text \<open>
  A recording is registered once: the first event for a key writes one row, under the cycle and
  the attempt the key names, with the size of the object; a repeated event for that key, whatever it
  says, changes nothing.
\<close>

theorem recording_registered_once:
  assumes "dynamodb W row" and "run W (writer_lambda_handler event) s = (Inr (pk, sk, kd), s1)"
    and "row s RecordingMetaTable [PStr pk, PStr sk] = None"
    and "run W (writer_lambda_handler event') s1 = (Inr (pk, sk, kd'), s2)"
  shows "\<exists>b k n d. writer_parse_event event = Inr (b, k, n) \<and> 0 \<le> n \<and>
    row s1 = (row s)(RecordingMetaTable := (row s RecordingMetaTable)([PStr pk, PStr sk] := Some d)) \<and>
    dget d ''s3ObjectKey'' = ddb_norm k \<and> dget d ''fileSizeBytes'' = PDec (of_int n) \<and> row s2 = row s1"
proof -
  obtain b k n info t where w: "writer_parse_event event = Inr (b, k, n)"
    "row s1 = (row s)(RecordingMetaTable := (row s RecordingMetaTable)([PStr pk, PStr sk] :=
         Some (norm_row (recording_meta_item info b k n (iso_z_seconds t)))))"
    using dynamodb.run_writer [OF assms(1,2)] assms(3) by auto
  have "0 \<le> n"
    using w(1) by (auto simp: writer_parse_event_def bind_res_eq_Inr dest: size_nonneg)
  moreover have "has_key (norm_row (recording_meta_item info b k n (iso_z_seconds t))) ''cycleId''"
    by (simp add: recording_meta_item_def norm_row_def has_key_def)
  then have "row s2 = row s1"
    using dynamodb.run_writer [OF assms(1,4)] w(2) by auto
  ultimately show ?thesis using w
    by (intro exI [of _ b] exI [of _ k] exI [of _ n]
        exI [of _ "norm_row (recording_meta_item info b k n (iso_z_seconds t))"])
      (simp add: recording_meta_item_def norm_row_def)
qed

theorem recording_registered_once_witness:
  "let s1 = snd (run store_ops (writer_lambda_handler (rec_event ''recordings/c/e/1.wav'')) rec_store);
     s2 = snd (run store_ops (writer_lambda_handler (rec_event ''recordings/c/e/1.wav'')) s1) in
   (\<exists>d. store_row s1 RecordingMetaTable [PStr (str ''c''), PStr (str ''e#1'')] = Some d) \<and> store_row s2 = store_row s1"
proof -
  let ?e = "rec_event ''recordings/c/e/1.wav''"
  have w: "writer_parse_event ?e = Inr (PStr (str ''b''), PStr (str ''recordings/c/e/1.wav''), 32000)"
    by (simp add: writer_parse_event_def s3_event_def rec_event_def size_of_object_def Let_def)
  have k: "str ''recordings/c/e/1.wav'' = slashed ''recordings'' (str ''c'', str ''e'', str ''1'') ''.wav''"
    by (simp add: slashed_def str_def)
  have "parse_recording_key (PStr (str ''recordings/c/e/1.wav'')) =
      Some (outbound_info (slashed ''transcripts'' (str ''c'', str ''e'', str ''1'') ''.json'') (str ''c'', str ''e'', str ''1''))"
    unfolding k
    by (rule parse_recording_outbound) (simp_all add: str_def all_digits_def is_digit_def digit_value_def nd_blocks_def)
  note run = store.run_writer_ok [OF w this]
  have sk: "str ''e'' @ [35] @ str ''1'' = str ''e#1''" by (simp add: str_def)
  obtain s1 where 1: "run store_ops (writer_lambda_handler ?e) rec_store = (Inr (str ''c'', str ''e#1'', Outbound), s1)"
    by (rule run [of rec_store]) (use sk in \<open>simp add: outbound_info_def\<close>)
  obtain s2 where 2: "run store_ops (writer_lambda_handler ?e) s1 = (Inr (str ''c'', str ''e#1'', Outbound), s2)"
    by (rule run [of s1]) (use sk in \<open>simp add: outbound_info_def\<close>)
  have "store_row rec_store RecordingMetaTable [PStr (str ''c''), PStr (str ''e#1'')] = None"
    by (simp add: store_row_def rec_store_def)
  from recording_registered_once [OF store.dynamodb_axioms 1 this 2] show ?thesis by (auto simp: 1 2)
qed

text \<open>
  The links point elsewhere: the object key for which \<open>recording_api\<close> presigns a URL is never a key
  that the relocator writes, nor one that the parsers of recording and transcript keys accept (as long
  as the contact id of an inbound route has no slash).
\<close>

theorem links_name_no_recording:
  assumes "exec (recording_lambda_handler env event) tr r" and "PresignedUrl b k ttl \<in> set (calls tr)"
    and "47 \<notin> set (str_of (dget (items_of (or_empty (dget event ''pathParameters''))) ''contactId''))"
  shows "parse_recording_key (PStr k) = None \<and> parse_transcript_key (PStr k) = None \<and>
    \<not> (exec (relocator_lambda_handler rl_env rl_event) rl_tr (Inr rl) \<and> rl_target_key rl = k)"
proof -
  have "link_key (or_empty (dget event ''pathParameters'')) k"
    using all_calls_exec [OF assms(1) presigned_link_key] assms(2) by (fastforce simp: list_all_iff)
  from no_parser_accepts [OF this assms(3)]
  have n: "parse_recording_key (PStr k) = None" "parse_transcript_key (PStr k) = None" by simp_all
  have "rl_target_key rl \<noteq> k" if "exec (relocator_lambda_handler rl_env rl_event) rl_tr (Inr rl)"
    using that
  proof (cases rule: relocator_cases)
    case (moved tr1 tr2 b k' info c e n t r')
    then show ?thesis using derived_target [OF moved(5)] n by (cases r') auto
  qed simp
  with n show ?thesis by blast
qed

definition link_env :: recording_env where
  "link_env = \<lparr>log_group_name = None, function_name = None, cors_allowed_origin = None,
     recordings_bucket = str ''b'', transcripts_bucket = str ''t''\<rparr>"

definition link_event :: pydict where
  "link_event = [(str ''httpMethod'', PStr (str ''GET'')),
     (str ''resource'', PStr (str ''/cycles/{id}/recordings/{employeeId}/{seq}'')),
     (str ''pathParameters'', PDict [(str ''id'', PStr (str ''c'')), (str ''employeeId'', PStr (str ''e'')),
        (str ''seq'', PStr (str ''1''))])]"

text \<open>The recording relocated above, asked for the moment the cycle started.\<close>

theorem links_name_no_recording_witness:
  "\<exists>tr. exec (recording_lambda_handler link_env link_event) tr
       (Inr (link_answer link_env (str ''b'') (str ''cycles/c/e#1.wav'') (PStr (str ''u'')))) \<and>
     parse_recording_key (PStr (str ''cycles/c/e#1.wav'')) = None"
proof -
  let ?q = "PresignedUrl (str ''b'') (str ''cycles/c/e#1.wav'') presigned_url_ttl_seconds"
  let ?now = "iso_z_seconds 0"
  let ?item = "PDict [(str ''Item'', PDict [(str ''startedAt'', PStr ?now)])]"
  let ?tr = "[CallEv (GetItem CycleTable [(str ''cycleId'', PStr (str ''c''))]) (Inr ?item),
      EnvEv ClockUs 0, CallEv ?q (Inr (PStr (str ''u'')))]"
  have u: "can_issue_url ?now ?now 90 = Inr True"
    using expiry_parse_iso_z_seconds [of 0] by (simp add: can_issue_url_def dt_minus_def valid_us_def max_us_def max_days_def us_per_day_def)
  have k: "cycle_object_key (str ''c'') (str ''e'') (str ''1'') ''wav'' = str ''cycles/c/e#1.wav''"
    by (simp add: cycle_object_key_def str_def)
  have "exec (recording_lambda_handler link_env link_event) ?tr
       (Inr (link_answer link_env (str ''b'') (str ''cycles/c/e#1.wav'') (PStr (str ''u''))))"
    by (simp add: recording_lambda_handler_def recording_route_def link_event_def is_route_def or_empty_def
        cycle_artifact_def issue_link_def now_iso_utc_def now_us_def bindP_aws exec_Call exec_Env exec_catchP vget_or_def
        link_env_def k u Let_def)
  then show ?thesis
    using links_name_no_recording [where k = "str ''cycles/c/e#1.wav''"] by (fastforce simp: link_event_def or_empty_def)
qed

end
