(* ===== verification/Py_Bytes.thy ===== *)
theory Py_Bytes
  imports Py_Text "HOL-Library.Word"
begin

text \<open>
  Bytes: \<open>bytes.decode("utf-8")\<close> and \<open>str.encode("utf-8")\<close>, \<open>base64.b64encode\<close> and both modes of
  \<open>base64.b64decode\<close>, with the round trips the encryption of fields and the upload of files rest on.
\<close>

section \<open>UTF-8\<close>

type_synonym bytes = "8 word list"

text \<open>A continuation byte and the six bits it carries.\<close>

definition cont :: "8 word \<Rightarrow> bool" where
  "cont b \<longleftrightarrow> 128 \<le> unat b \<and> unat b < 192"

text \<open>The value of a sequence of a lead byte (without its marker) and continuation bytes.\<close>

definition cp2 :: "8 word \<Rightarrow> 8 word \<Rightarrow> nat" where
  "cp2 b c = (unat b - 192) * 64 + (unat c - 128)"

definition cp3 :: "8 word \<Rightarrow> 8 word \<Rightarrow> 8 word \<Rightarrow> nat" where
  "cp3 b c d = ((unat b - 224) * 64 + (unat c - 128)) * 64 + (unat d - 128)"

definition cp4 :: "8 word \<Rightarrow> 8 word \<Rightarrow> 8 word \<Rightarrow> 8 word \<Rightarrow> nat" where
  "cp4 b c d e = (((unat b - 240) * 64 + (unat c - 128)) * 64 + (unat d - 128)) * 64 + (unat e - 128)"

definition surrogate :: "nat \<Rightarrow> bool" where
  "surrogate n \<longleftrightarrow> 55296 \<le> n \<and> n < 57344"

text \<open>
  Strict decoding: no overlong form, no surrogate, nothing above \<open>U+10FFFF\<close>. \<open>None\<close> is a
  \<open>UnicodeDecodeError\<close>.
\<close>

fun utf8_decode :: "bytes \<Rightarrow> pystr option" where
  "utf8_decode [] = Some []"
| "utf8_decode (b # bs) =
     (if unat b < 128 then map_option ((#) (unat b)) (utf8_decode bs)
      else if unat b < 224 then
        (case bs of
           c # r \<Rightarrow>
             if 192 \<le> unat b \<and> cont c \<and> 128 \<le> cp2 b c
             then map_option ((#) (cp2 b c)) (utf8_decode r) else None
         | _ \<Rightarrow> None)
      else if unat b < 240 then
        (case bs of
           c # d # r \<Rightarrow>
             if cont c \<and> cont d \<and> 2048 \<le> cp3 b c d \<and> \<not> surrogate (cp3 b c d)
             then map_option ((#) (cp3 b c d)) (utf8_decode r) else None
         | _ \<Rightarrow> None)
      else
        (case bs of
           c # d # e # r \<Rightarrow>
             if unat b < 248 \<and> cont c \<and> cont d \<and> cont e \<and> 65536 \<le> cp4 b c d e \<and> cp4 b c d e < 1114112
             then map_option ((#) (cp4 b c d e)) (utf8_decode r) else None
         | _ \<Rightarrow> None))"

text \<open>A surrogate cannot be encoded (\<open>UnicodeEncodeError\<close>, a \<open>ValueError\<close>).\<close>

definition utf8_char :: "nat \<Rightarrow> bytes option" where
  "utf8_char n =
     (if n < 128 then Some [of_nat n]
      else if n < 2048 then Some [of_nat (192 + n div 64), of_nat (128 + n mod 64)]
      else if surrogate n then None
      else if n < 65536 then
        Some [of_nat (224 + n div 4096), of_nat (128 + n div 64 mod 64), of_nat (128 + n mod 64)]
      else if n < 1114112 then
        Some [of_nat (240 + n div 262144), of_nat (128 + n div 4096 mod 64), of_nat (128 + n div 64 mod 64),
          of_nat (128 + n mod 64)]
      else None)"

fun utf8_encode :: "pystr \<Rightarrow> bytes option" where
  "utf8_encode [] = Some []"
| "utf8_encode (n # s) =
     (case (utf8_char n, utf8_encode s) of (Some b, Some bs) \<Rightarrow> Some (b @ bs) | _ \<Rightarrow> None)"

lemma unat_byte: "n < 256 \<Longrightarrow> unat (of_nat n :: 8 word) = n"
  by (simp add: unat_of_nat take_bit_nat_eq_self)

lemma byte_arith:
  "m mod 64 < 64" "128 + m mod 64 < (256::nat)" for m :: nat
  by (simp_all add: add.commute less_le_trans [of _ 64])

lemma decode_char:
  assumes "utf8_char n = Some b"
  shows "utf8_decode (b @ r) = map_option ((#) n) (utf8_decode r)"
proof -
  have c: "cont (of_nat (128 + m mod 64))" "unat (of_nat (128 + m mod 64) :: 8 word) = 128 + m mod 64" for m :: nat
  proof -
    have "128 + m mod 64 < 192" by (simp add: add.commute)
    then show u: "unat (of_nat (128 + m mod 64) :: 8 word) = 128 + m mod 64" by (intro unat_byte) linarith
    with \<open>128 + m mod 64 < 192\<close> show "cont (of_nat (128 + m mod 64))" unfolding cont_def u by simp
  qed
  consider "n < 128" | "128 \<le> n" "n < 2048" | "2048 \<le> n" "n < 65536" "\<not> surrogate n"
    | "65536 \<le> n" "n < 1114112" "\<not> surrogate n"
    using assms by (auto simp: utf8_char_def split: if_splits)
  then show ?thesis
  proof cases
    case 1
    then show ?thesis using assms by (auto simp: utf8_char_def unat_byte)
  next
    case 2
    have d: "n div 64 < 32" "2 \<le> n div 64" using 2 by auto
    then have u: "unat (of_nat (192 + n div 64) :: 8 word) = 192 + n div 64" by (intro unat_byte) simp
    have v: "cp2 (of_nat (192 + n div 64)) (of_nat (128 + n mod 64)) = n"
      unfolding cp2_def u c by simp
    have b: "b = [of_nat (192 + n div 64), of_nat (128 + n mod 64)]"
      using assms 2 by (simp add: utf8_char_def del: of_nat_add)
    show ?thesis using 2 d unfolding b by (simp add: u c v del: of_nat_add)
  next
    case 3
    have d: "n div 4096 < 16" using 3 by auto
    then have u: "unat (of_nat (224 + n div 4096) :: 8 word) = 224 + n div 4096" by (intro unat_byte) simp
    have v: "cp3 (of_nat (224 + n div 4096)) (of_nat (128 + n div 64 mod 64)) (of_nat (128 + n mod 64)) = n"
      unfolding cp3_def u c by (simp add: div_mult2_eq [of n 64 64, simplified])
    have b: "b = [of_nat (224 + n div 4096), of_nat (128 + n div 64 mod 64), of_nat (128 + n mod 64)]"
      using assms 3 by (simp add: utf8_char_def del: of_nat_add)
    show ?thesis using 3 d unfolding b by (simp add: u c v del: of_nat_add)
  next
    case 4
    have d: "n div 262144 < 8" using 4 by auto
    then have u: "unat (of_nat (240 + n div 262144) :: 8 word) = 240 + n div 262144" by (intro unat_byte) simp
    have v: "cp4 (of_nat (240 + n div 262144)) (of_nat (128 + n div 4096 mod 64))
        (of_nat (128 + n div 64 mod 64)) (of_nat (128 + n mod 64)) = n"
    proof -
      have "n div 4096 = n div 64 div 64" "n div 262144 = n div 64 div 64 div 64"
        by (simp_all flip: div_mult2_eq)
      then show ?thesis unfolding cp4_def u c
        using div_mult_mod_eq [of n 64] div_mult_mod_eq [of "n div 64" 64] div_mult_mod_eq [of "n div 64 div 64" 64]
        by simp
    qed
    have b: "b = [of_nat (240 + n div 262144), of_nat (128 + n div 4096 mod 64), of_nat (128 + n div 64 mod 64),
          of_nat (128 + n mod 64)]"
      using assms 4 by (simp add: utf8_char_def del: of_nat_add)
    show ?thesis using 4 d unfolding b by (simp add: u c v del: of_nat_add)
  qed
qed

lemma utf8_roundtrip: "utf8_encode s = Some bs \<Longrightarrow> utf8_decode bs = Some s"
proof (induction s arbitrary: bs)
  case (Cons n s)
  then obtain b bs' where "utf8_char n = Some b" "utf8_encode s = Some bs'" "bs = b @ bs'"
    by (auto split: option.splits)
  with Cons.IH show ?case by (simp add: decode_char)
qed simp

lemma utf8_ascii: "list_all (\<lambda>c. c < 128) s \<Longrightarrow> utf8_encode s = Some (map of_nat s)"
  by (induction s) (auto simp: utf8_char_def)

section \<open>Base 64\<close>

definition b64_char :: "nat \<Rightarrow> nat" where
  "b64_char n =
     (if n < 26 then 65 + n else if n < 52 then 71 + n else if n < 62 then n - 4 else if n = 62 then 43 else 47)"

definition b64_value :: "nat \<Rightarrow> nat option" where
  "b64_value c =
     (if 65 \<le> c \<and> c < 91 then Some (c - 65)
      else if 97 \<le> c \<and> c < 123 then Some (c - 71)
      else if 48 \<le> c \<and> c < 58 then Some (c + 4)
      else if c = 43 then Some 62
      else if c = 47 then Some 63
      else None)"

fun b64encode :: "bytes \<Rightarrow> pystr" where
  "b64encode [] = []"
| "b64encode [a] = [b64_char (unat a div 4), b64_char (unat a mod 4 * 16), 61, 61]"
| "b64encode [a, b] =
     [b64_char (unat a div 4), b64_char (unat a mod 4 * 16 + unat b div 16), b64_char (unat b mod 16 * 4), 61]"
| "b64encode (a # b # c # r) =
     [b64_char (unat a div 4), b64_char (unat a mod 4 * 16 + unat b div 16),
      b64_char (unat b mod 16 * 4 + unat c div 64), b64_char (unat c mod 64)] @ b64encode r"

text \<open>
  \<open>binascii.a2b_base64\<close> of Python 3.12: the position in the quad, the bits left over, the pads seen and
  whether padding has begun. Outside strict mode, characters that are not of the alphabet are skipped.
\<close>

record b64_state =
  bs_quad :: nat
  bs_left :: nat
  bs_pads :: nat
  bs_padded :: bool
  bs_out :: bytes

definition b64_push :: "b64_state \<Rightarrow> nat \<Rightarrow> b64_state" where
  "b64_push st v =
     (let q = bs_quad st; l = bs_left st; o' = bs_out st; st' = st\<lparr>bs_pads := 0\<rparr> in
      if q = 0 then st'\<lparr>bs_quad := 1, bs_left := v\<rparr>
      else if q = 1 then st'\<lparr>bs_quad := 2, bs_left := v mod 16, bs_out := o' @ [of_nat (l * 4 + v div 16)]\<rparr>
      else if q = 2 then st'\<lparr>bs_quad := 3, bs_left := v mod 4, bs_out := o' @ [of_nat (l * 16 + v div 4)]\<rparr>
      else st'\<lparr>bs_quad := 0, bs_left := 0, bs_out := o' @ [of_nat (l * 64 + v)]\<rparr>)"

fun b64_loop :: "bool \<Rightarrow> pystr \<Rightarrow> b64_state \<Rightarrow> bytes option" where
  "b64_loop strict [] st = (if bs_quad st \<noteq> 0 then None else Some (bs_out st))"
| "b64_loop strict (c # cs) st =
     (if c = 61 then
        (if 2 \<le> bs_quad st \<and> 4 \<le> bs_quad st + (bs_pads st + 1)
         then (if strict \<and> cs \<noteq> [] then None else Some (bs_out st))
         else b64_loop strict cs
           (st\<lparr>bs_padded := True, bs_pads := (if 2 \<le> bs_quad st then bs_pads st + 1 else bs_pads st)\<rparr>))
      else case b64_value c of
        None \<Rightarrow> if strict then None else b64_loop strict cs st
      | Some v \<Rightarrow> if strict \<and> bs_padded st then None else b64_loop strict cs (b64_push st v))"

definition b64_start :: b64_state where
  "b64_start = \<lparr>bs_quad = 0, bs_left = 0, bs_pads = 0, bs_padded = False, bs_out = []\<rparr>"

text \<open>\<open>base64.b64decode(s, validate)\<close> of a \<open>str\<close>; \<open>None\<close> is a \<open>ValueError\<close> (\<open>binascii.Error\<close> is one).\<close>

definition b64decode :: "bool \<Rightarrow> pystr \<Rightarrow> bytes option" where
  "b64decode validate s =
     (if \<not> list_all (\<lambda>c. c < 128) s then None
      else if validate \<and> s \<noteq> [] \<and> hd s = 61 then None
      else b64_loop validate s b64_start)"

lemma b64_value_char: "n < 64 \<Longrightarrow> b64_value (b64_char n) = Some n"
  by (auto simp: b64_value_def b64_char_def)

lemma b64_char_ascii: "n < 64 \<Longrightarrow> b64_char n < 128" "n < 64 \<Longrightarrow> b64_char n \<noteq> 61"
  by (auto simp: b64_char_def)

lemma unat_byte_bound: "unat (b :: 8 word) < 256"
  by (rule less_le_trans [OF unsigned_less]) simp

lemma sextets:
  fixes a b c :: "8 word"
  shows "unat a div 4 < 64" "unat a mod 4 * 16 + unat b div 16 < 64" "unat b mod 16 * 4 + unat c div 64 < 64"
    "unat c mod 64 < 64" "unat a mod 4 * 16 < 64" "unat b mod 16 * 4 < 64"
proof -
  have "unat a < 256" "unat b < 256" "unat c < 256" by (rule unat_byte_bound)+
  then have "unat b div 16 < 16" "unat c div 64 < 4" "unat a div 4 < 64" by auto
  moreover have "unat a mod 4 < 4" "unat b mod 16 < 16" by simp_all
  ultimately show "unat a div 4 < 64" "unat a mod 4 * 16 + unat b div 16 < 64"
    "unat b mod 16 * 4 + unat c div 64 < 64" "unat c mod 64 < 64" "unat a mod 4 * 16 < 64" "unat b mod 16 * 4 < 64"
    by linarith+
qed

lemma b64_loop_char:
  "n < 64 \<Longrightarrow> \<not> bs_padded st \<Longrightarrow> b64_loop v (b64_char n # cs) st = b64_loop v cs (b64_push st n)"
  by (simp add: b64_value_char b64_char_ascii)

lemma regroup:
  fixes a b c :: "8 word"
  shows "(unat a mod 4 * 16 + unat b div 16) div 16 = unat a mod 4"
    "(unat a mod 4 * 16 + unat b div 16) mod 16 = unat b div 16"
    "(unat b mod 16 * 4 + unat c div 64) div 4 = unat b mod 16"
    "(unat b mod 16 * 4 + unat c div 64) mod 4 = unat c div 64"
proof -
  have "unat b div 16 < 16" "unat c div 64 < 4" using unat_byte_bound [of b] unat_byte_bound [of c] by auto
  then show "(unat a mod 4 * 16 + unat b div 16) div 16 = unat a mod 4"
    "(unat a mod 4 * 16 + unat b div 16) mod 16 = unat b div 16"
    "(unat b mod 16 * 4 + unat c div 64) div 4 = unat b mod 16"
    "(unat b mod 16 * 4 + unat c div 64) mod 4 = unat c div 64"
    by simp_all
qed

lemma b64_loop_encode:
  "b64_loop v (b64encode bs) \<lparr>bs_quad = 0, bs_left = 0, bs_pads = 0, bs_padded = False, bs_out = o'\<rparr> = Some (o' @ bs)"
proof (induction bs arbitrary: o' rule: b64encode.induct)
  case 1
  show ?case by simp
next
  case (2 a)
  show ?case using sextets(1) [of a] sextets(5) [of a]
    by (simp add: b64_loop_char b64_push_def Let_def del: b64_loop.simps(2)) (simp add: del: of_nat_add)
next
  case (3 a b)
  have "unat b div 16 < 16" using unat_byte_bound [of b] by auto
  then show ?case using sextets(1) [of a] sextets(2) [of a b] sextets(6) [of b]
    by (simp add: b64_loop_char b64_push_def regroup Let_def del: b64_loop.simps(2) of_nat_add)
      (simp add: del: of_nat_add)
next
  case (4 a b c r)
  have "unat b div 16 < 16" "unat c div 64 < 4" using unat_byte_bound [of b] unat_byte_bound [of c] by auto
  then show ?case using 4 [of "o' @ [a, b, c]"] sextets(1) [of a] sextets(2) [of a b] sextets(3) [of b c] sextets(4) [of c]
    by (simp add: b64_loop_char b64_push_def regroup Let_def del: b64_loop.simps(2) of_nat_add)
qed

lemma b64encode_ascii: "list_all (\<lambda>c. c < 128) (b64encode bs)"
  by (induction bs rule: b64encode.induct) (simp_all add: b64_char_ascii sextets)

lemma b64encode_hd: "b64encode bs \<noteq> [] \<Longrightarrow> hd (b64encode bs) \<noteq> 61"
  by (cases bs rule: b64encode.cases) (simp_all add: b64_char_ascii sextets)

lemma b64_roundtrip: "b64decode v (b64encode bs) = Some bs"
  using b64encode_hd [of bs] b64encode_ascii [of bs] b64_loop_encode [of v bs "[]"]
  by (auto simp: b64decode_def b64_start_def)

end
