(* ===== verification/Csv_Reader.thy ===== *)
theory Csv_Reader
  imports Py_Bytes
begin

text \<open>
  \<open>csv.reader(io.StringIO(text))\<close> with the default dialect of Python 3.12: the state machine of the
  standard library's reader (delimiter \<open>,\<close>, quote character \<open>"\<close> doubled inside quotes, not strict) over the
  lines of the text, which \<open>StringIO\<close> cuts after each newline.
\<close>

datatype csv_mode =
    StartRecord
  | StartField
  | InField
  | InQuotedField
  | QuoteInQuotedField
  | EatCrnl

datatype csv_error = NewlineInField | FieldTooLong

record csv_state =
  cs_mode :: csv_mode
  cs_field :: pystr
  cs_fields :: "pystr list"

definition csv_reset :: csv_state where
  "csv_reset = \<lparr>cs_mode = StartRecord, cs_field = [], cs_fields = []\<rparr>"

definition field_limit :: nat where
  "field_limit = 131072"

definition add_char :: "csv_mode \<Rightarrow> csv_state \<Rightarrow> nat \<Rightarrow> csv_error + csv_state" where
  "add_char m st c =
     (if field_limit \<le> length (cs_field st) then Inl FieldTooLong
      else Inr (st\<lparr>cs_field := cs_field st @ [c], cs_mode := m\<rparr>))"

definition save_field :: "csv_mode \<Rightarrow> csv_state \<Rightarrow> csv_state" where
  "save_field m st = st\<lparr>cs_fields := cs_fields st @ [cs_field st], cs_field := [], cs_mode := m\<rparr>"

definition is_crnl :: "nat \<Rightarrow> bool" where
  "is_crnl c \<longleftrightarrow> c = 10 \<or> c = 13"

text \<open>The end of a line is a character of its own, \<open>None\<close>.\<close>

definition after_field :: "nat option \<Rightarrow> csv_mode" where
  "after_field c = (case c of None \<Rightarrow> StartRecord | Some _ \<Rightarrow> EatCrnl)"

definition ends_line :: "nat option \<Rightarrow> bool" where
  "ends_line c = (case c of None \<Rightarrow> True | Some x \<Rightarrow> is_crnl x)"

definition process_start_field :: "csv_state \<Rightarrow> nat option \<Rightarrow> csv_error + csv_state" where
  "process_start_field st c =
     (if ends_line c then Inr (save_field (after_field c) st)
      else if the c = 34 then Inr (st\<lparr>cs_mode := InQuotedField\<rparr>)
      else if the c = 44 then Inr (save_field StartField st)
      else add_char InField st (the c))"

definition process_char :: "csv_state \<Rightarrow> nat option \<Rightarrow> csv_error + csv_state" where
  "process_char st c = (case cs_mode st of
     StartRecord \<Rightarrow>
       (if c = None then Inr st
        else if is_crnl (the c) then Inr (st\<lparr>cs_mode := EatCrnl\<rparr>)
        else process_start_field st c)
   | StartField \<Rightarrow> process_start_field st c
   | InField \<Rightarrow>
       (if ends_line c then Inr (save_field (after_field c) st)
        else if the c = 44 then Inr (save_field StartField st)
        else add_char InField st (the c))
   | InQuotedField \<Rightarrow>
       (if c = None then Inr st
        else if the c = 34 then Inr (st\<lparr>cs_mode := QuoteInQuotedField\<rparr>)
        else add_char InQuotedField st (the c))
   | QuoteInQuotedField \<Rightarrow>
       (if c = Some 34 then add_char InQuotedField st 34
        else if c = Some 44 then Inr (save_field StartField st)
        else if ends_line c then Inr (save_field (after_field c) st)
        else add_char InField st (the c))
   | EatCrnl \<Rightarrow>
       (if c = None then Inr (st\<lparr>cs_mode := StartRecord\<rparr>)
        else if is_crnl (the c) then Inr st
        else Inl NewlineInField))"

fun process_chars :: "csv_state \<Rightarrow> nat option list \<Rightarrow> csv_error + csv_state" where
  "process_chars st [] = Inr st"
| "process_chars st (c # cs) =
     (case process_char st c of Inl e \<Rightarrow> Inl e | Inr st' \<Rightarrow> process_chars st' cs)"

text \<open>The lines of \<open>StringIO(text)\<close>, each with its newline.\<close>

fun lines_acc :: "pystr \<Rightarrow> pystr \<Rightarrow> pystr list" where
  "lines_acc l [] = (if l = [] then [] else [l])"
| "lines_acc l (c # cs) = (if c = 10 then (l @ [10]) # lines_acc [] cs else lines_acc (l @ [c]) cs)"

definition io_lines :: "pystr \<Rightarrow> pystr list" where
  "io_lines text' = lines_acc [] text'"

text \<open>
  The records in order and the error that ends the iteration, if any. At the end of the input an open
  quoted field is saved.
\<close>

fun csv_run :: "csv_state \<Rightarrow> pystr list \<Rightarrow> pystr list list \<times> csv_error option" where
  "csv_run st [] =
     (if cs_field st \<noteq> [] \<or> cs_mode st = InQuotedField then ([cs_fields (save_field StartRecord st)], None)
      else ([], None))"
| "csv_run st (l # ls) =
     (case process_chars st (map Some l @ [None]) of
        Inl e \<Rightarrow> ([], Some e)
      | Inr st' \<Rightarrow>
          (if cs_mode st' = StartRecord
           then (case csv_run csv_reset ls of (rs, e) \<Rightarrow> (cs_fields st' # rs, e))
           else csv_run st' ls))"

definition csv_reader :: "pystr \<Rightarrow> pystr list list \<times> csv_error option" where
  "csv_reader text' = csv_run csv_reset (io_lines text')"

section \<open>Unquoted records\<close>

text \<open>
  What the reader does on the texts the import is meant for: a field without commas, quotes and line
  ends is read as it is written.
\<close>

definition plain :: "pystr \<Rightarrow> bool" where
  "plain s \<longleftrightarrow> s \<noteq> [] \<and> length s \<le> field_limit \<and> list_all (\<lambda>c. c \<notin> {10, 13, 34, 44}) s"

lemma process_chars_append:
  "process_chars st (xs @ ys) =
     (case process_chars st xs of Inl e \<Rightarrow> Inl e | Inr st' \<Rightarrow> process_chars st' ys)"
  by (induction xs arbitrary: st) (auto split: sum.splits)

lemma in_field_chars:
  assumes "list_all (\<lambda>c. c \<notin> {10, 13, 34, 44}) s" and "length f + length s \<le> field_limit"
  shows "process_chars \<lparr>cs_mode = InField, cs_field = f, cs_fields = fs\<rparr> (map Some s) =
    Inr \<lparr>cs_mode = InField, cs_field = f @ s, cs_fields = fs\<rparr>"
  using assms
proof (induction s arbitrary: f)
  case (Cons c s)
  then show ?case
    using Cons.IH [of "f @ [c]"]
    by (simp add: process_char_def ends_line_def is_crnl_def add_char_def)
qed simp

lemma start_field_chars:
  assumes "plain s" and "m \<in> {StartRecord, StartField}"
  shows "process_chars \<lparr>cs_mode = m, cs_field = [], cs_fields = fs\<rparr> (map Some s) =
    Inr \<lparr>cs_mode = InField, cs_field = s, cs_fields = fs\<rparr>"
proof -
  obtain c t where s: "s = c # t" using assms(1) by (cases s) (auto simp: plain_def)
  have c: "c \<notin> {10, 13, 34, 44}" "list_all (\<lambda>c. c \<notin> {10, 13, 34, 44}) t" "length [c] + length t \<le> field_limit"
    using assms(1) by (auto simp: plain_def s)
  have "process_char \<lparr>cs_mode = m, cs_field = [], cs_fields = fs\<rparr> (Some c) =
      Inr \<lparr>cs_mode = InField, cs_field = [c], cs_fields = fs\<rparr>"
    using assms(2) c(1)
    by (auto simp: process_char_def process_start_field_def ends_line_def is_crnl_def add_char_def field_limit_def)
  then show ?thesis using in_field_chars [OF c(2,3), of fs] by (simp add: s)
qed

lemma two_fields:
  assumes "plain a" and "plain b" and "e \<in> {[], [10], [13, 10]}"
  shows "process_chars csv_reset (map Some (a @ [44] @ b @ e) @ [None]) =
    Inr \<lparr>cs_mode = StartRecord, cs_field = [], cs_fields = [a, b]\<rparr>"
  using assms(3)
  by (auto simp: process_chars_append csv_reset_def start_field_chars assms(1,2) process_char_def save_field_def
      ends_line_def after_field_def is_crnl_def)

text \<open>A text of such lines is read back record by record.\<close>

definition csv_line :: "pystr \<Rightarrow> pystr \<times> pystr \<Rightarrow> pystr" where
  "csv_line nl r = fst r @ [44] @ snd r @ nl"

definition csv_text :: "pystr \<Rightarrow> (pystr \<times> pystr) list \<Rightarrow> pystr" where
  "csv_text nl rs = concat (map (csv_line nl) rs)"

lemma lines_acc_line: "10 \<notin> set l \<Longrightarrow> lines_acc acc (l @ 10 # r) = (acc @ l @ [10]) # lines_acc [] r"
  by (induction l arbitrary: acc) auto

lemma csv_text_lines:
  assumes "nl \<in> {[10], [13, 10]}" and "\<forall>(a, b)\<in>set rs. plain a \<and> plain b"
  shows "io_lines (csv_text nl rs) = map (csv_line nl) rs"
  using assms(2)
proof (induction rs)
  case Nil
  then show ?case by (simp add: io_lines_def csv_text_def)
next
  case (Cons r rs)
  obtain l where l: "csv_line nl r = l @ [10]" "10 \<notin> set l"
    using assms(1) Cons.prems
    by (cases r; cases "nl = [10]") (auto simp: csv_line_def plain_def list_all_iff intro: that [of "fst r @ 44 # snd r"]
        that [of "fst r @ 44 # snd r @ [13]"])
  then have "io_lines (csv_text nl (r # rs)) = (l @ [10]) # io_lines (csv_text nl rs)"
    by (simp add: io_lines_def csv_text_def lines_acc_line)
  with l Cons show ?case by simp
qed

lemma csv_run_lines:
  assumes "nl \<in> {[10], [13, 10]}" and "\<forall>(a, b)\<in>set rs. plain a \<and> plain b"
  shows "csv_run csv_reset (map (csv_line nl) rs) = (map (\<lambda>(a, b). [a, b]) rs, None)"
  using assms(2)
proof (induction rs)
  case Nil
  then show ?case by (simp add: csv_reset_def)
next
  case (Cons r rs)
  obtain a b where r: "r = (a, b)" by force
  have "process_chars csv_reset (map Some (csv_line nl r) @ [None]) =
      Inr \<lparr>cs_mode = StartRecord, cs_field = [], cs_fields = [a, b]\<rparr>"
    using two_fields [of a b nl] assms(1) Cons.prems r by (auto simp: csv_line_def)
  with Cons r show ?case by simp
qed

lemma csv_reader_text:
  assumes "nl \<in> {[10], [13, 10]}" and "\<forall>(a, b)\<in>set rs. plain a \<and> plain b"
  shows "csv_reader (csv_text nl rs) = (map (\<lambda>(a, b). [a, b]) rs, None)"
  using assms by (simp add: csv_reader_def csv_text_lines csv_run_lines)

end
