(* ===== verification/Employee_Csv.thy ===== *)
theory Employee_Csv
  imports Csv_Reader Validation
begin

text \<open>
  The upload of employees: \<open>backend/shared/employee/csv_parser.py\<close>, and the file-level gate of
  \<open>csv_constraints.py\<close>.
\<close>

section \<open>Results\<close>

definition max_data_rows :: nat where
  "max_data_rows = 300"

definition max_bytes :: nat where
  "max_bytes = 1 * 1024 * 1024"

definition required_headers :: "pystr list" where
  "required_headers = [str ''name'', str ''phoneNumber'']"

record employee_row =
  er_name :: pystr
  er_phone :: pystr

text \<open>One constructor per message, with what it quotes.\<close>

datatype csv_reason =
    FileTooLarge
  | NotUtf8
  | NoHeader
  | BadCsvHeader csv_error
  | WrongHeader "pystr list"
  | TooManyRows
  | WrongColumns nat
  | BadName
  | BadPhone pystr
  | DuplicatePhone nat pystr
  | BadCsv csv_error
  | NoDataRows

type_synonym csv_parse_error = "nat \<times> csv_reason"

record csv_parse_result =
  pr_rows :: "employee_row list"
  pr_errors :: "csv_parse_error list"

definition file_error :: "nat \<Rightarrow> csv_reason \<Rightarrow> csv_parse_result" where
  "file_error line reason = \<lparr>pr_rows = [], pr_errors = [(line, reason)]\<rparr>"

section \<open>The rows\<close>

definition blank_row :: "pystr list \<Rightarrow> bool" where
  "blank_row row \<longleftrightarrow> row = [] \<or> (length row = 1 \<and> py_strip (hd row) = [])"

text \<open>
  The loop's state: the rows accepted, the errors found, the first line of each number seen, the count
  of data rows.
\<close>

record csv_loop =
  lp_parsed :: "employee_row list"
  lp_errors :: "csv_parse_error list"
  lp_seen :: "(pystr \<times> nat) list"
  lp_count :: nat

definition loop_start :: csv_loop where
  "loop_start = \<lparr>lp_parsed = [], lp_errors = [], lp_seen = [], lp_count = 0\<rparr>"

definition add_error :: "nat \<Rightarrow> csv_reason \<Rightarrow> csv_loop \<Rightarrow> csv_loop" where
  "add_error line reason lp = lp\<lparr>lp_errors := lp_errors lp @ [(line, reason)]\<rparr>"

text \<open>A row that is not blank and not beyond the limit.\<close>

definition check_row :: "nat \<Rightarrow> pystr list \<Rightarrow> csv_loop \<Rightarrow> csv_loop" where
  "check_row line row lp =
     (if length row \<noteq> 2 then add_error line (WrongColumns (length row)) lp
      else
        let name_raw = py_strip (row ! 0); phone_raw = py_strip (row ! 1) in
        if \<not> is_valid_name (PStr name_raw) then add_error line BadName lp
        else if \<not> is_valid_domestic_jp (PStr phone_raw) then add_error line (BadPhone phone_raw) lp
        else
          let phone_e164 = domestic_to_e164 phone_raw in
          case map_of (lp_seen lp) phone_e164 of
            Some first \<Rightarrow> add_error line (DuplicatePhone first phone_raw) lp
          | None \<Rightarrow> lp\<lparr>lp_seen := (phone_e164, line) # lp_seen lp,
                     lp_parsed := lp_parsed lp @ [\<lparr>er_name = name_raw, er_phone = phone_e164\<rparr>]\<rparr>)"

text \<open>\<open>enumerate(reader, start=2)\<close>; the flag tells that the loop was left by \<open>break\<close>.\<close>

fun rows_loop :: "nat \<Rightarrow> pystr list list \<Rightarrow> csv_loop \<Rightarrow> csv_loop \<times> bool" where
  "rows_loop line [] lp = (lp, False)"
| "rows_loop line (row # rows) lp =
     (if blank_row row then rows_loop (line + 1) rows lp
      else
        let lp' = lp\<lparr>lp_count := lp_count lp + 1\<rparr> in
        if max_data_rows < lp_count lp' then (add_error line TooManyRows lp', True)
        else rows_loop (line + 1) rows (check_row line row lp'))"

definition finish_rows :: "csv_error option \<Rightarrow> csv_loop \<times> bool \<Rightarrow> csv_parse_result" where
  "finish_rows reader_error lb =
     (let errors = lp_errors (fst lb) @
        (case reader_error of Some e \<Rightarrow> if snd lb then [] else [(0, BadCsv e)] | None \<Rightarrow> []) in
      if errors \<noteq> [] then \<lparr>pr_rows = [], pr_errors = errors\<rparr>
      else if lp_parsed (fst lb) = [] then file_error 0 NoDataRows
      else \<lparr>pr_rows = lp_parsed (fst lb), pr_errors = []\<rparr>)"

section \<open>The file\<close>

definition parse_employee_csv :: "bytes \<Rightarrow> csv_parse_result" where
  "parse_employee_csv raw_bytes =
     (if max_bytes < length raw_bytes then file_error 0 FileTooLarge
      else case utf8_decode raw_bytes of
        None \<Rightarrow> file_error 0 NotUtf8
      | Some text' \<Rightarrow>
          (case csv_reader text' of
             ([], None) \<Rightarrow> file_error 0 NoHeader
           | ([], Some e) \<Rightarrow> file_error 0 (BadCsvHeader e)
           | (header # rows, reader_error) \<Rightarrow>
               if map py_strip header \<noteq> required_headers
               then file_error 1 (WrongHeader (map py_strip header))
               else finish_rows reader_error (rows_loop 2 rows loop_start)))"

text \<open>The gate of \<open>csv_constraints.py\<close>: only \<open>bytes\<close> are passed, so its first check always holds here.\<close>

fun count_rows :: "pystr list list \<Rightarrow> nat \<Rightarrow> nat option" where
  "count_rows [] n = Some n"
| "count_rows (row # rows) n =
     (if blank_row row then count_rows rows n
      else if max_data_rows < n + 1 then None
      else count_rows rows (n + 1))"

definition accept_csv_file :: "bytes \<Rightarrow> bool" where
  "accept_csv_file raw_bytes =
     (if max_bytes < length raw_bytes then False
      else case utf8_decode raw_bytes of
        None \<Rightarrow> False
      | Some text' \<Rightarrow>
          (case csv_reader text' of
             ([], _) \<Rightarrow> False
           | (header # rows, reader_error) \<Rightarrow>
               if map py_strip header \<noteq> required_headers then False
               else case count_rows rows 0 of
                 None \<Rightarrow> False
               | Some n \<Rightarrow> if reader_error \<noteq> None then False else 1 \<le> n))"

section \<open>Facts\<close>

text \<open>The errors of single rows; all the others reject the file as a whole.\<close>

fun row_level :: "csv_reason \<Rightarrow> bool" where
  "row_level (WrongColumns n) = True"
| "row_level BadName = True"
| "row_level (BadPhone p) = True"
| "row_level (DuplicatePhone l p) = True"
| "row_level _ = False"

definition good_row :: "employee_row \<Rightarrow> bool" where
  "good_row r \<longleftrightarrow> is_valid_name (PStr (er_name r)) \<and>
     (\<exists>p. match_domestic p \<and> er_phone r = str ''+81'' @ tl p)"

text \<open>
  What the loop keeps: the rows accepted are good and as many as the numbers seen, which are distinct;
  every data row is accepted or has an error of its own.
\<close>

definition loop_inv :: "csv_loop \<Rightarrow> bool" where
  "loop_inv lp \<longleftrightarrow> list_all good_row (lp_parsed lp) \<and> rev (map fst (lp_seen lp)) = map er_phone (lp_parsed lp) \<and>
     distinct (map er_phone (lp_parsed lp)) \<and> list_all (row_level \<circ> snd) (lp_errors lp) \<and>
     lp_count lp = length (lp_parsed lp) + length (lp_errors lp) \<and> lp_count lp \<le> max_data_rows"

lemma loop_inv_start: "loop_inv loop_start"
  by (simp add: loop_inv_def loop_start_def)

lemma check_row_inv:
  assumes "loop_inv lp" and "lp_count lp < max_data_rows"
  shows "loop_inv (check_row line row (lp\<lparr>lp_count := lp_count lp + 1\<rparr>))"
proof -
  have new: "map_of (lp_seen lp) p = None \<longleftrightarrow> p \<notin> er_phone ` set (lp_parsed lp)" for p
  proof -
    have "set (map er_phone (lp_parsed lp)) = fst ` set (lp_seen lp)"
      using assms(1) by (metis loop_inv_def set_map set_rev)
    then show ?thesis by (simp add: map_of_eq_None_iff)
  qed
  show ?thesis
    using assms
    by (auto simp: check_row_def loop_inv_def add_error_def Let_def good_row_def new is_valid_domestic_jp_def
        domestic_to_e164_def split: option.split dest: map_of_SomeD)
qed

lemma rows_loop_inv:
  assumes "loop_inv lp" and "rows_loop line rows lp = (lp', False)"
  shows "loop_inv lp'"
  using assms
proof (induction line rows lp rule: rows_loop.induct)
  case (2 line row rows lp)
  then show ?case using check_row_inv [of lp line row]
    by (auto simp: Let_def split: if_splits)
qed simp

text \<open>The gate counts the rows the loop counts, and stops where it stops.\<close>

lemma count_rows_loop:
  "count_rows rows (lp_count lp) =
     (case rows_loop line rows lp of (lp', stopped) \<Rightarrow> if stopped then None else Some (lp_count lp'))"
proof (induction line rows lp rule: rows_loop.induct)
  case (2 line row rows lp)
  have "lp_count (check_row line row lp') = lp_count lp'" for lp'
    by (auto simp: check_row_def add_error_def Let_def split: option.split)
  with 2 show ?case by (auto simp: Let_def)
qed simp

lemma rows_loop_stopped:
  "rows_loop line rows lp = (lp', True) \<Longrightarrow> \<exists>l. (l, TooManyRows) \<in> set (lp_errors lp')"
proof (induction line rows lp rule: rows_loop.induct)
  case (2 line row rows lp)
  then show ?case by (auto simp: Let_def add_error_def split: if_splits)
qed simp

text \<open>A result is rows that are all good, or errors.\<close>

definition sound_result :: "csv_parse_result \<Rightarrow> bool" where
  "sound_result pr \<longleftrightarrow>
     (pr_errors pr = [] \<and> pr_rows pr \<noteq> [] \<and> length (pr_rows pr) \<le> max_data_rows \<and> list_all good_row (pr_rows pr) \<and>
        distinct (map er_phone (pr_rows pr))) \<or>
     (pr_errors pr \<noteq> [] \<and> pr_rows pr = [])"

lemma sound_file_error: "sound_result (file_error line reason)"
  by (simp add: sound_result_def file_error_def)

lemma sound_finish_rows: "sound_result (finish_rows e (rows_loop 2 rows loop_start))"
proof (cases "rows_loop 2 rows loop_start")
  case (Pair lp b)
  have s: "lp_errors lp \<noteq> []" if b using rows_loop_stopped [of 2 rows loop_start lp] Pair that by auto
  show ?thesis
  proof (cases "lp_errors lp = [] \<and> (e = None \<or> b)")
    case False
    then show ?thesis using Pair by (cases e; cases b) (auto simp: finish_rows_def sound_result_def Let_def)
  next
    case True
    then have "\<not> b" using s by blast
    moreover from this have "loop_inv lp" using rows_loop_inv [OF loop_inv_start, of 2 rows lp] Pair by simp
    ultimately show ?thesis using True Pair
      by (auto simp: finish_rows_def file_error_def sound_result_def loop_inv_def Let_def)
  qed
qed

text \<open>A file as the administrators write it.\<close>

definition domestic :: "pystr \<Rightarrow> bool" where
  "domestic p \<longleftrightarrow> p \<noteq> [] \<and> hd p = 48 \<and> list_all is_ascii_digit p \<and> length p \<in> {10, 11}"

definition clean_name :: "pystr \<Rightarrow> bool" where
  "clean_name n \<longleftrightarrow> plain n \<and> py_strip n = n \<and> length n \<le> max_name_length"

lemma domestic_facts:
  assumes "domestic p"
  shows "match_domestic p" "py_strip p = p" "plain p"
proof -
  obtain t where t: "p = 48 # t" "list_all is_ascii_digit t" "length t \<in> {9, 10}"
    using assms by (cases p) (auto simp: domestic_def)
  have "list_all is_digit t" using t(2) ascii_digit_is_digit by (auto simp: list_all_iff)
  then show "match_domestic p" using t by (auto simp: match_domestic_def digits_then_end_all)
  show "py_strip p = p"
    by (rule py_strip_id) (use assms ascii_digit_not_space in \<open>auto simp: domestic_def list_all_iff\<close>)
  show "plain p" using assms by (auto simp: domestic_def plain_def field_limit_def list_all_iff is_ascii_digit_def)
qed

lemma headers_plain: "plain (str ''name'')" "plain (str ''phoneNumber'')"
  "py_strip (str ''name'') = str ''name''" "py_strip (str ''phoneNumber'') = str ''phoneNumber''"
  by (simp_all add: plain_def str_def field_limit_def py_strip_def lstrip_def is_space_def spaces_def)

definition clean_row :: "pystr \<times> pystr \<Rightarrow> employee_row" where
  "clean_row r = \<lparr>er_name = fst r, er_phone = str ''+81'' @ tl (snd r)\<rparr>"

lemma check_clean_row:
  assumes "clean_name n" "domestic p" and "map_of (lp_seen lp) (str ''+81'' @ tl p) = None"
  shows "check_row line [n, p] lp =
    lp\<lparr>lp_seen := (str ''+81'' @ tl p, line) # lp_seen lp, lp_parsed := lp_parsed lp @ [clean_row (n, p)]\<rparr>"
  using assms domestic_facts [OF assms(2)]
  by (simp add: check_row_def clean_name_def clean_row_def is_valid_name_def is_valid_domestic_jp_def
      domestic_to_e164_def plain_def Let_def)

lemma rows_loop_clean:
  assumes "\<forall>(n, p)\<in>set rs. clean_name n \<and> domestic p" and "distinct (map (tl \<circ> snd) rs)"
    and "\<forall>r\<in>set rs. map_of (lp_seen lp) (str ''+81'' @ tl (snd r)) = None" and "lp_errors lp = []"
    and "lp_count lp + length rs \<le> max_data_rows"
  shows "\<exists>lp'. rows_loop line (map (\<lambda>(n, p). [n, p]) rs) lp = (lp', False) \<and> lp_errors lp' = [] \<and>
    lp_parsed lp' = lp_parsed lp @ map clean_row rs"
  using assms
proof (induction rs arbitrary: line lp)
  case (Cons r rs)
  obtain n p where r: "r = (n, p)" by force
  let ?lp = "lp\<lparr>lp_count := lp_count lp + 1\<rparr>"
  let ?lp' = "?lp\<lparr>lp_seen := (str ''+81'' @ tl p, line) # lp_seen lp, lp_parsed := lp_parsed lp @ [clean_row (n, p)]\<rparr>"
  have c: "clean_name n" "domestic p" using Cons.prems(1) r by auto
  have "check_row line [n, p] ?lp = ?lp'"
    using check_clean_row [OF c, of ?lp line] Cons.prems(3) r by simp
  moreover have "\<exists>lp'. rows_loop (line + 1) (map (\<lambda>(n, p). [n, p]) rs) ?lp' = (lp', False) \<and> lp_errors lp' = [] \<and>
    lp_parsed lp' = lp_parsed ?lp' @ map clean_row rs"
    by (rule Cons.IH) (use Cons.prems r in \<open>auto simp: image_iff\<close>)
  ultimately show ?case using Cons.prems(5) r by (auto simp: blank_row_def Let_def)
qed simp

section \<open>Properties\<close>

text \<open>
  Property C25. An upload is accepted as a whole or not at all: either rows come back and no error, then the
  file has at most a mebibyte and at most 300 of them, every name is valid, every number is a domestic
  one in the form \<open>+81...\<close> and no number occurs twice; or only errors come back, at least one.
\<close>

theorem csv_all_or_nothing:
  "(pr_errors (parse_employee_csv raw) = [] \<and> pr_rows (parse_employee_csv raw) \<noteq> [] \<and>
     length raw \<le> max_bytes \<and> length (pr_rows (parse_employee_csv raw)) \<le> max_data_rows \<and>
     list_all good_row (pr_rows (parse_employee_csv raw)) \<and>
     distinct (map er_phone (pr_rows (parse_employee_csv raw)))) \<or>
   (pr_errors (parse_employee_csv raw) \<noteq> [] \<and> pr_rows (parse_employee_csv raw) = [])"
proof (cases "max_bytes < length raw")
  case False
  have "sound_result (parse_employee_csv raw)"
    by (simp add: parse_employee_csv_def sound_file_error sound_finish_rows split: option.split prod.split list.split)
  with False show ?thesis by (auto simp: sound_result_def)
qed (simp add: parse_employee_csv_def file_error_def)

text \<open>
  Property C29. The gate and the parser agree: \<open>accept_csv_file\<close> lets a file pass exactly when the parser
  finds nothing wrong with it but single rows.
\<close>

theorem gate_agrees_with_parser:
  "accept_csv_file raw \<longleftrightarrow> list_all (row_level \<circ> snd) (pr_errors (parse_employee_csv raw))"
proof -
  have f: "(case count_rows rows 0 of None \<Rightarrow> False | Some n \<Rightarrow> if e \<noteq> None then False else 1 \<le> n) \<longleftrightarrow>
      list_all (row_level \<circ> snd) (pr_errors (finish_rows e (rows_loop 2 rows loop_start)))" for e rows
  proof (cases "rows_loop 2 rows loop_start")
    case (Pair lp b)
    have c: "count_rows rows 0 = (if b then None else Some (lp_count lp))"
      using count_rows_loop [of rows loop_start 2] Pair by (simp add: loop_start_def)
    show ?thesis
    proof (cases b)
      case True
      then obtain l where "(l, TooManyRows) \<in> set (lp_errors lp)"
        using rows_loop_stopped [of 2 rows loop_start lp] Pair by auto
      then have "lp_errors lp \<noteq> []" "\<not> list_all (row_level \<circ> snd) (lp_errors lp)" by (force simp: list_all_iff)+
      with True c Pair show ?thesis by (cases e) (simp_all add: finish_rows_def Let_def)
    next
      case False
      then have "loop_inv lp" using rows_loop_inv [OF loop_inv_start, of 2 rows lp] Pair by simp
      with False c Pair show ?thesis
        by (cases e) (auto simp: finish_rows_def file_error_def loop_inv_def Let_def Suc_le_eq)
    qed
  qed
  have n: "\<not> list_all (row_level \<circ> snd) (pr_errors (file_error line reason))" if "\<not> row_level reason"
    for line reason using that by (simp add: file_error_def)
  show ?thesis
  proof (cases "max_bytes < length raw \<or> utf8_decode raw = None")
    case True
    then show ?thesis by (auto simp: accept_csv_file_def parse_employee_csv_def n)
  next
    case False
    then obtain t where t: "utf8_decode raw = Some t" by auto
    obtain rs e where r: "csv_reader t = (rs, e)" by force
    show ?thesis
    proof (cases rs)
      case Nil
      then show ?thesis using False t r
        by (simp add: accept_csv_file_def parse_employee_csv_def n split: option.split)
    next
      case (Cons header rows)
      then show ?thesis using False t r f [of e rows]
        by (cases "map py_strip header = required_headers") (simp_all add: accept_csv_file_def parse_employee_csv_def n)
    qed
  qed
qed

text \<open>A clean file is read row by row.\<close>

lemma parse_clean_file:
  assumes "nl \<in> {[10], [13, 10]}" and "\<forall>(n, p)\<in>set rs. clean_name n \<and> domestic p"
    and "distinct (map snd rs)" and "1 \<le> length rs" and "length rs \<le> max_data_rows"
    and "utf8_encode (csv_text nl ((str ''name'', str ''phoneNumber'') # rs)) = Some bs" and "length bs \<le> max_bytes"
  shows "parse_employee_csv bs = \<lparr>pr_rows = map clean_row rs, pr_errors = []\<rparr>"
proof -
  let ?rs = "(str ''name'', str ''phoneNumber'') # rs"
  have "\<forall>(a, b)\<in>set ?rs. plain a \<and> plain b"
    using assms(2) headers_plain domestic_facts(3) by (auto simp: clean_name_def)
  then have r: "csv_reader (csv_text nl ?rs) = (map (\<lambda>(a, b). [a, b]) ?rs, None)"
    using assms(1) by (rule csv_reader_text [rotated])
  have "inj_on tl (snd ` set rs)"
  proof (rule inj_onI)
    fix x y assume "x \<in> snd ` set rs" "y \<in> snd ` set rs" "tl x = tl y"
    moreover from this have "domestic x" "domestic y" using assms(2) by auto
    ultimately show "x = y" by (cases x; cases y) (auto simp: domestic_def)
  qed
  then have d: "distinct (map (tl \<circ> snd) rs)"
    using assms(3) by (simp add: distinct_map comp_inj_on flip: map_map)
  obtain lp where "rows_loop 2 (map (\<lambda>(n, p). [n, p]) rs) loop_start = (lp, False)" "lp_errors lp = []"
    "lp_parsed lp = map clean_row rs"
    using rows_loop_clean [OF assms(2) d, of loop_start 2] assms(5) by (auto simp: loop_start_def)
  then show ?thesis
    using assms(4,7) utf8_roundtrip [OF assms(6)] r
    by (auto simp: parse_employee_csv_def required_headers_def headers_plain finish_rows_def Let_def)
qed

lemma sato_file:
  defines "t \<equiv> csv_text [13, 10] [(str ''name'', str ''phoneNumber''), (str ''Sato'', str ''0312345678'')]"
  shows "utf8_encode t = Some (map of_nat t)" "length (map of_nat t :: bytes) \<le> max_bytes"
    "clean_name (str ''Sato'')" "domestic (str ''0312345678'')"
    "clean_row (str ''Sato'', str ''0312345678'') = \<lparr>er_name = str ''Sato'', er_phone = str ''+81312345678''\<rparr>"
proof -
  show "utf8_encode t = Some (map of_nat t)"
    by (rule utf8_ascii) (simp add: t_def csv_text_def csv_line_def str_def)
  show "length (map of_nat t :: bytes) \<le> max_bytes"
    by (simp add: t_def csv_text_def csv_line_def max_bytes_def)
  show "clean_name (str ''Sato'')"
    by (simp add: clean_name_def plain_def field_limit_def max_name_length_def str_def py_strip_def lstrip_def
        is_space_def spaces_def)
  show "domestic (str ''0312345678'')" by (simp add: domestic_def str_def is_ascii_digit_def)
  show "clean_row (str ''Sato'', str ''0312345678'') = \<lparr>er_name = str ''Sato'', er_phone = str ''+81312345678''\<rparr>"
    by (simp add: clean_row_def str_def)
qed

text \<open>
  Property C30. What is written is imported: a file with the header and 1 to 300 lines of a clean name and a
  distinct domestic number, with either line end, is parsed into exactly these employees, in order.
\<close>

theorem csv_roundtrip:
  assumes "nl \<in> {[10], [13, 10]}" and "\<forall>(n, p)\<in>set rs. clean_name n \<and> domestic p"
    and "distinct (map snd rs)" and "1 \<le> length rs" and "length rs \<le> max_data_rows"
    and "utf8_encode (csv_text nl ((str ''name'', str ''phoneNumber'') # rs)) = Some bs" and "length bs \<le> max_bytes"
  shows "parse_employee_csv bs = \<lparr>pr_rows = map clean_row rs, pr_errors = []\<rparr>"
  using assms by (rule parse_clean_file)

theorem csv_roundtrip_witness:
  "parse_employee_csv (map of_nat (csv_text [13, 10]
      [(str ''name'', str ''phoneNumber''), (str ''Sato'', str ''0312345678'')])) =
   \<lparr>pr_rows = [\<lparr>er_name = str ''Sato'', er_phone = str ''+81312345678''\<rparr>], pr_errors = []\<rparr>"
  using csv_roundtrip [of "[13, 10]" "[(str ''Sato'', str ''0312345678'')]", OF _ _ _ _ _ sato_file(1,2)] sato_file(3-5)
  by (simp add: max_data_rows_def)

end
