(* ===== verification/Sha256.thy ===== *)
theory Sha256
  imports Py_Bytes
begin

unbundle bit_operations_syntax

text \<open>
  \<open>hashlib.sha256\<close> and \<open>hmac\<close> over it, as FIPS 180-4 and RFC 2104 define them.
\<close>

section \<open>SHA-256\<close>

type_synonym u32 = "32 word"

text \<open>
  The constants are the first 32 bits of the fractional parts of roots of primes: cube roots of the first 64
  primes for the rounds, square roots of the first 8 for the initial state. \<open>root_bits d n\<close> is the integer root
  of degree \<open>d\<close>, found bit by bit; the conversion to a word drops the integer part.
\<close>

definition is_prime :: "nat \<Rightarrow> bool" where
  "is_prime n = list_all (\<lambda>d. n mod d \<noteq> 0) [2..<n]"

definition first_primes :: "nat list" where
  "first_primes = filter is_prime [2..<312]"

definition root_bits :: "nat \<Rightarrow> nat \<Rightarrow> nat" where
  "root_bits d n = foldl (\<lambda>r i. if (r + 2 ^ i) ^ d \<le> n then r + 2 ^ i else r) 0 (rev [0..<40])"

definition root_fraction :: "nat \<Rightarrow> nat \<Rightarrow> u32" where
  "root_fraction d p = of_nat (root_bits d (p * 2 ^ (32 * d)))"

definition sha_k :: "u32 list" where
  "sha_k = map (root_fraction 3) (take 64 first_primes)"

definition sha_h0 :: "u32 list" where
  "sha_h0 = map (root_fraction 2) (take 8 first_primes)"

definition rotr :: "nat \<Rightarrow> u32 \<Rightarrow> u32" where
  "rotr n x = drop_bit n x OR push_bit (32 - n) x"

definition word_of_bytes :: "bytes \<Rightarrow> u32" where
  "word_of_bytes bs = foldl (\<lambda>w b. push_bit 8 w OR ucast b) 0 bs"

definition bytes_of_word :: "u32 \<Rightarrow> bytes" where
  "bytes_of_word w = map (\<lambda>i. ucast (drop_bit (8 * i) w)) [3, 2, 1, 0]"

text \<open>Padding: a one bit, zeros, the length in bits as 64 bits.\<close>

definition sha_pad :: "bytes \<Rightarrow> bytes" where
  "sha_pad m =
     m @ [0x80] @ replicate ((119 - length m mod 64) mod 64) 0 @
     map (\<lambda>i. of_nat (8 * length m div 256 ^ i)) [7, 6, 5, 4, 3, 2, 1, 0]"

fun groups :: "nat \<Rightarrow> 'a list \<Rightarrow> 'a list list" where
  "groups n xs = (if n = 0 \<or> xs = [] then [] else take n xs # groups n (drop n xs))"

declare groups.simps [simp del]

text \<open>The message schedule, kept as the last 16 words with the oldest first.\<close>

definition schedule_next :: "u32 list \<Rightarrow> u32" where
  "schedule_next w =
     (let s0 = rotr 7 (w ! 1) XOR rotr 18 (w ! 1) XOR drop_bit 3 (w ! 1);
          s1 = rotr 17 (w ! 14) XOR rotr 19 (w ! 14) XOR drop_bit 10 (w ! 14) in
      w ! 0 + s0 + w ! 9 + s1)"

fun sha_round :: "u32 list \<Rightarrow> u32 \<Rightarrow> u32 \<Rightarrow> u32 list" where
  "sha_round [a, b, c, d, e, f, g, h] k w =
     (let s1 = rotr 6 e XOR rotr 11 e XOR rotr 25 e;
          ch = (e AND f) XOR (NOT e AND g);
          t1 = h + s1 + ch + k + w;
          s0 = rotr 2 a XOR rotr 13 a XOR rotr 22 a;
          maj = (a AND b) XOR (a AND c) XOR (b AND c);
          t2 = s0 + maj in
      [t1 + t2, a, b, c, d + t1, e, f, g])"
| "sha_round st k w = st"

fun sha_rounds :: "u32 list \<Rightarrow> u32 list \<Rightarrow> u32 list \<Rightarrow> u32 list" where
  "sha_rounds [] w st = st"
| "sha_rounds (k # ks) w st =
     sha_rounds ks (tl w @ [schedule_next w]) (sha_round st k (hd w))"

definition sha_block :: "u32 list \<Rightarrow> bytes \<Rightarrow> u32 list" where
  "sha_block st block =
     map2 (+) st (sha_rounds sha_k (map word_of_bytes (groups 4 block)) st)"

definition sha256 :: "bytes \<Rightarrow> bytes" where
  "sha256 m = concat (map bytes_of_word (foldl sha_block sha_h0 (groups 64 (sha_pad m))))"

definition hexchar :: "nat \<Rightarrow> nat" where
  "hexchar n = (if n < 10 then 48 + n else 87 + n)"

definition hexdigest :: "bytes \<Rightarrow> pystr" where
  "hexdigest bs = concat (map (\<lambda>b. [hexchar (unat b div 16), hexchar (unat b mod 16)]) bs)"

section \<open>HMAC\<close>

definition hmac_key :: "bytes \<Rightarrow> bytes" where
  "hmac_key key =
     (let k = (if length key > 64 then sha256 key else key) in k @ replicate (64 - length k) 0)"

definition hmac_sha256 :: "bytes \<Rightarrow> bytes \<Rightarrow> bytes" where
  "hmac_sha256 key msg =
     (let k = hmac_key key in
      sha256 (map (\<lambda>b. b XOR 0x5c) k @ sha256 (map (\<lambda>b. b XOR 0x36) k @ msg)))"

section \<open>Lengths\<close>

lemma length_sha_round: "length (sha_round st k w) = length st"
  by (cases "(st, k, w)" rule: sha_round.cases) (simp_all add: Let_def)

lemma length_sha_rounds: "length (sha_rounds ks w st) = length st"
  by (induction ks w st rule: sha_rounds.induct) (simp_all add: length_sha_round)

lemma length_sha_block: "length (sha_block st b) = length st"
  by (simp add: sha_block_def length_sha_rounds)

lemma length_sha_h0: "length sha_h0 = 8"
proof -
  have "length (filter is_prime [2..<20]) = 8" by code_simp
  moreover have "first_primes = filter is_prime [2..<20] @ filter is_prime [20..<312]"
    unfolding first_primes_def filter_append [symmetric] using upt_add_eq_append [of 2 20 292] by simp
  ultimately have "8 \<le> length first_primes" by (metis le_add1 length_append)
  then show ?thesis by (simp add: sha_h0_def)
qed

lemma length_sha256: "length (sha256 m) = 32"
proof -
  have "length (foldl sha_block st bs) = length st" for st bs
    by (induction bs arbitrary: st) (simp_all add: length_sha_block)
  moreover have "length (concat (map bytes_of_word ws)) = 4 * length ws" for ws
    by (induction ws) (simp_all add: bytes_of_word_def)
  ultimately show ?thesis by (simp add: sha256_def length_sha_h0)
qed

lemma length_hexdigest: "length (hexdigest bs) = 2 * length bs"
  by (induction bs) (simp_all add: hexdigest_def)

lemma hex_digit_range: "n < 16 \<Longrightarrow> hexchar n \<in> {48..<58} \<union> {97..<103}"
  by (simp add: hexchar_def)

lemma hexdigest_chars: "c \<in> set (hexdigest bs) \<Longrightarrow> c \<in> {48..<58} \<union> {97..<103}"
proof -
  assume "c \<in> set (hexdigest bs)"
  then have "\<exists>b\<in>set bs. c \<in> {hexchar (unat b div 16), hexchar (unat b mod 16)}"
    by (auto simp: hexdigest_def)
  then obtain b :: "8 word" where "c \<in> {hexchar (unat b div 16), hexchar (unat b mod 16)}" by blast
  then have "c = hexchar (unat b div 16) \<or> c = hexchar (unat b mod 16)" by simp
  moreover have "unat b div 16 < 16" using unat_byte_bound [of b] by auto
  moreover have "unat b mod 16 < 16" by simp
  ultimately show ?thesis using hex_digit_range by metis
qed

end
