(* ===== verification/Crypto.thy ===== *)
theory Crypto
  imports Sha256 Effects
begin

text \<open>
  The protection of personal data: \<open>backend/shared/crypto/envelope.py\<close> and \<open>blind_index.py\<close>, and the
  pseudonyms of \<open>backend/shared/privacy/anonymize.py\<close>.

  AES-GCM is a package of its own and therefore a parameter, as is \<open>json.loads\<close>; base 64, UTF-8, SHA-256
  and HMAC are the definitions of Py_Bytes and Sha256.
\<close>

section \<open>The data key\<close>

definition to_bytes :: "pystr \<Rightarrow> bytes" where
  "to_bytes s = map of_nat s"

definition of_bytes :: "bytes \<Rightarrow> pystr" where
  "of_bytes bs = map unat bs"

lemma to_of_bytes [simp]: "to_bytes (of_bytes bs) = bs"
  by (simp add: to_bytes_def of_bytes_def comp_def)

text \<open>
  \<open>_get_data_key\<close>: the cache is a module global and threaded through; \<open>encrypted_key_b64\<close> is the
  environment variable, empty when unset.
\<close>

definition get_data_key :: "pystr \<Rightarrow> bytes option \<Rightarrow> (bytes \<times> bytes option) prog" where
  "get_data_key encrypted_key_b64 cached = (case cached of
     Some key \<Rightarrow> ret (key, cached)
   | None \<Rightarrow>
       (if encrypted_key_b64 = [] then raise ValueError
        else case b64decode False encrypted_key_b64 of
          None \<Rightarrow> raise ValueError
        | Some blob \<Rightarrow>
            bindP (aws (KmsDecrypt (of_bytes blob))) (\<lambda>resp.
            bindP (lift (dindex (items_of resp) ''Plaintext'')) (\<lambda>plain.
              let key = to_bytes (str_of plain) in ret (key, Some key)))))"

section \<open>Envelopes\<close>

text \<open>
  What is not in the repository: AES-GCM with a key and a nonce (\<open>None\<close> when the package raises), and
  \<open>json.loads\<close> of bytes.
\<close>

record cipher =
  aes_encrypt :: "bytes \<Rightarrow> bytes \<Rightarrow> bytes \<Rightarrow> bytes option"
  aes_decrypt :: "bytes \<Rightarrow> bytes \<Rightarrow> bytes \<Rightarrow> bytes option"
  loads_bytes :: "bytes \<Rightarrow> pyval option"

definition format_version :: int where
  "format_version = 2"

text \<open>\<open>secrets.token_bytes(12)\<close> from the 96 bits read.\<close>

definition nonce_of :: "int \<Rightarrow> bytes" where
  "nonce_of n = map (\<lambda>i. of_int (n div 256 ^ i)) [11, 10, 9, 8, 7, 6, 5, 4, 3, 2, 1, 0]"

text \<open>\<open>json.dumps\<close> of the envelope without spaces; its two strings need no escapes.\<close>

definition envelope_json :: "bytes \<Rightarrow> bytes \<Rightarrow> pystr" where
  "envelope_json nonce ciphertext =
     str ''{'' @ [34] @ str ''v'' @ [34] @ str '':2,'' @ [34] @ str ''iv'' @ [34] @ str '':'' @ [34] @ b64encode nonce @ [34] @
     str '','' @ [34] @ str ''ct'' @ [34] @ str '':'' @ [34] @ b64encode ciphertext @ [34] @ str ''}''"

text \<open>\<open>key\<close> is what \<open>_get_data_key\<close> gives or raises.\<close>

definition encrypt_field :: "cipher \<Rightarrow> bytes res \<Rightarrow> pystr \<Rightarrow> pystr prog" where
  "encrypt_field C key plaintext =
     (if plaintext = [] then ret []
      else
        bindP (lift key) (\<lambda>k.
        Env Nonce96 (\<lambda>n.
          case utf8_encode plaintext of
            None \<Rightarrow> raise ValueError
          | Some msg \<Rightarrow>
              (case aes_encrypt C k (nonce_of n) msg of
                 None \<Rightarrow> raise ValueError
               | Some ciphertext \<Rightarrow> ret (b64encode (to_bytes (envelope_json (nonce_of n) ciphertext)))))))"

definition b64_field :: "pyval \<Rightarrow> bytes res" where
  "b64_field v =
     (if \<not> is_str v then Inl TypeError
      else case b64decode False (str_of v) of None \<Rightarrow> Inl ValueError | Some bs \<Rightarrow> Inr bs)"

definition load_envelope :: "cipher \<Rightarrow> pystr \<Rightarrow> pyval option" where
  "load_envelope C s = (case b64decode False s of None \<Rightarrow> None | Some raw \<Rightarrow> loads_bytes C raw)"

text \<open>\<open>envelope.get("v") != 2\<close>: a Python number equal to 2 is not different from it.\<close>

fun is_version :: "pyval \<Rightarrow> bool" where
  "is_version (PInt i) = (i = format_version)"
| "is_version (PFloat r) = (r = of_int format_version)"
| "is_version (PDec r) = (r = of_int format_version)"
| "is_version _ = False"

definition decrypt_field :: "cipher \<Rightarrow> bytes res \<Rightarrow> pystr \<Rightarrow> pystr res" where
  "decrypt_field C key encrypted_value =
     (if encrypted_value = [] then Inr []
      else
        bind_res key (\<lambda>k.
        case load_envelope C encrypted_value of
          None \<Rightarrow> Inl ValueError
        | Some (PDict envelope) \<Rightarrow>
            (if \<not> is_version (dget envelope ''v'') then Inl ValueError
             else
               bind_res (dindex envelope ''iv'') (\<lambda>iv.
               bind_res (b64_field iv) (\<lambda>nonce.
               bind_res (dindex envelope ''ct'') (\<lambda>ct.
               bind_res (b64_field ct) (\<lambda>ciphertext.
               case aes_decrypt C k nonce ciphertext of
                 None \<Rightarrow> Inl ValueError
               | Some plaintext \<Rightarrow>
                   (case utf8_decode plaintext of None \<Rightarrow> Inl ValueError | Some s \<Rightarrow> Inr s))))))
        | Some _ \<Rightarrow> Inl AttributeError))"

definition is_encrypted :: "cipher \<Rightarrow> pystr \<Rightarrow> bool" where
  "is_encrypted C value =
     (if value = [] then False
      else case load_envelope C value of
        Some (PDict envelope) \<Rightarrow> is_version (dget envelope ''v'')
      | _ \<Rightarrow> False)"

section \<open>Blind index\<close>

text \<open>\<open>hmac_key_b64\<close> is the environment variable \<open>BLIND_INDEX_HMAC_KEY\<close>, empty when unset.\<close>

definition get_hmac_key :: "pystr \<Rightarrow> bytes res" where
  "get_hmac_key hmac_key_b64 =
     (if hmac_key_b64 = [] then Inl ValueError
      else case b64decode False hmac_key_b64 of None \<Rightarrow> Inl ValueError | Some k \<Rightarrow> Inr k)"

definition compute_blind_index :: "pystr \<Rightarrow> pystr \<Rightarrow> pystr res" where
  "compute_blind_index hmac_key_b64 value =
     (if value = [] then Inl ValueError
      else
        bind_res (get_hmac_key hmac_key_b64) (\<lambda>key.
        case utf8_encode value of
          None \<Rightarrow> Inl ValueError
        | Some msg \<Rightarrow> Inr (hexdigest (hmac_sha256 key msg))))"

section \<open>Pseudonyms\<close>

definition anonymized_id_prefix :: string where
  "anonymized_id_prefix = ''ANON_''"

definition hash_hex_length :: nat where
  "hash_hex_length = 32"

definition anonymize_employee_id :: "pyval \<Rightarrow> pyval \<Rightarrow> pystr res" where
  "anonymize_employee_id employee_id salt =
     (if \<not> is_str employee_id then Inl TypeError
      else if \<not> is_str salt then Inl TypeError
      else if str_of employee_id = [] then Inl ValueError
      else if str_of salt = [] then Inl ValueError
      else case utf8_encode (str_of salt @ [58] @ str_of employee_id) of
        None \<Rightarrow> Inl ValueError
      | Some payload \<Rightarrow> Inr (str anonymized_id_prefix @ take hash_hex_length (hexdigest (sha256 payload))))"

section \<open>Facts\<close>

lemma exec_encrypt_field:
  assumes "exec (encrypt_field C (Inr k) s) tr (Inr e)" and "s \<noteq> []"
  obtains n msg ct where "tr = [EnvEv Nonce96 n]" "utf8_encode s = Some msg" "aes_encrypt C k (nonce_of n) msg = Some ct"
    "e = b64encode (to_bytes (envelope_json (nonce_of n) ct))"
  using assms by (auto simp: encrypt_field_def exec_Env split: option.splits)

lemma b64_field_encode: "b64_field (PStr (b64encode bs)) = Inr bs"
  by (simp add: b64_field_def b64_roundtrip)

lemma b64encode_eq_Nil [simp]: "b64encode bs = [] \<longleftrightarrow> bs = []"
  by (cases bs rule: b64encode.cases) simp_all

lemma encrypted_field_reads:
  assumes "exec (encrypt_field C (Inr k) s) tr (Inr e)" and "s \<noteq> []"
    and "\<And>n m c. aes_encrypt C k n m = Some c \<Longrightarrow> aes_decrypt C k n c = Some m"
    and "\<And>iv ct. loads_bytes C (to_bytes (envelope_json iv ct)) =
      Some (PDict [(str ''v'', PInt 2), (str ''iv'', PStr (b64encode iv)), (str ''ct'', PStr (b64encode ct))])"
  shows "decrypt_field C (Inr k) e = Inr s \<and> is_encrypted C e \<and> e \<noteq> []"
proof -
  obtain n msg ct where e: "utf8_encode s = Some msg" "aes_encrypt C k (nonce_of n) msg = Some ct"
    "e = b64encode (to_bytes (envelope_json (nonce_of n) ct))"
    by (rule exec_encrypt_field [OF assms(1,2)])
  have l: "load_envelope C e = Some (PDict [(str ''v'', PInt 2), (str ''iv'', PStr (b64encode (nonce_of n))),
      (str ''ct'', PStr (b64encode ct))])"
    by (simp add: load_envelope_def e(3) b64_roundtrip assms(4))
  have "e \<noteq> []" by (simp add: e(3) to_bytes_def envelope_json_def)
  then show ?thesis
    using assms(3) [OF e(2)] utf8_roundtrip [OF e(1)]
    by (simp add: decrypt_field_def is_encrypted_def l format_version_def dindex_def b64_field_encode)
qed

lemma anonymized_form:
  assumes "anonymize_employee_id e s = Inr a"
  shows "length a = 37" "take 5 a = str ''ANON_''" "45 \<notin> set a"
proof -
  obtain payload where a: "a = str ''ANON_'' @ take 32 (hexdigest (sha256 payload))"
    using assms
    by (auto simp: anonymize_employee_id_def anonymized_id_prefix_def hash_hex_length_def split: if_splits option.splits)
  then show "length a = 37" "take 5 a = str ''ANON_''"
    by (simp_all add: length_hexdigest length_sha256)
  have "45 \<notin> set (hexdigest (sha256 payload))" using hexdigest_chars by fastforce
  then show "45 \<notin> set a" using a by (auto simp: str_def dest: in_set_takeD)
qed

section \<open>Properties\<close>


text \<open>A cipher that encrypts nothing, and a reader of just the envelopes.\<close>

definition envelope_loads :: "bytes \<Rightarrow> pyval option" where
  "envelope_loads raw =
     (let s = drop 13 (of_bytes raw); r = drop 8 (dropWhile (\<lambda>c. c \<noteq> 34) s) in
      Some (PDict [(str ''v'', PInt 2), (str ''iv'', PStr (takeWhile (\<lambda>c. c \<noteq> 34) s)),
        (str ''ct'', PStr (takeWhile (\<lambda>c. c \<noteq> 34) r))]))"

definition plain_cipher :: cipher where
  "plain_cipher = \<lparr>aes_encrypt = \<lambda>k n m. Some m, aes_decrypt = \<lambda>k n c. Some c, loads_bytes = envelope_loads\<rparr>"

lemma b64_char_no_quote: "n < 64 \<Longrightarrow> b64_char n \<noteq> 34"
  by (auto simp: b64_char_def)

lemma b64_no_quote: "c \<in> set (b64encode bs) \<Longrightarrow> c \<noteq> 34"
  by (induction bs rule: b64encode.induct) (auto simp: b64_char_no_quote sextets)

lemma of_to_bytes: "list_all (\<lambda>c. c < 256) s \<Longrightarrow> of_bytes (to_bytes s) = s"
  by (induction s) (auto simp: to_bytes_def of_bytes_def unat_byte)

lemma envelope_ascii: "list_all (\<lambda>c. c < 256) (envelope_json iv ct)"
  using b64encode_ascii [of iv] b64encode_ascii [of ct] by (force simp: envelope_json_def str_def list_all_iff)

lemma envelope_loads_json:
  "envelope_loads (to_bytes (envelope_json iv ct)) =
     Some (PDict [(str ''v'', PInt 2), (str ''iv'', PStr (b64encode iv)), (str ''ct'', PStr (b64encode ct))])"
proof -
  let ?r = "[34, 44, 34, 99, 116, 34, 58, 34] @ b64encode ct @ [34, 125]"
  have "drop 13 (envelope_json iv ct) = b64encode iv @ ?r"
    by (simp add: envelope_json_def str_def)
  moreover have "takeWhile (\<lambda>c. c \<noteq> 34) (b64encode iv @ ?r) = b64encode iv"
    "dropWhile (\<lambda>c. c \<noteq> 34) (b64encode iv @ ?r) = ?r"
    "takeWhile (\<lambda>c. c \<noteq> 34) (b64encode ct @ [34, 125]) = b64encode ct"
    using b64_no_quote by (simp_all add: takeWhile_append2 dropWhile_append2)
  ultimately show ?thesis by (simp add: envelope_loads_def of_to_bytes envelope_ascii Let_def)
qed


end
