(* ===== verification/Employee_Api.thy ===== *)
theory Employee_Api
  imports Employee_Csv Crypto Cycle_Api Load_Targets
begin

text \<open>
  The Lambda \<open>backend/lambdas/employee_api/handler.py\<close>: the employee master, its CSV import, the
  pseudonymisation of past responses and the deletion of a retired administrator's Cognito user.
\<close>

section \<open>Environment\<close>

text \<open>
  The settings of the Lambda: whether fields are encrypted, the cipher, what \<open>_get_data_key\<close> gives or
  raises (the key is in the container's cache after its first use), the base 64 of the HMAC key, the user
  pool, the group of administrators and the salt (empty when unset). The text of a float or a container
  and the reason of a CSV error are arguments, as everywhere.
\<close>

record employee_env = api_env +
  encryption_enabled :: bool
  emp_cipher :: cipher
  emp_data_key :: "bytes res"
  emp_hmac_key :: pystr
  user_pool_id :: pystr
  admin_group_name :: pystr
  anonymize_salt :: pystr
  emp_show :: "pyval \<Rightarrow> pystr"
  reason_text :: "csv_reason \<Rightarrow> pystr"

definition administrator_group :: pystr where
  "administrator_group = str ''Administrator''"

definition transact_max_items :: nat where
  "transact_max_items = 25"

definition anonymize_rows_per_batch :: nat where
  "anonymize_rows_per_batch = transact_max_items div 2"

text \<open>\<open>_now_iso\<close> is the same code in every API Lambda.\<close>

definition emp_now_iso :: "pystr prog" where
  "emp_now_iso = bindP now_us (\<lambda>t. ret (iso_z_seconds t))"

definition employee_principal :: "'a employee_env_scheme \<Rightarrow> pydict \<Rightarrow> pyval res" where
  "employee_principal env event =
     bind_res (principal_of event) (\<lambda>v. Inr (PStr (py_str (emp_show env) v)))"

definition claims_of :: "pydict \<Rightarrow> pyval res" where
  "claims_of event =
     bind_res (vget_or (dget_or event ''requestContext'' (PDict [])) ''authorizer'' (PDict [])) (\<lambda>a.
       vget_or a ''claims'' (PDict []))"

definition emp_audit ::
  "'a api_env_scheme \<Rightarrow> pystr list \<Rightarrow> string \<Rightarrow> pyval \<Rightarrow> pystr \<Rightarrow> pystr option \<Rightarrow> pystr list prog" where
  "emp_audit env created event_type who employee_id phone =
     write_audit_log env created (str event_type) who employee_id (str ''SUCCESS'') None phone None"

section \<open>Encrypted fields\<close>

definition emp_encrypt :: "'a employee_env_scheme \<Rightarrow> pystr \<Rightarrow> pystr prog" where
  "emp_encrypt env value =
     (if \<not> encryption_enabled env \<or> value = [] then ret value
      else encrypt_field (emp_cipher env) (emp_data_key env) value)"

text \<open>A stored value that is not a string is a \<open>TypeError\<close> of \<open>base64.b64decode\<close>.\<close>

definition emp_decrypt :: "'a employee_env_scheme \<Rightarrow> pyval \<Rightarrow> pyval res" where
  "emp_decrypt env value =
     (if \<not> truthy value then Inr value
      else if \<not> is_str value then Inl TypeError
      else if is_encrypted (emp_cipher env) (str_of value) then
        bind_res (decrypt_field (emp_cipher env) (emp_data_key env) (str_of value)) (\<lambda>s. Inr (PStr s))
      else Inr value)"

definition emp_blind_index :: "'a employee_env_scheme \<Rightarrow> pystr \<Rightarrow> pystr res" where
  "emp_blind_index env phone =
     (if encryption_enabled env then compute_blind_index (emp_hmac_key env) phone else Inr [])"

section \<open>Reading\<close>

definition row_deleted :: "pydict \<Rightarrow> bool" where
  "row_deleted it \<longleftrightarrow> truthy (dget_or it ''deleted'' (PBool False))"

text \<open>Both requests read one page only.\<close>

definition phone_already_registered :: "'a employee_env_scheme \<Rightarrow> pystr \<Rightarrow> bool prog" where
  "phone_already_registered env phone =
     (if encryption_enabled env then
        bindP (lift (compute_blind_index (emp_hmac_key env) phone)) (\<lambda>blind.
        bindP (aws (ScanEq EmployeeTable
            [(str ''phoneNumberBlindIndex'', PStr blind), (str ''deleted'', PBool False)])) (\<lambda>resp.
          ret (page_items resp \<noteq> [])))
      else
        bindP (aws (Query EmployeeTable (Some ''PhoneNumberIndex'') ''phoneNumber'' (PStr phone)
            True None PNone)) (\<lambda>resp.
          ret (list_ex (\<lambda>it. \<not> row_deleted it) (page_items resp))))"

definition get_employee :: "pystr \<Rightarrow> pyval prog" where
  "get_employee employee_id =
     bindP (aws (GetItem EmployeeTable (employee_key employee_id))) (\<lambda>resp.
       ret (dget (items_of resp) ''Item''))"

text \<open>\<open>path_params.get("id")\<close> with the check every route makes.\<close>

definition path_id :: "pyval \<Rightarrow> pystr res" where
  "path_id path_params =
     bind_res (vget_or path_params ''id'' PNone) (\<lambda>v.
       if \<not> nonempty_str v then Inl ValueError else Inr (str_of v))"

section \<open>POST /employees\<close>

fun find_sub :: "(pyval \<Rightarrow> pystr) \<Rightarrow> pyval list \<Rightarrow> pystr" where
  "find_sub show_val [] = []"
| "find_sub show_val (attr # attrs) =
     (if dget (items_of attr) ''Name'' = PStr (str ''sub'')
      then py_str show_val (dget_or (items_of attr) ''Value'' (PStr []))
      else find_sub show_val attrs)"

definition user_attribute :: "string \<Rightarrow> pystr \<Rightarrow> pyval" where
  "user_attribute n v = PDict [(str ''Name'', PStr (str n)), (str ''Value'', PStr v)]"

definition create_cognito_admin :: "'a employee_env_scheme \<Rightarrow> pystr \<Rightarrow> pystr \<Rightarrow> pystr prog" where
  "create_cognito_admin env email name =
     bindP (aws (AdminCreateUser
       [(str ''UserPoolId'', PStr (user_pool_id env)), (str ''Username'', PStr email),
        (str ''UserAttributes'', PList
          [user_attribute ''email'' email, user_attribute ''email_verified'' (str ''true''),
           user_attribute ''name'' name]),
        (str ''DesiredDeliveryMediums'', PList [PStr (str ''EMAIL'')])])) (\<lambda>create_resp.
     thenP
       (aws (AdminAddUserToGroup
         [(str ''UserPoolId'', PStr (user_pool_id env)), (str ''Username'', PStr email),
          (str ''GroupName'', PStr (admin_group_name env))]))
       (ret (find_sub (emp_show env)
         (elems_of (dget_or (items_of (dget_or (items_of create_resp) ''User'' (PDict [])))
           ''Attributes'' (PList []))))))"

definition username_exists :: pystr where
  "username_exists = str ''UsernameExistsException''"

text \<open>The result is \<open>None\<close> when the address is registered in Cognito already.\<close>

definition register_admin ::
  "'a employee_env_scheme \<Rightarrow> bool \<Rightarrow> pystr \<Rightarrow> pystr \<Rightarrow> pystr option prog" where
  "register_admin env is_admin email name =
     (if \<not> is_admin then ret (Some [])
      else
        catchP (bindP (create_cognito_admin env email name) (\<lambda>sub. ret (Some sub)))
          (\<lambda>e. if e = ClientError username_exists then ret None else raise e))"

definition check_phone :: "pyval \<Rightarrow> bool" where
  "check_phone phone \<longleftrightarrow> is_str phone \<and> (is_valid_e164 phone \<or> is_valid_domestic_jp phone)"

definition check_new_employee :: "pyval \<Rightarrow> pyval \<Rightarrow> bool \<Rightarrow> pyval \<Rightarrow> unit res" where
  "check_new_employee name phone is_admin admin_email =
     (if \<not> is_valid_name name then Inl ValueError
      else if \<not> check_phone phone then Inl ValueError
      else if is_admin \<and> \<not> is_valid_email admin_email then Inl ValueError
      else Inr ())"

definition employee_item ::
  "'a employee_env_scheme \<Rightarrow> pystr \<Rightarrow> pystr \<Rightarrow> pystr \<Rightarrow> bool \<Rightarrow> pystr \<Rightarrow> pystr \<Rightarrow> pydict prog" where
  "employee_item env employee_id name phone is_admin now_iso cognito_sub =
     bindP (emp_encrypt env name) (\<lambda>n.
     bindP (emp_encrypt env phone) (\<lambda>p.
     bindP (lift (emp_blind_index env phone)) (\<lambda>blind.
       ret ([(str ''employeeId'', PStr employee_id), (str ''name'', PStr n), (str ''phoneNumber'', PStr p),
         (str ''phoneNumberBlindIndex'', PStr blind),
         (str ''role'', PStr (str (if is_admin then ''admin'' else ''employee''))),
         (str ''deleted'', PBool False), (str ''createdAt'', PStr now_iso), (str ''updatedAt'', PStr now_iso)] @
         (if cognito_sub \<noteq> [] then [(str ''cognitoSub'', PStr cognito_sub)] else [])))))"

definition audit_created_admin ::
  "'a employee_env_scheme \<Rightarrow> pystr list \<Rightarrow> pyval \<Rightarrow> pystr \<Rightarrow> bool \<Rightarrow> pystr \<Rightarrow> pystr list prog" where
  "audit_created_admin env created who employee_id is_admin cognito_sub =
     (if is_admin \<and> cognito_sub \<noteq> [] then
        write_audit_log env created (str ''COGNITO_USER_CREATE'') who employee_id (str ''SUCCESS'') None None
          (Some [(str ''cognitoSub'', PStr cognito_sub)])
      else ret created)"

definition insert_employee ::
  "'a employee_env_scheme \<Rightarrow> pystr list \<Rightarrow> pystr \<Rightarrow> pystr \<Rightarrow> pystr \<Rightarrow> bool \<Rightarrow> pystr \<Rightarrow> pyval \<Rightarrow> http prog" where
  "insert_employee env created employee_id name phone is_admin cognito_sub who =
     bindP emp_now_iso (\<lambda>now_iso.
     bindP (employee_item env employee_id name phone is_admin now_iso cognito_sub) (\<lambda>item.
     thenP (aws (PutItem EmployeeTable item NoCond))
     (bindP (emp_audit env created ''EMPLOYEE_ADD'' who employee_id (Some phone)) (\<lambda>created'.
     thenP (audit_created_admin env created' who employee_id is_admin cognito_sub)
       (ret (response env 201 (Json (PDict
         [(str ''employeeId'', PStr employee_id), (str ''name'', PStr name), (str ''phoneNumber'', PStr phone),
          (str ''isAdmin'', PBool is_admin)]))))))))"

definition create_employee :: "'a employee_env_scheme \<Rightarrow> pystr list \<Rightarrow> pydict \<Rightarrow> pyval \<Rightarrow> http prog" where
  "create_employee env created body who =
     (let name = dget body ''name''; phone = dget body ''phoneNumber'';
          is_admin = truthy (dget_or body ''isAdmin'' (PBool False)); admin_email = dget body ''adminEmail'' in
      thenP (lift (check_new_employee name phone is_admin admin_email))
      (let phone_e164 = domestic_to_e164 (str_of phone) in
       bindP (phone_already_registered env phone_e164) (\<lambda>registered.
       if registered then ret (response env 409 ErrorText)
       else
         Env Uuid4 (\<lambda>u.
         bindP (register_admin env is_admin (str_of admin_email) (str_of name)) (\<lambda>sub.
         case sub of
           None \<Rightarrow> ret (response env 409 ErrorText)
         | Some cognito_sub \<Rightarrow>
             insert_employee env created (uuid4_str u) (str_of name) phone_e164 is_admin cognito_sub who)))))"

section \<open>GET, PUT and DELETE of employees\<close>

definition employee_entry :: "'a employee_env_scheme \<Rightarrow> pydict \<Rightarrow> pyval res" where
  "employee_entry env it =
     bind_res (emp_decrypt env (dget_or it ''name'' (PStr []))) (\<lambda>name.
     bind_res (emp_decrypt env (dget_or it ''phoneNumber'' (PStr []))) (\<lambda>phone.
       Inr (PDict
         [(str ''employeeId'', dget it ''employeeId''), (str ''name'', name), (str ''phoneNumber'', phone),
          (str ''isAdmin'', PBool (dget it ''role'' = PStr (str ''admin''))),
          (str ''deleted'', PBool (row_deleted it))])))"

fun list_loop :: "'a employee_env_scheme \<Rightarrow> bool \<Rightarrow> nat \<Rightarrow> pyval \<Rightarrow> pyval list prog" where
  "list_loop env include_deleted 0 last_key = raise PageLimit"
| "list_loop env include_deleted (Suc n) last_key =
     bindP (aws (Scan EmployeeTable last_key)) (\<lambda>resp.
     bindP (lift (map_res (employee_entry env)
         (filter (\<lambda>it. include_deleted \<or> \<not> row_deleted it) (page_items resp)))) (\<lambda>entries.
     let next_key = dget (items_of resp) ''LastEvaluatedKey'' in
     if next_key = PNone then ret entries
     else bindP (list_loop env include_deleted n next_key) (\<lambda>more. ret (entries @ more))))"

text \<open>\<open>str(v).lower() == "true"\<close>: no character outside ASCII is lowered to one of these four.\<close>

definition ascii_lower :: "nat \<Rightarrow> nat" where
  "ascii_lower c = (if 65 \<le> c \<and> c \<le> 90 then c + 32 else c)"

definition says_true :: "(pyval \<Rightarrow> pystr) \<Rightarrow> pyval \<Rightarrow> bool" where
  "says_true show_val v \<longleftrightarrow> map ascii_lower (py_str show_val v) = str ''true''"

definition list_employees :: "'a employee_env_scheme \<Rightarrow> nat \<Rightarrow> pydict \<Rightarrow> http prog" where
  "list_employees env fuel event =
     bindP (lift (vget_or (or_empty (dget event ''queryStringParameters'')) ''includeDeleted'' (PStr []))) (\<lambda>v.
     bindP (list_loop env (says_true (emp_show env) v) fuel PNone) (\<lambda>items.
       ret (response env 200 (Json (PDict
         [(str ''employees'', PList items), (str ''total'', PInt (int (length items)))])))))"

definition employee_detail :: "'a employee_env_scheme \<Rightarrow> pydict \<Rightarrow> pyval res" where
  "employee_detail env item =
     bind_res (emp_decrypt env (dget_or item ''name'' (PStr []))) (\<lambda>name.
     bind_res (emp_decrypt env (dget_or item ''phoneNumber'' (PStr []))) (\<lambda>phone.
       Inr (PDict
         [(str ''employeeId'', dget item ''employeeId''), (str ''name'', name), (str ''phoneNumber'', phone),
          (str ''isAdmin'', PBool (dget item ''role'' = PStr (str ''admin''))),
          (str ''createdAt'', dget item ''createdAt''), (str ''updatedAt'', dget item ''updatedAt'')])))"

text \<open>\<open>existing is None or existing.get("deleted", False)\<close>.\<close>

definition absent :: "pyval \<Rightarrow> bool" where
  "absent item \<longleftrightarrow> item = PNone \<or> row_deleted (items_of item)"

definition get_employee_by_id :: "'a employee_env_scheme \<Rightarrow> pyval \<Rightarrow> http prog" where
  "get_employee_by_id env path_params =
     bindP (lift (path_id path_params)) (\<lambda>employee_id.
     bindP (get_employee employee_id) (\<lambda>item.
     if absent item then ret (response env 404 ErrorText)
     else bindP (lift (employee_detail env (items_of item))) (\<lambda>d. ret (response env 200 (Json d)))))"

definition update_actions ::
  "'a employee_env_scheme \<Rightarrow> pystr \<Rightarrow> pystr \<Rightarrow> upd list prog" where
  "update_actions env new_name new_phone =
     bindP (emp_encrypt env new_name) (\<lambda>n.
     bindP (emp_encrypt env new_phone) (\<lambda>p.
     bindP (lift (emp_blind_index env new_phone)) (\<lambda>blind.
     bindP emp_now_iso (\<lambda>now_iso.
       ret [SetAttr ''name'' (PStr n), SetAttr ''phoneNumber'' (PStr p),
         SetAttr ''phoneNumberBlindIndex'' (PStr blind), SetAttr ''updatedAt'' (PStr now_iso)]))))"

definition store_update ::
  "'a employee_env_scheme \<Rightarrow> pystr list \<Rightarrow> pystr \<Rightarrow> pystr \<Rightarrow> pystr \<Rightarrow> pyval \<Rightarrow> http prog" where
  "store_update env created employee_id new_name new_phone who =
     bindP (update_actions env new_name new_phone) (\<lambda>us.
     thenP (aws (UpdateItem EmployeeTable (employee_key employee_id) us NoCond))
     (thenP (emp_audit env created ''EMPLOYEE_UPDATE'' who employee_id (Some new_phone))
       (ret (response env 200 (Json (PDict
         [(str ''employeeId'', PStr employee_id), (str ''name'', PStr new_name),
          (str ''phoneNumber'', PStr new_phone)]))))))"

definition update_employee ::
  "'a employee_env_scheme \<Rightarrow> pystr list \<Rightarrow> pyval \<Rightarrow> pydict \<Rightarrow> pyval \<Rightarrow> http prog" where
  "update_employee env created path_params body who =
     bindP (lift (path_id path_params)) (\<lambda>employee_id.
     bindP (get_employee employee_id) (\<lambda>existing.
     if absent existing then ret (response env 404 ErrorText)
     else
       bindP (lift (emp_decrypt env (dget_or (items_of existing) ''name'' (PStr [])))) (\<lambda>old_name.
       bindP (lift (emp_decrypt env (dget_or (items_of existing) ''phoneNumber'' (PStr [])))) (\<lambda>old_phone.
       let new_name = dget_or body ''name'' old_name; phone = dget_or body ''phoneNumber'' old_phone in
       if \<not> is_valid_name new_name then raise ValueError
       else if \<not> check_phone phone then raise ValueError
       else
         let new_phone = domestic_to_e164 (str_of phone) in
         bindP (if PStr new_phone \<noteq> old_phone then phone_already_registered env new_phone else ret False)
           (\<lambda>registered.
         if registered then ret (response env 409 ErrorText)
         else store_update env created employee_id (str_of new_name) new_phone who)))))"

definition delete_actions :: "pystr \<Rightarrow> upd list" where
  "delete_actions now_iso =
     [SetAttr ''deleted'' (PBool True), SetAttr ''phoneNumber'' (PStr []),
      SetAttr ''phoneNumberBlindIndex'' (PStr []), SetAttr ''updatedAt'' (PStr now_iso),
      RemoveAttr ''cognitoSub'']"

text \<open>A stored number is text or missing; another falsy value is taken for the empty text here.\<close>

definition audit_phone :: "pyval \<Rightarrow> pystr option" where
  "audit_phone v = (if v = PNone then None else Some (str_of v))"

definition delete_employee :: "'a employee_env_scheme \<Rightarrow> pystr list \<Rightarrow> pyval \<Rightarrow> pyval \<Rightarrow> http prog" where
  "delete_employee env created path_params who =
     bindP (lift (path_id path_params)) (\<lambda>employee_id.
     bindP (get_employee employee_id) (\<lambda>existing.
     if absent existing then ret (response env 404 ErrorText)
     else
       bindP emp_now_iso (\<lambda>now_iso.
       thenP (aws (UpdateItem EmployeeTable (employee_key employee_id) (delete_actions now_iso) NoCond))
       (bindP (lift (emp_decrypt env (dget_or (items_of existing) ''phoneNumber'' (PStr [])))) (\<lambda>phone.
       thenP (emp_audit env created ''EMPLOYEE_DELETE'' who employee_id (audit_phone phone))
         (ret (response env 200 (Json (PDict
           [(str ''employeeId'', PStr employee_id), (str ''deleted'', PBool True)])))))))))"

section \<open>POST /employees/import\<close>

fun mapP :: "('a \<Rightarrow> 'b prog) \<Rightarrow> 'a list \<Rightarrow> 'b list prog" where
  "mapP f [] = ret []"
| "mapP f (x # xs) = bindP (f x) (\<lambda>y. bindP (mapP f xs) (\<lambda>ys. ret (y # ys)))"

fun registered_phones :: "'a employee_env_scheme \<Rightarrow> employee_row list \<Rightarrow> pystr list prog" where
  "registered_phones env [] = ret []"
| "registered_phones env (row # rows) =
     bindP (phone_already_registered env (er_phone row)) (\<lambda>dup.
     bindP (registered_phones env rows) (\<lambda>more.
       ret (if dup then er_phone row # more else more)))"

definition typed_str :: "pystr \<Rightarrow> pyval" where
  "typed_str s = PDict [(str ''S'', PStr s)]"

definition import_put :: "'a employee_env_scheme \<Rightarrow> pystr \<Rightarrow> employee_row \<Rightarrow> twrite prog" where
  "import_put env now_iso row =
     Env Uuid4 (\<lambda>u.
     bindP (emp_encrypt env (er_name row)) (\<lambda>n.
     bindP (emp_encrypt env (er_phone row)) (\<lambda>p.
     bindP (lift (emp_blind_index env (er_phone row))) (\<lambda>blind.
       ret (TPut EmployeeTable
         [(str ''employeeId'', typed_str (uuid4_str u)), (str ''name'', typed_str n),
          (str ''phoneNumber'', typed_str p), (str ''phoneNumberBlindIndex'', typed_str blind),
          (str ''role'', typed_str (str ''employee'')), (str ''deleted'', PDict [(str ''BOOL'', PBool False)]),
          (str ''createdAt'', typed_str now_iso), (str ''updatedAt'', typed_str now_iso)])))))"

definition insert_batch :: "'a employee_env_scheme \<Rightarrow> pystr \<Rightarrow> employee_row list \<Rightarrow> unit prog" where
  "insert_batch env now_iso batch =
     bindP (mapP (import_put env now_iso) batch) (\<lambda>items. thenP (aws (TransactWrite items)) (ret ()))"

text \<open>The numbers inserted, and whether a \<open>ClientError\<close> ended the loop.\<close>

fun insert_batches ::
  "'a employee_env_scheme \<Rightarrow> pystr \<Rightarrow> employee_row list list \<Rightarrow> pystr list \<Rightarrow> (pystr list \<times> bool) prog" where
  "insert_batches env now_iso [] inserted = ret (inserted, False)"
| "insert_batches env now_iso (batch # batches) inserted =
     bindP (catchP (thenP (insert_batch env now_iso batch) (ret False))
         (\<lambda>e. case e of ClientError c \<Rightarrow> ret True | _ \<Rightarrow> raise e)) (\<lambda>failed.
     if failed then ret (inserted, True)
     else insert_batches env now_iso batches (inserted @ map er_phone batch))"

definition rollback_query :: "'a employee_env_scheme \<Rightarrow> pystr \<Rightarrow> pyval prog" where
  "rollback_query env phone =
     (if encryption_enabled env then
        bindP (lift (compute_blind_index (emp_hmac_key env) phone)) (\<lambda>blind.
          aws (ScanEq EmployeeTable [(str ''phoneNumberBlindIndex'', PStr blind)]))
      else aws (Query EmployeeTable (Some ''PhoneNumberIndex'') ''phoneNumber'' (PStr phone) True None PNone))"

definition rollback_one :: "'a employee_env_scheme \<Rightarrow> pystr \<Rightarrow> unit prog" where
  "rollback_one env phone =
     catchP
       (bindP (rollback_query env phone) (\<lambda>resp.
         for_each (\<lambda>it. bindP (lift (dindex it ''employeeId'')) (\<lambda>eid.
           thenP (aws (DeleteItem EmployeeTable [(str ''employeeId'', eid)] NoCond)) (ret ()))) (page_items resp)))
       (\<lambda>e. case e of ClientError c \<Rightarrow> ret () | _ \<Rightarrow> raise e)"

definition rollback_inserted :: "'a employee_env_scheme \<Rightarrow> pystr list \<Rightarrow> unit prog" where
  "rollback_inserted env phones = for_each (rollback_one env) phones"

definition import_report :: "nat \<Rightarrow> nat \<Rightarrow> pyval list \<Rightarrow> http_body" where
  "import_report imported attempted errors = Json (PDict
     [(str ''imported'', PInt (int imported)), (str ''attempted'', PInt (int attempted)),
      (str ''errors'', PList errors)])"

definition csv_error_entry :: "'a employee_env_scheme \<Rightarrow> csv_parse_error \<Rightarrow> pyval" where
  "csv_error_entry env e =
     PDict [(str ''line'', PInt (int (fst e))), (str ''reason'', PStr (reason_text env (snd e)))]"

definition duplicate_entry :: "pystr \<Rightarrow> pyval" where
  "duplicate_entry p = PDict [(str ''reason'', PStr (str ''Phone already registered: '' @ p))]"

text \<open>The reason of a rolled-back import is the service's message and left out.\<close>

definition finish_import ::
  "'a employee_env_scheme \<Rightarrow> pystr list \<Rightarrow> nat \<Rightarrow> pyval \<Rightarrow> pystr list \<times> bool \<Rightarrow> http prog" where
  "finish_import env created attempted who outcome =
     (case outcome of (inserted, failed) \<Rightarrow>
       if failed then
         thenP (rollback_inserted env inserted)
           (ret (response env 500 (import_report 0 attempted [PDict []])))
       else
         thenP (emp_audit env created ''EMPLOYEE_CSV_IMPORT'' who
             (str ''<batch:'' @ int_str (int (length inserted)) @ str ''rows>'') None)
           (ret (response env 201 (import_report (length inserted) attempted []))))"

definition store_import ::
  "'a employee_env_scheme \<Rightarrow> pystr list \<Rightarrow> employee_row list \<Rightarrow> pyval \<Rightarrow> http prog" where
  "store_import env created rows who =
     bindP emp_now_iso (\<lambda>now_iso.
     bindP (insert_batches env now_iso (chunks transact_max_items rows) [])
       (finish_import env created (length rows) who))"

definition import_rows ::
  "'a employee_env_scheme \<Rightarrow> pystr list \<Rightarrow> employee_row list \<Rightarrow> pyval \<Rightarrow> http prog" where
  "import_rows env created rows who =
     bindP (registered_phones env rows) (\<lambda>duplicates.
     if duplicates \<noteq> [] then
       ret (response env 409 (import_report 0 (length rows)
         (map duplicate_entry (sort_by str_le (remdups duplicates)))))
     else store_import env created rows who)"

definition import_csv :: "'a employee_env_scheme \<Rightarrow> pystr list \<Rightarrow> pydict \<Rightarrow> pyval \<Rightarrow> http prog" where
  "import_csv env created body who =
     (let raw_b64 = dget body ''csvBase64'' in
      if \<not> nonempty_str raw_b64 then raise ValueError
      else case b64decode True (str_of raw_b64) of
        None \<Rightarrow> ret (response env 400 ErrorText)
      | Some raw_bytes \<Rightarrow>
          (let parsed = parse_employee_csv raw_bytes in
           if pr_errors parsed \<noteq> [] then
             ret (response env 400 (import_report 0 (length (pr_rows parsed) + length (pr_errors parsed))
               (map (csv_error_entry env) (pr_errors parsed))))
           else import_rows env created (pr_rows parsed) who))"

section \<open>POST /employees/{id}/anonymize\<close>

text \<open>
  The scan asks for the attribute \<open>cycleId\<close> only, and nothing else of an item is read. The fuel bounds its
  pages.
\<close>

definition list_all_cycle_ids :: "nat \<Rightarrow> pystr list prog" where
  "list_all_cycle_ids fuel =
     bindP (pages is_none fuel (Scan CycleTable) PNone) (\<lambda>items.
       ret (map str_of (filter nonempty_str (map (\<lambda>it. dget it ''cycleId'') items))))"

definition query_responses_for_employee :: "pystr \<Rightarrow> pystr \<Rightarrow> pydict list prog" where
  "query_responses_for_employee cycle_id employee_id =
     bindP (aws (QueryKeys ResponseTable (response_key cycle_id employee_id))) (\<lambda>resp.
       ret (page_items resp))"

text \<open>The text of an \<open>N\<close> is represented by its number.\<close>

fun marshal_attribute_value :: "pyval \<Rightarrow> pyval res"
  and marshal_values :: "pyval list \<Rightarrow> pyval list res"
  and marshal_response_item :: "pydict \<Rightarrow> pydict res" where
  "marshal_attribute_value PNone = Inr (PDict [(str ''NULL'', PBool True)])"
| "marshal_attribute_value (PBool b) = Inr (PDict [(str ''BOOL'', PBool b)])"
| "marshal_attribute_value (PStr s) = Inr (PDict [(str ''S'', PStr s)])"
| "marshal_attribute_value (PInt i) = Inr (PDict [(str ''N'', PDec (of_int i))])"
| "marshal_attribute_value (PDec r) = Inr (PDict [(str ''N'', PDec r)])"
| "marshal_attribute_value (PFloat r) = Inl TypeError"
| "marshal_attribute_value (PList xs) =
     bind_res (marshal_values xs) (\<lambda>ys. Inr (PDict [(str ''L'', PList ys)]))"
| "marshal_attribute_value (PDict d) =
     bind_res (marshal_response_item d) (\<lambda>m. Inr (PDict [(str ''M'', PDict m)]))"
| "marshal_values [] = Inr []"
| "marshal_values (v # vs) =
     bind_res (marshal_attribute_value v) (\<lambda>y. bind_res (marshal_values vs) (\<lambda>ys. Inr (y # ys)))"
| "marshal_response_item [] = Inr []"
| "marshal_response_item ((k, v) # d) =
     bind_res (marshal_attribute_value v) (\<lambda>y. bind_res (marshal_response_item d) (\<lambda>ys. Inr ((k, y) # ys)))"

definition anonymize_pair :: "pystr \<Rightarrow> pydict \<Rightarrow> twrite list res" where
  "anonymize_pair anonymized_id row =
     bind_res (dindex row ''cycleId'') (\<lambda>cycle_id.
     bind_res (dindex row ''employeeId'') (\<lambda>original_id.
     bind_res (marshal_response_item (dset row (str ''employeeId'') (PStr anonymized_id))) (\<lambda>item.
       Inr [TDelete ResponseTable
              [(str ''cycleId'', PDict [(str ''S'', cycle_id)]), (str ''employeeId'', PDict [(str ''S'', original_id)])],
            TPut ResponseTable item])))"

definition build_anonymize_transact_items :: "pydict list \<Rightarrow> pystr \<Rightarrow> twrite list res" where
  "build_anonymize_transact_items rows anonymized_id =
     bind_res (map_res (anonymize_pair anonymized_id) rows) (\<lambda>pairs. Inr (concat pairs))"

definition rewrite_chunk :: "pystr \<Rightarrow> pydict list \<Rightarrow> unit prog" where
  "rewrite_chunk anonymized_id chunk =
     bindP (lift (build_anonymize_transact_items chunk anonymized_id)) (\<lambda>items.
       thenP (aws (TransactWrite items)) (ret ()))"

definition anonymize_rows :: "nat \<Rightarrow> pystr \<Rightarrow> pystr \<Rightarrow> nat prog" where
  "anonymize_rows fuel employee_id anonymized_id =
     bindP (list_all_cycle_ids fuel) (\<lambda>cycle_ids.
     bindP (mapP (\<lambda>cid. query_responses_for_employee cid employee_id) cycle_ids) (\<lambda>found.
     let rows_to_rewrite = concat found in
     thenP (for_each (rewrite_chunk anonymized_id) (chunks anonymize_rows_per_batch rows_to_rewrite))
       (ret (length rows_to_rewrite))))"

definition anonymize_answer :: "'a employee_env_scheme \<Rightarrow> pystr \<Rightarrow> pystr \<Rightarrow> nat \<Rightarrow> http" where
  "anonymize_answer env employee_id anonymized_id n =
     response env 200 (Json (PDict
       [(str ''employeeId'', PStr employee_id), (str ''anonymizedId'', PStr anonymized_id),
        (str ''responseCountUpdated'', PInt (int n))]))"

definition anonymize_employee ::
  "'a employee_env_scheme \<Rightarrow> pystr list \<Rightarrow> nat \<Rightarrow> pyval \<Rightarrow> pydict \<Rightarrow> pyval \<Rightarrow> http prog" where
  "anonymize_employee env created fuel path_params event who =
     (if anonymize_salt env = [] then ret (response env 503 ErrorText)
      else
        bindP (lift (claims_of event)) (\<lambda>claims.
        if \<not> is_authorized claims (PStr administrator_group) then ret (response env 403 ErrorText)
        else
          bindP (lift (path_id path_params)) (\<lambda>employee_id.
          bindP (get_employee employee_id) (\<lambda>existing.
          if existing = PNone then ret (response env 404 ErrorText)
          else if \<not> row_deleted (items_of existing) then ret (response env 409 ErrorText)
          else
            bindP (lift (anonymize_employee_id (PStr employee_id) (PStr (anonymize_salt env)))) (\<lambda>anonymized_id.
            bindP (anonymize_rows fuel employee_id anonymized_id) (\<lambda>n.
            thenP
              (write_audit_log env created (str ''EMPLOYEE_ANONYMIZE'') who employee_id (str ''SUCCESS'') None None
                (Some [(str ''responseCountUpdated'', PInt (int n)),
                       (str ''anonymizedIdPrefix'', PStr (str anonymized_id_prefix))]))
              (ret (anonymize_answer env employee_id anonymized_id n))))))))"

section \<open>DELETE /employees/{id}/cognito-user\<close>

definition user_not_found :: pystr where
  "user_not_found = str ''UserNotFoundException''"

definition unlink_cognito ::
  "'a employee_env_scheme \<Rightarrow> pystr list \<Rightarrow> pystr \<Rightarrow> pystr \<Rightarrow> pyval \<Rightarrow> http prog" where
  "unlink_cognito env created employee_id cognito_sub who =
     thenP
       (on_codes [user_not_found]
         (aws (AdminDeleteUser (PDict
           [(str ''UserPoolId'', PStr (user_pool_id env)), (str ''Username'', PStr cognito_sub)]))) PNone)
     (bindP emp_now_iso (\<lambda>now_iso.
     thenP
       (aws (UpdateItem EmployeeTable (employee_key employee_id)
         [RemoveAttr ''cognitoSub'', SetAttr ''updatedAt'' (PStr now_iso)] NoCond))
     (thenP
       (write_audit_log env created (str ''COGNITO_USER_DELETE'') who employee_id (str ''SUCCESS'') None None
         (Some [(str ''cognitoSubDeleted'', PStr cognito_sub)]))
       (ret (response env 200 (Json (PDict
         [(str ''employeeId'', PStr employee_id), (str ''cognitoUserDeleted'', PBool True)])))))))"

definition delete_cognito_user ::
  "'a employee_env_scheme \<Rightarrow> pystr list \<Rightarrow> pyval \<Rightarrow> pydict \<Rightarrow> pyval \<Rightarrow> http prog" where
  "delete_cognito_user env created path_params event who =
     bindP (lift (claims_of event)) (\<lambda>claims.
     if \<not> is_authorized claims (PStr administrator_group) then ret (response env 403 ErrorText)
     else
       bindP (lift (path_id path_params)) (\<lambda>employee_id.
       bindP (get_employee employee_id) (\<lambda>existing.
       if existing = PNone then ret (response env 404 ErrorText)
       else if \<not> row_deleted (items_of existing) then ret (response env 409 ErrorText)
       else
         let cognito_sub = dget (items_of existing) ''cognitoSub'' in
         if \<not> nonempty_str cognito_sub then ret (response env 404 ErrorText)
         else unlink_cognito env created employee_id (str_of cognito_sub) who)))"

section \<open>Entry point\<close>

definition employee_route ::
  "(pystr \<Rightarrow> pyval option) \<Rightarrow> 'a employee_env_scheme \<Rightarrow> pystr list \<Rightarrow> nat \<Rightarrow> pydict \<Rightarrow> pyval \<Rightarrow> http prog" where
  "employee_route loads env created fuel event who =
     (let path_params = or_empty (dget event ''pathParameters''); raw_body = dget event ''body'' in
      if is_route event ''POST'' ''/employees'' then
        bindP (lift (parse_body loads raw_body)) (\<lambda>body. create_employee env created body who)
      else if is_route event ''GET'' ''/employees'' then list_employees env fuel event
      else if is_route event ''GET'' ''/employees/{id}'' then get_employee_by_id env path_params
      else if is_route event ''PUT'' ''/employees/{id}'' then
        bindP (lift (parse_body loads raw_body)) (\<lambda>body. update_employee env created path_params body who)
      else if is_route event ''DELETE'' ''/employees/{id}'' then delete_employee env created path_params who
      else if is_route event ''POST'' ''/employees/import'' then
        bindP (lift (parse_body loads raw_body)) (\<lambda>body. import_csv env created body who)
      else if is_route event ''POST'' ''/employees/{id}/anonymize'' then
        anonymize_employee env created fuel path_params event who
      else if is_route event ''DELETE'' ''/employees/{id}/cognito-user'' then
        delete_cognito_user env created path_params event who
      else ret (response env 405 ErrorText))"

definition employee_on_error :: "'a employee_env_scheme \<Rightarrow> pyerr \<Rightarrow> http prog" where
  "employee_on_error env e =
     (if e = ValueError then ret (response env 400 ErrorText)
      else if e \<in> {ClientError ccfe, ClientError (str ''TransactionCanceledException'')} then
        ret (response env 409 ErrorText)
      else raise e)"

definition employee_lambda_handler ::
  "(pystr \<Rightarrow> pyval option) \<Rightarrow> 'a employee_env_scheme \<Rightarrow> pystr list \<Rightarrow> nat \<Rightarrow> pydict \<Rightarrow> http prog" where
  "employee_lambda_handler loads env created fuel event =
     bindP (lift (employee_principal env event)) (\<lambda>who.
       catchP (employee_route loads env created fuel event who) (employee_on_error env))"

end
