(* ===== verification/Employee_Facts.thy ===== *)
theory Employee_Facts
  imports Employee_Api Lockout
begin

text \<open>
  What the Lambda \<open>employee_api\<close> guarantees: typed items, transactions within the limit, guarded routes,
  the fate of a deleted employee, imports and pseudonymisation.
\<close>

section \<open>Typed items\<close>

fun has_float :: "pyval \<Rightarrow> bool" where
  "has_float (PFloat r) = True"
| "has_float (PList xs) = list_ex has_float xs"
| "has_float (PDict d) = list_ex (\<lambda>(k, v). has_float v) d"
| "has_float _ = False"

text \<open>An attribute value in the typed form.\<close>

fun typed :: "pyval \<Rightarrow> bool" where
  "typed (PDict [(t, PList xs)]) = (t = str ''L'' \<and> list_all typed xs)"
| "typed (PDict [(t, PDict d)]) = (t = str ''M'' \<and> list_all (\<lambda>(k, v). typed v) d)"
| "typed (PDict [(t, PStr s)]) = (t = str ''S'')"
| "typed (PDict [(t, PDec r)]) = (t = str ''N'')"
| "typed (PDict [(t, PBool b)]) = (t = str ''BOOL'' \<or> t = str ''NULL'' \<and> b)"
| "typed _ = False"

definition marshalled :: "bool \<Rightarrow> 'a res \<Rightarrow> ('a \<Rightarrow> bool) \<Rightarrow> bool" where
  "marshalled fl r ok \<longleftrightarrow> (if fl then r = Inl TypeError else \<exists>m. r = Inr m \<and> ok m)"

lemma marshal_sound:
  "marshalled (has_float v) (marshal_attribute_value v) (\<lambda>m. typed m \<and> unmarshal m = ddb_norm v)"
  "marshalled (list_ex has_float vs) (marshal_values vs) (\<lambda>ys. list_all typed ys \<and> map unmarshal ys = map ddb_norm vs)"
  "marshalled (list_ex (\<lambda>(k, v). has_float v) d) (marshal_response_item d)
     (\<lambda>m. list_all (\<lambda>(k, v). typed v) m \<and> unmarshal_row m = norm_row d)"
proof (induction v and vs and d rule: marshal_attribute_value_marshal_values_marshal_response_item.induct)
qed (auto simp: marshalled_def unmarshal_row_def norm_row_def split: if_splits)


section \<open>The size of transactions\<close>

text \<open>The rest of a program need only be bounded for the results its first part can have.\<close>

lemma all_calls_bindP_exec:
  "all_calls P p \<Longrightarrow> (\<And>tr x. exec p tr (Inr x) \<Longrightarrow> all_calls P (f x)) \<Longrightarrow> all_calls P (bindP p f)"
proof (induction p)
  case (Done r)
  then show ?case by (cases r) auto
next
  case (Call q k)
  have "all_calls P (bindP (k a) f)" for a
    by (rule Call.IH) (use Call.prems in \<open>auto intro: exec_call\<close>)
  then show ?case using Call.prems by simp
next
  case (Env e k)
  have "all_calls P (bindP (k n) f)" for n
    by (rule Env.IH) (use Env.prems in \<open>auto intro: exec_env\<close>)
  then show ?case by simp
qed

lemma all_calls_mapP: "(\<And>x. all_calls P (f x)) \<Longrightarrow> all_calls P (mapP f xs)"
  by (induction xs) (auto intro!: all_calls_bindP)

lemma exec_mapP_length: "exec (mapP f xs) tr (Inr ys) \<Longrightarrow> length ys = length xs"
  by (induction xs arbitrary: tr ys) (auto simp: exec_bindP)

lemma all_calls_for_each_in: "(\<And>x. x \<in> set xs \<Longrightarrow> all_calls P (f x)) \<Longrightarrow> all_calls P (for_each f xs)"
  by (induction xs) auto

fun within_limit :: "req \<Rightarrow> bool" where
  "within_limit (TransactWrite ws) \<longleftrightarrow> ws \<noteq> [] \<and> length ws \<le> transact_max_items"
| "within_limit q \<longleftrightarrow> True"

lemma audit_limit: "all_calls within_limit (write_audit_log env created ev who tgt oc ts ph ex)"
  by (auto simp: write_audit_log_def audit_now_iso_def stream_name_def today_yyyymmdd_def ensure_log_stream_def
      now_epoch_ms_def Let_def split: option.split list.split intro!: all_calls_bindP all_calls_catchP)

lemma length_anonymize_pair: "anonymize_pair a d = Inr ws \<Longrightarrow> length ws = 2"
  by (auto simp: anonymize_pair_def bind_res_eq_Inr)

lemma length_anonymize_items:
  assumes "build_anonymize_transact_items rows a = Inr ws"
  shows "length ws = 2 * length rows"
proof -
  obtain pairs where p: "map_res (anonymize_pair a) rows = Inr pairs" "ws = concat pairs"
    using assms by (auto simp: build_anonymize_transact_items_def bind_res_eq_Inr)
  have "length (concat pairs) = 2 * length rows"
    using p(1) by (induction rows arbitrary: pairs) (auto simp: bind_res_eq_Inr length_anonymize_pair)
  then show ?thesis using p(2) by simp
qed

lemmas emp_steps =
  emp_now_iso_def emp_encrypt_def encrypt_field_def emp_audit_def get_employee_def phone_already_registered_def

lemma limit_steps:
  "all_calls within_limit emp_now_iso" "all_calls within_limit (emp_encrypt env v)"
  "all_calls within_limit (get_employee i)" "all_calls within_limit (phone_already_registered env ph)"
  "all_calls within_limit (emp_audit env' created ev who tgt phone)"
  by (auto simp: emp_steps audit_limit split: option.split intro!: all_calls_bindP)

lemma limit_create: "all_calls within_limit (create_employee env created body who)"
  by (auto simp: create_employee_def Let_def register_admin_def create_cognito_admin_def insert_employee_def
      employee_item_def audit_created_admin_def limit_steps audit_limit
      intro!: all_calls_bindP all_calls_catchP split: option.split)

lemma limit_list_loop: "all_calls within_limit (list_loop env b n k)"
  by (induction n arbitrary: k) (auto simp: Let_def intro!: all_calls_bindP)

lemma limit_list: "all_calls within_limit (list_employees env fuel event)"
  by (auto simp: list_employees_def limit_list_loop intro!: all_calls_bindP)

lemma limit_get: "all_calls within_limit (get_employee_by_id env pp)"
  by (auto simp: get_employee_by_id_def limit_steps intro!: all_calls_bindP)

lemma limit_update: "all_calls within_limit (update_employee env created pp body who)"
  by (auto simp: update_employee_def Let_def store_update_def update_actions_def limit_steps intro!: all_calls_bindP)

lemma limit_delete: "all_calls within_limit (delete_employee env created pp who)"
  by (auto simp: delete_employee_def limit_steps intro!: all_calls_bindP)

lemma limit_cognito: "all_calls within_limit (delete_cognito_user env created pp event who)"
  by (auto simp: delete_cognito_user_def unlink_cognito_def Let_def limit_steps audit_limit
      intro!: all_calls_bindP all_calls_on_codes)

lemma limit_insert_batch:
  assumes "batch \<noteq> []" "length batch \<le> transact_max_items"
  shows "all_calls within_limit (insert_batch env now_iso batch)"
  unfolding insert_batch_def
proof (rule all_calls_bindP_exec)
  show "all_calls within_limit (mapP (import_put env now_iso) batch)"
    by (auto simp: import_put_def limit_steps intro!: all_calls_mapP all_calls_bindP)
next
  fix tr items
  assume "exec (mapP (import_put env now_iso) batch) tr (Inr items)"
  then have "length items = length batch" by (rule exec_mapP_length)
  with assms show "all_calls within_limit (thenP (aws (TransactWrite items)) (ret ()))"
    by (auto intro!: all_calls_bindP)
qed

lemma limit_insert_batches:
  assumes "list_all (\<lambda>b. b \<noteq> [] \<and> length b \<le> transact_max_items) batches"
  shows "all_calls within_limit (insert_batches env now_iso batches inserted)"
  using assms
  by (induction batches arbitrary: inserted)
    (auto simp: limit_insert_batch split: pyerr.split intro!: all_calls_bindP all_calls_catchP)

lemma limit_rollback: "all_calls within_limit (rollback_inserted env phones)"
  by (auto simp: rollback_inserted_def rollback_one_def rollback_query_def split: pyerr.split
      intro!: all_calls_for_each all_calls_bindP all_calls_catchP)

lemma limit_registered: "all_calls within_limit (registered_phones env rows)"
  by (induction rows) (auto simp: limit_steps intro!: all_calls_bindP)

lemma limit_import: "all_calls within_limit (import_csv env created body who)"
proof -
  have "list_all (\<lambda>b. b \<noteq> [] \<and> length b \<le> transact_max_items) (chunks transact_max_items rows)"
    for rows :: "employee_row list"
    using chunks_bound [of transact_max_items _ rows] by (simp add: list_all_iff transact_max_items_def)
  then show ?thesis
    by (auto simp: import_csv_def import_rows_def store_import_def finish_import_def Let_def limit_registered limit_rollback limit_steps
        intro!: all_calls_bindP limit_insert_batches split: option.split)
qed

lemma limit_rewrite:
  assumes "rows \<noteq> []" "length rows \<le> anonymize_rows_per_batch"
  shows "all_calls within_limit (rewrite_chunk a rows)"
proof (cases "build_anonymize_transact_items rows a")
  case (Inr ws)
  have "length ws = 2 * length rows" by (rule length_anonymize_items [OF Inr])
  with assms have "ws \<noteq> [] \<and> length ws \<le> transact_max_items"
    by (auto simp: anonymize_rows_per_batch_def transact_max_items_def)
  then show ?thesis by (auto simp: rewrite_chunk_def Inr intro!: all_calls_bindP)
qed (simp add: rewrite_chunk_def)

lemma limit_anonymize_rows: "all_calls within_limit (anonymize_rows fuel e a)"
proof -
  have "all_calls within_limit (for_each (rewrite_chunk a) (chunks anonymize_rows_per_batch rows))" for rows
    by (rule all_calls_for_each_in)
      (auto simp: anonymize_rows_per_batch_def transact_max_items_def dest!: chunks_bound [rotated] intro!: limit_rewrite)
  then show ?thesis
    by (auto simp: anonymize_rows_def list_all_cycle_ids_def query_responses_for_employee_def Let_def
        intro!: all_calls_bindP all_calls_mapP pages_calls)
qed

lemma limit_anonymize: "all_calls within_limit (anonymize_employee env created fuel pp event who)"
  by (auto simp: anonymize_employee_def limit_steps audit_limit limit_anonymize_rows intro!: all_calls_bindP)


section \<open>Guarded routes\<close>

lemma principal_claims:
  "claims_of event = Inr (PDict claims) \<Longrightarrow> \<exists>who. employee_principal env event = Inr who"
  by (auto simp: claims_of_def employee_principal_def principal_of_def bind_res_eq_Inr)
    (auto simp: vget_or_def)

text \<open>
  Property C24. The two irreversible routes are guarded by the Lambda itself: a caller whose claims do not name
  the group \<open>Administrator\<close> is answered 403 (or 503 while no salt is configured) and not one request is made.
\<close>

theorem admin_routes_guarded:
  assumes "claims_of event = Inr (PDict claims)" and "\<not> is_authorized (PDict claims) (PStr administrator_group)"
    and "is_route event ''POST'' ''/employees/{id}/anonymize'' \<or> is_route event ''DELETE'' ''/employees/{id}/cognito-user''"
    and "exec (employee_lambda_handler loads env created fuel event) tr r"
  shows "tr = [] \<and> r \<in> {Inr (response env 403 ErrorText), Inr (response env 503 ErrorText)}"
proof -
  obtain who where "employee_principal env event = Inr who"
    using principal_claims [OF assms(1)] by blast
  with assms show ?thesis
    by (auto simp: employee_lambda_handler_def employee_route_def is_route_def anonymize_employee_def
        delete_cognito_user_def exec_catchP Let_def split: if_splits)
qed

definition operator_event :: pydict where
  "operator_event =
     [(str ''httpMethod'', PStr (str ''POST'')), (str ''resource'', PStr (str ''/employees/{id}/anonymize'')),
      (str ''requestContext'', PDict [(str ''authorizer'', PDict [(str ''claims'', PDict
        [(str ''sub'', PStr (str ''s'')), (str ''cognito:groups'', PList [PStr (str ''Operator'')])])])])]"

definition sample_employee_env :: employee_env where
  "sample_employee_env = \<lparr>log_group_name = Some (str ''audit''), function_name = None, cors_allowed_origin = None,
     encryption_enabled = False, emp_cipher = plain_cipher\<lparr>loads_bytes := \<lambda>raw. None\<rparr>, emp_data_key = Inr [], emp_hmac_key = [],
     user_pool_id = str ''pool'', admin_group_name = str ''Administrator'', anonymize_salt = str ''salt'',
     emp_show = (\<lambda>v. []), reason_text = (\<lambda>r. [])\<rparr>"

theorem admin_routes_guarded_witness:
  "\<exists>tr r. exec (employee_lambda_handler (\<lambda>s. None) sample_employee_env [] 1 operator_event) tr r \<and>
     r = Inr (response sample_employee_env 403 ErrorText)"
proof -
  obtain tr r where e: "exec (employee_lambda_handler (\<lambda>s. None) sample_employee_env [] 1 operator_event) tr r"
    using run_exec [of "employee_lambda_handler (\<lambda>s. None) sample_employee_env [] 1 operator_event" store_ops] by blast
  have c: "claims_of operator_event =
      Inr (PDict [(str ''sub'', PStr (str ''s'')), (str ''cognito:groups'', PList [PStr (str ''Operator'')])])"
    by (simp add: claims_of_def operator_event_def vget_or_def)
  have "tr = [] \<and> r \<in> {Inr (response sample_employee_env 403 ErrorText), Inr (response sample_employee_env 503 ErrorText)}"
    by (rule admin_routes_guarded [OF c _ _ e])
      (simp_all add: is_authorized_def administrator_group_def is_route_def operator_event_def)
  then have t: "tr = []" and "r = Inr (response sample_employee_env 403 ErrorText) \<or>
      r = Inr (response sample_employee_env 503 ErrorText)" by auto
  moreover have "r \<noteq> Inr (response sample_employee_env 503 ErrorText)"
    using e by (auto simp: t employee_lambda_handler_def employee_principal_def principal_of_def employee_route_def
        is_route_def anonymize_employee_def operator_event_def vget_or_def exec_catchP sample_employee_env_def
        claims_of_def is_authorized_def administrator_group_def response_def Let_def)
  ultimately show ?thesis using e by blast
qed

section \<open>Deleted employees\<close>

definition stored :: "pydict option \<Rightarrow> pyval" where
  "stored r = (case r of None \<Rightarrow> PNone | Some d \<Rightarrow> PDict d)"

lemma stored_simps [simp]: "stored None = PNone" "stored (Some d) = PDict d" "stored r = PNone \<longleftrightarrow> r = None"
  by (auto simp: stored_def split: option.splits)

lemma employee_key_of [simp]: "key_of EmployeeTable (employee_key e) = [PStr e]"
  by (simp add: key_of_def employee_key_def)

context dynamodb begin

lemma run_get_employee:
  obtains s' where "run W (get_employee e) s = (Inr (stored (row s EmployeeTable [PStr e])), s')" "row s' = row s"
proof -
  obtain s' where g: "run W (aws (GetItem EmployeeTable (employee_key e))) s =
      (Inr (PDict (case row s EmployeeTable [PStr e] of None \<Rightarrow> [] | Some d \<Rightarrow> [(str ''Item'', PDict d)])), s')"
      "row s' = row s"
    using run_get [of EmployeeTable "employee_key e" s] by auto
  have "run W (get_employee e) s = (Inr (stored (row s EmployeeTable [PStr e])), s')"
    by (simp add: get_employee_def run_bindP g(1) stored_def split: option.split)
  then show thesis using g(2) by (rule that)
qed

lemma run_now_iso: obtains t s' where "run W emp_now_iso s = (Inr t, s')" "row s' = row s"
proof -
  obtain n s' where "run W now_us s = (Inr n, s')" "row s' = row s" by (rule run_now_frame)
  then show thesis by (intro that [of "iso_z_seconds n" s']) (simp_all add: emp_now_iso_def run_bindP)
qed

lemma run_audit_rows:
  "run W (emp_audit env created ev who tgt phone) s = (r, s') \<Longrightarrow> row s' = row s"
  by (rule run_readonly [OF readonly_audit]) (simp add: emp_audit_def)

text \<open>A deletion that is answered 200 updates the one row, which was there and not deleted.\<close>

lemma run_delete:
  assumes "run W (delete_employee env created pp who) s = (Inr h, s1)" and "status_code h = 200"
    and "path_id pp = Inr e"
  obtains d now where "row s EmployeeTable [PStr e] = Some d" "\<not> row_deleted d"
    "row s1 = (row s)(EmployeeTable := (row s EmployeeTable)([PStr e] := Some (apply_upds d (delete_actions now))))"
proof -
  obtain s2 where g: "run W (get_employee e) s = (Inr (stored (row s EmployeeTable [PStr e])), s2)" "row s2 = row s"
    by (rule run_get_employee)
  have a: "\<not> absent (stored (row s EmployeeTable [PStr e]))"
    using assms by (auto simp: delete_employee_def run_bindP g(1) response_def)
  then obtain d where d: "row s EmployeeTable [PStr e] = Some d" "\<not> row_deleted d"
    by (cases "row s EmployeeTable [PStr e]") (auto simp: absent_def)
  obtain now s3 where n: "run W emp_now_iso s2 = (Inr now, s3)" "row s3 = row s2" by (rule run_now_iso)
  let ?q = "UpdateItem EmployeeTable (employee_key e) (delete_actions now) NoCond"
  let ?d = "apply_upds d (delete_actions now)"
  obtain v s4 where u: "run W (aws ?q) s3 = (Inr v, s4)"
    "row s4 = (row s3)(EmployeeTable := (row s3 EmployeeTable)([PStr e] := Some ?d))"
    by (rule run_write_ok [of ?q EmployeeTable "[PStr e]" s3 "Some ?d"]) (simp_all add: d g(2) n(2))
  have "row s1 = row s4"
    using assms(1,3) a d
    by (auto simp: delete_employee_def run_bindP g(1) n(1) u(1) split: prod.splits sum.splits
        dest!: run_audit_rows)
  with that d u(2) g(2) n(2) show thesis by simp
qed

end

definition deleted_row :: "pydict \<Rightarrow> bool" where
  "deleted_row d \<longleftrightarrow> dfind d ''deleted'' = Some (PBool True) \<and> dfind d ''phoneNumber'' = Some (PStr []) \<and>
     dfind d ''cognitoSub'' = None"

lemma deleted_row_actions: "deleted_row (apply_upds d (delete_actions now))"
  by (simp add: deleted_row_def delete_actions_def)

lemma deleted_row_facts:
  assumes "deleted_row d"
  shows "row_deleted d" "absent (stored (Some d))" "\<not> is_visible (PDict d)" "dget d ''cognitoSub'' = PNone"
  using assms by (auto simp: deleted_row_def row_deleted_def absent_def is_visible_def dget_or_def dget_def)


text \<open>A retiring administrator, deleted on the store.\<close>

definition admin_row :: pydict where
  "admin_row = [(str ''employeeId'', PStr (str ''e'')), (str ''name'', PStr (str ''Sato'')),
     (str ''phoneNumber'', PStr (str ''+819012345678'')), (str ''deleted'', PBool False),
     (str ''cognitoSub'', PStr (str ''sub''))]"

definition admin_store :: store where
  "admin_store = \<lparr>st_rows = [((EmployeeTable, [PStr (str ''e'')]), admin_row)], st_clock = 0, st_log = []\<rparr>"

definition e_path :: pyval where
  "e_path = PDict [(str ''id'', PStr (str ''e''))]"

lemma e_path_id: "path_id e_path = Inr (str ''e'')"
  by (simp add: path_id_def e_path_def vget_or_def)

lemma plain_not_encrypted: "\<not> is_encrypted (emp_cipher sample_employee_env) v"
  by (simp add: is_encrypted_def load_envelope_def sample_employee_env_def split: option.split)

lemma admin_delete:
  "\<exists>h s1. run store_ops (delete_employee sample_employee_env [] e_path (PStr [])) admin_store = (Inr h, s1) \<and>
     status_code h = 200"
proof -
  have g: "run store_ops (get_employee (str ''e'')) admin_store = (Inr (PDict admin_row), admin_store)"
    by (simp add: get_employee_def run_bindP run_store_get admin_store_def store_row_def)
  have n: "run store_ops emp_now_iso s = (Inr (iso_z_seconds (st_clock s)), s)" for s
    by (simp add: emp_now_iso_def run_bindP run_store_now)
  have u: "\<exists>s'. run store_ops (aws (UpdateItem EmployeeTable (employee_key (str ''e'')) (delete_actions now) NoCond)) admin_store =
      (Inr (PDict []), s')" for now
    by (simp add: run_store_write)
  have a: "\<exists>created' s'. run store_ops (emp_audit sample_employee_env [] ev who tgt phone) s = (Inr created', s')" for ev who tgt phone s
    unfolding emp_audit_def by (rule run_store_audit) (simp add: sample_employee_env_def)
  obtain s2 where s2: "run store_ops (aws (UpdateItem EmployeeTable (employee_key (str ''e''))
      (delete_actions (iso_z_seconds (st_clock admin_store))) NoCond)) admin_store = (Inr (PDict []), s2)"
    using u by blast
  obtain cr s3 where s3: "run store_ops (emp_audit sample_employee_env [] ''EMPLOYEE_DELETE'' (PStr []) (str ''e'')
      (Some (str ''+819012345678''))) s2 = (Inr cr, s3)" using a by blast
  show ?thesis
    by (simp add: delete_employee_def run_bindP e_path_id g n s2 absent_def row_deleted_def admin_row_def
        emp_decrypt_def plain_not_encrypted audit_phone_def s3 response_def)
qed



definition administrator_event :: pydict where
  "administrator_event = [(str ''requestContext'', PDict [(str ''authorizer'', PDict [(str ''claims'', PDict
     [(str ''cognito:groups'', PList [PStr (str ''Administrator'')])])])])]"


end
