(* ===== verification/Anonymize_Facts.thy ===== *)
theory Anonymize_Facts
  imports Employee_Facts
begin

text \<open>
  What \<open>POST /employees/{id}/anonymize\<close> does to the Response table, under the laws of transactions and
  complete queries.
\<close>

section \<open>One transaction\<close>

lemma ddb_norm_idem: "ddb_norm (ddb_norm v) = ddb_norm v"
  by (induction v) (auto simp: comp_def split: prod.splits)

lemma norm_row_idem: "norm_row (norm_row d) = norm_row d"
  by (simp add: norm_row_def ddb_norm_idem comp_def split_def)

definition renamed :: "pystr \<Rightarrow> pydict \<Rightarrow> pydict" where
  "renamed a d = norm_row (dset d (str ''employeeId'') (PStr a))"

definition cycle_of :: "pydict \<Rightarrow> pystr" where
  "cycle_of d = str_of (dget d ''cycleId'')"

definition slot :: "pystr \<Rightarrow> pystr \<Rightarrow> pyval list" where
  "slot c e = [PStr c, PStr e]"

text \<open>A row of the Response table that belongs to an employee.\<close>

definition row_of :: "pystr \<Rightarrow> pydict \<Rightarrow> bool" where
  "row_of e d \<longleftrightarrow> dfind d ''cycleId'' = Some (PStr (cycle_of d)) \<and> dfind d ''employeeId'' = Some (PStr e)"

definition move_row :: "pystr \<Rightarrow> pystr \<Rightarrow> pydict \<Rightarrow> db_rows \<Rightarrow> db_rows" where
  "move_row e a d R = R(ResponseTable :=
     (R ResponseTable)(slot (cycle_of d) e := None, slot (cycle_of d) a := Some (renamed a d)))"

lemma key_of_slot: "key_of ResponseTable d = slot c e \<longleftrightarrow> dget d ''cycleId'' = PStr c \<and> dget d ''employeeId'' = PStr e"
  by (simp add: key_of_def slot_def)

lemma pair_effect:
  assumes "anonymize_pair a d = Inr ws" and "row_of e d"
  shows "apply_twrites ws R = move_row e a d R"
proof -
  let ?n = "dset d (str ''employeeId'') (PStr a)"
  obtain m where m: "marshal_response_item ?n = Inr m"
    "ws = [TDelete ResponseTable [(str ''cycleId'', PDict [(str ''S'', PStr (cycle_of d))]),
       (str ''employeeId'', PDict [(str ''S'', PStr e)])], TPut ResponseTable m]"
    using assms by (auto simp: anonymize_pair_def row_of_def dindex_def bind_res_eq_Inr)
  have u: "unmarshal_row m = norm_row ?n"
    using marshal_sound(3) [of ?n] m(1) by (simp add: marshalled_def split: if_splits)
  have del: "twrite_target (hd ws) = (ResponseTable, slot (cycle_of d) e)" "twrite_row (hd ws) = None"
    by (simp_all add: m(2) key_of_slot unmarshal_row_def)
  have "dget (norm_row ?n) ''cycleId'' = PStr (cycle_of d)" "dget (norm_row ?n) ''employeeId'' = PStr a"
    using assms(2) by (simp_all add: dget_def dfind_norm_row row_of_def)
  then have put: "twrite_target (ws ! 1) = (ResponseTable, slot (cycle_of d) a)" "twrite_row (ws ! 1) = Some (renamed a d)"
    by (simp_all add: m(2) u key_of_slot norm_row_idem renamed_def)
  have "ws = [hd ws, ws ! 1]" by (simp add: m(2))
  then have "apply_twrites ws R = apply_twrite (ws ! 1) (apply_twrite (hd ws) R)"
    by (metis apply_twrites_Cons apply_twrites_Nil)
  then show ?thesis by (simp add: apply_twrite_def del put move_row_def Let_def del: One_nat_def)
qed

lemma items_effect:
  assumes "build_anonymize_transact_items rows a = Inr ws" and "list_all (row_of e) rows"
  shows "apply_twrites ws R = fold (move_row e a) rows R"
proof -
  obtain pairs where p: "map_res (anonymize_pair a) rows = Inr pairs" "ws = concat pairs"
    using assms(1) by (auto simp: build_anonymize_transact_items_def bind_res_eq_Inr)
  have "apply_twrites (concat pairs) R = fold (move_row e a) rows R"
    using p(1) assms(2)
    by (induction rows arbitrary: pairs R) (auto simp: bind_res_eq_Inr apply_twrites_append pair_effect)
  then show ?thesis by (simp add: p(2))
qed

section \<open>All of them\<close>

lemma set_nonempty_strs: "c \<in> set (map str_of (filter nonempty_str vs)) \<longleftrightarrow> c \<noteq> [] \<and> PStr c \<in> set vs"
  by (induction vs) (auto simp: nonempty_str_iff)

context dynamodb_transact begin

lemma run_rewrite_chunk:
  assumes "run W (rewrite_chunk a rows) s = (Inr u, s')" and "list_all (row_of e) rows"
  shows "row s' = fold (move_row e a) rows (row s)"
proof -
  obtain ws v where b: "build_anonymize_transact_items rows a = Inr ws"
    and t: "answer W s (TransactWrite ws) = (Inr v, s')"
    using assms(1) by (cases "build_anonymize_transact_items rows a")
      (auto simp: rewrite_chunk_def run_bindP run_aws split: prod.splits sum.splits)
  show ?thesis using transact [OF t] items_effect [OF b assms(2)] by simp
qed

lemma run_rewrite_chunks:
  assumes "run W (for_each (rewrite_chunk a) cs) s = (Inr u, s')" and "list_all (row_of e) (concat cs)"
  shows "row s' = fold (move_row e a) (concat cs) (row s)"
  using assms
proof (induction cs arbitrary: s)
  case (Cons c cs)
  obtain s1 where c: "run W (rewrite_chunk a c) s = (Inr (), s1)" and r: "run W (for_each (rewrite_chunk a) cs) s1 = (Inr u, s')"
    using Cons.prems(1) by (auto simp: run_bindP split: prod.splits sum.splits)
  show ?case using run_rewrite_chunk [OF c, of e] Cons.IH [OF r] Cons.prems(2) by simp
qed simp

lemma run_cycle_ids:
  assumes "run W (list_all_cycle_ids fuel) s = (Inr cs, s')"
  shows "set cs = {c. c \<noteq> [] \<and> (\<exists>k d. row s CycleTable k = Some d \<and> dget d ''cycleId'' = PStr c)}" "row s' = row s"
proof -
  obtain items where p: "run W (pages is_none fuel (Scan CycleTable) PNone) s = (Inr items, s')"
    "cs = map str_of (filter nonempty_str (map (\<lambda>it. dget it ''cycleId'') items))"
    using assms by (auto simp: list_all_cycle_ids_def run_bindP split: prod.splits sum.splits)
  show "set cs = {c. c \<noteq> [] \<and> (\<exists>k d. row s CycleTable k = Some d \<and> dget d ''cycleId'' = PStr c)}"
  proof -
    have "PStr c \<in> set (map (\<lambda>it. dget it ''cycleId'') items) \<longleftrightarrow>
        (\<exists>k d. row s CycleTable k = Some d \<and> dget d ''cycleId'' = PStr c)" for c
      using scan_complete [OF p(1)] by (force simp: image_iff)
    then show ?thesis unfolding p(2) by (simp add: set_eq_iff set_nonempty_strs del: set_map)
  qed
  show "row s' = row s" by (rule run_readonly [OF pages_calls p(1)]) (simp add: readonly_def)
qed

end

definition found_rows :: "db_rows \<Rightarrow> pystr \<Rightarrow> pystr \<Rightarrow> pydict list" where
  "found_rows R e c = (case R ResponseTable (slot c e) of None \<Rightarrow> [] | Some d \<Rightarrow> [d])"

lemma set_found_rows: "set (found_rows R e c) = {d. R ResponseTable (slot c e) = Some d}"
  by (auto simp: found_rows_def split: option.split)

lemma slot_eq [simp]: "slot c e = slot c' e' \<longleftrightarrow> c = c' \<and> e = e'"
  by (simp add: slot_def)

lemma response_key_slot: "key_of ResponseTable (response_key c e) = slot c e"
  by (simp add: key_of_slot response_key_def)

text \<open>What a list of moves leaves in every place, when the row moved is determined by its cycle.\<close>

lemma fold_moves:
  assumes "\<And>d. d \<in> set ds \<Longrightarrow> d = g (cycle_of d)" and "e \<noteq> a"
  shows "fold (move_row e a) ds R t k =
    (if t = ResponseTable \<and> k \<in> (\<lambda>d. slot (cycle_of d) e) ` set ds then None
     else if t = ResponseTable \<and> k \<in> (\<lambda>d. slot (cycle_of d) a) ` set ds then Some (renamed a (g (str_of (hd k))))
     else R t k)"
  using assms(1)
proof (induction ds arbitrary: R)
  case (Cons d ds)
  have d: "g (cycle_of d) = d" using Cons.prems [of d] by simp
  have "move_row e a d R t k = (if t = ResponseTable \<and> k = slot (cycle_of d) a then Some (renamed a d)
      else if t = ResponseTable \<and> k = slot (cycle_of d) e then None else R t k)"
    using assms(2) by (auto simp: move_row_def)
  moreover have "str_of (hd (slot (cycle_of d) a)) = cycle_of d" by (simp add: slot_def)
  ultimately show ?case using Cons.IH [of "move_row e a d R"] Cons.prems d assms(2) by auto
qed simp

context dynamodb_transact begin

lemma run_queries:
  "run W (mapP (\<lambda>cid. query_responses_for_employee cid e) cs) s = (Inr found, s') \<Longrightarrow>
     found = map (found_rows (row s) e) cs \<and> row s' = row s"
proof (induction cs arbitrary: s found)
  case (Cons c cs)
  obtain rows s1 more where q: "run W (query_responses_for_employee c e) s = (Inr rows, s1)"
    and m: "run W (mapP (\<lambda>cid. query_responses_for_employee cid e) cs) s1 = (Inr more, s')" "found = rows # more"
    using Cons.prems by (auto simp: run_bindP split: prod.splits sum.splits)
  obtain v where v: "answer W s (QueryKeys ResponseTable (response_key c e)) = (Inr v, s1)" "rows = page_items v"
    using q by (auto simp: query_responses_for_employee_def run_bindP run_aws split: prod.splits sum.splits)
  have "rows = found_rows (row s) e c"
    using query_keys [OF v(1)] v(2) by (simp add: found_rows_def response_key_slot)
  moreover have "row s1 = row s" using frame [of "QueryKeys ResponseTable (response_key c e)" s] v(1) by simp
  ultimately show ?case using Cons.IH [OF m(1)] m(2) by simp
qed simp

lemma run_anonymize_rows:
  assumes "run W (anonymize_rows fuel e a) s = (Inr n, s')" and "e \<noteq> a"
    and keyed: "\<And>k d. row s ResponseTable k = Some d \<Longrightarrow> key_of ResponseTable d = k"
    and C: "C = {c. c \<noteq> [] \<and> (\<exists>k d. row s CycleTable k = Some d \<and> dget d ''cycleId'' = PStr c)}"
  shows "row s' t k =
    (if t = ResponseTable \<and> k \<in> {slot c e |c. c \<in> C} then None
     else if t = ResponseTable \<and> k \<in> {slot c a |c. c \<in> C \<and> row s ResponseTable (slot c e) \<noteq> None}
       then Some (renamed a (the (row s ResponseTable (slot (str_of (hd k)) e))))
     else row s t k)"
proof -
  obtain cs s1 found s2 where cs: "run W (list_all_cycle_ids fuel) s = (Inr cs, s1)"
    and f: "run W (mapP (\<lambda>cid. query_responses_for_employee cid e) cs) s1 = (Inr found, s2)"
    and w: "run W (for_each (rewrite_chunk a) (chunks anonymize_rows_per_batch (concat found))) s2 = (Inr (), s')"
    using assms(1) by (auto simp: anonymize_rows_def run_bindP Let_def split: prod.splits sum.splits)
  have r2: "row s2 = row s" and found: "found = map (found_rows (row s) e) cs" and cs': "set cs = C"
    using run_cycle_ids [OF cs] run_queries [OF f] C by auto
  have at: "d \<in> set (concat found) \<longleftrightarrow> (\<exists>c \<in> C. row s ResponseTable (slot c e) = Some d)" for d
    by (simp add: found cs' set_found_rows)
  have own: "row_of e d \<and> cycle_of d = c" if "row s ResponseTable (slot c e) = Some d" for c d
  proof -
    have "dget d ''cycleId'' = PStr c" "dget d ''employeeId'' = PStr e"
      using keyed [OF that] by (simp_all add: key_of_slot)
    then show ?thesis by (auto simp: row_of_def cycle_of_def dget_def split: option.splits)
  qed
  define g where "g = (\<lambda>c. the (row s ResponseTable (slot c e)))"
  have g: "d = g (cycle_of d)" if "d \<in> set (concat found)" for d
    using that own at [of d] by (auto simp: g_def)
  have "list_all (row_of e) (concat found)" using at own by (auto simp: list_all_iff)
  then have "row s' = fold (move_row e a) (concat found) (row s)"
    using run_rewrite_chunks [OF w, of e] by (simp add: concat_chunks r2)
  then have "row s' t k = (if t = ResponseTable \<and> k \<in> (\<lambda>d. slot (cycle_of d) e) ` set (concat found) then None
     else if t = ResponseTable \<and> k \<in> (\<lambda>d. slot (cycle_of d) a) ` set (concat found) then Some (renamed a (g (str_of (hd k))))
     else row s t k)"
    using fold_moves [of "concat found" g e a "row s" t k] g assms(2) by simp
  moreover have im: "(\<lambda>d. slot (cycle_of d) x) ` set (concat found) =
      {slot c x |c. c \<in> C \<and> row s ResponseTable (slot c e) \<noteq> None}" for x
    using at own by (auto simp: image_iff) blast+
  ultimately show ?thesis by (auto simp: im g_def)
qed

end

section \<open>The route\<close>

lemma run_anonymize_employee:
  assumes "dynamodb_transact W row" and "run W (anonymize_employee env created fuel pp event who) s = (Inr h, s')"
    and "status_code h = 200" and "path_id pp = Inr e"
  obtains a n s1 s2 where "anonymize_employee_id (PStr e) (PStr (anonymize_salt env)) = Inr a" "row s1 = row s"
    "run W (anonymize_rows fuel e a) s1 = (Inr n, s2)" "row s' = row s2"
proof -
  have W: "dynamodb W row" using assms(1) by (simp add: dynamodb_transact_def dynamodb_scan_def)
  obtain s1 where g: "run W (get_employee e) s = (Inr (stored (row s EmployeeTable [PStr e])), s1)" "row s1 = row s"
    using dynamodb.run_get_employee [OF W] by blast
  obtain a n s2 c' where a: "anonymize_employee_id (PStr e) (PStr (anonymize_salt env)) = Inr a"
      "run W (anonymize_rows fuel e a) s1 = (Inr n, s2)"
      "run W (write_audit_log env created (str ''EMPLOYEE_ANONYMIZE'') who e (str ''SUCCESS'') None None
        (Some [(str ''responseCountUpdated'', PInt (int n)), (str ''anonymizedIdPrefix'', PStr (str anonymized_id_prefix))])) s2 =
        (Inr c', s')"
    using assms(2-4)
    by (cases "claims_of event"; cases "anonymize_employee_id (PStr e) (PStr (anonymize_salt env))")
      (auto simp: anonymize_employee_def run_bindP g(1) response_def split: if_splits prod.splits sum.splits)
  have "row s' = row s2" by (rule dynamodb.run_readonly [OF W readonly_audit a(3)])
  with a g(2) show thesis by (intro that)
qed


text \<open>One cycle in which the deleted employee \<open>u-1\<close> answered.\<close>

definition answered_row :: pydict where
  "answered_row = [(str ''cycleId'', PStr (str ''c'')), (str ''employeeId'', PStr (str ''u-1'')),
     (str ''voiceStatus'', PStr (str ''SAFE''))]"

definition answered_store :: store where
  "answered_store = \<lparr>st_rows =
     [((EmployeeTable, [PStr (str ''u-1'')]), [(str ''employeeId'', PStr (str ''u-1'')), (str ''deleted'', PBool True)]),
      ((CycleTable, [PStr (str ''c'')]), [(str ''cycleId'', PStr (str ''c''))]),
      ((ResponseTable, slot (str ''c'') (str ''u-1'')), answered_row)], st_clock = 0, st_log = []\<rparr>"

lemma answered_rows: "store_row answered_store ResponseTable k =
    (if k = slot (str ''c'') (str ''u-1'') then Some answered_row else None)"
  by (simp add: store_row_def answered_store_def)

lemma answered_run:
  assumes "a \<noteq> str ''u-1''"
  shows "\<exists>s'. run store_ops (anonymize_rows 1 (str ''u-1'') a) answered_store = (Inr 1, s')"
proof -
  have c: "run store_ops (list_all_cycle_ids 1) answered_store = (Inr [str ''c''], answered_store)"
    by (simp add: list_all_cycle_ids_def run_bindP store_scan table_rows_def answered_store_def del: pages.simps)
  have q: "run store_ops (query_responses_for_employee (str ''c'') (str ''u-1'')) answered_store =
      (Inr [answered_row], answered_store)"
    by (simp add: query_responses_for_employee_def run_bindP run_aws store_ops_def response_key_slot answered_rows)
  obtain ws where ws: "anonymize_pair a answered_row = Inr ws"
    by (simp add: anonymize_pair_def answered_row_def dindex_def)
  have "row_of (str ''u-1'') answered_row" by (simp add: row_of_def cycle_of_def answered_row_def dget_def)
  from pair_effect [OF ws this]
  have ts: "map twrite_target ws = [(ResponseTable, slot (str ''c'') (str ''u-1'')), (ResponseTable, slot (str ''c'') a)]"
    using ws by (auto simp: anonymize_pair_def answered_row_def dindex_def key_of_slot unmarshal_row_def)
  then have "distinct (map twrite_target ws)" using assms by auto
  moreover have "length ws = 2" by (rule length_anonymize_pair [OF ws])
  ultimately have t: "\<exists>s'. run store_ops (aws (TransactWrite ws)) answered_store = (Inr (PDict []), s')"
    by (simp add: run_aws store_ops_def)
  then show ?thesis
    by (auto simp: anonymize_rows_def run_bindP c q Let_def anonymize_rows_per_batch_def transact_max_items_def
        rewrite_chunk_def build_anonymize_transact_items_def ws simp del: One_nat_def)
qed

definition u_path :: pyval where
  "u_path = PDict [(str ''id'', PStr (str ''u-1''))]"

lemma u_path_id: "path_id u_path = Inr (str ''u-1'')"
  by (simp add: path_id_def u_path_def vget_or_def)

lemma answered_pseudonym:
  "\<exists>a. anonymize_employee_id (PStr (str ''u-1'')) (PStr (anonymize_salt sample_employee_env)) = Inr a"
proof -
  have "utf8_encode (str ''salt'' @ [58] @ str ''u-1'') = Some (map of_nat (str ''salt'' @ [58] @ str ''u-1''))"
    by (rule utf8_ascii) (simp add: str_def)
  then show ?thesis by (simp add: anonymize_employee_id_def sample_employee_env_def)
qed

lemma answered_anonymized:
  "\<exists>h s'. run store_ops (anonymize_employee sample_employee_env [] 1 u_path administrator_event (PStr [])) answered_store =
     (Inr h, s') \<and> status_code h = 200"
proof -
  have g: "run store_ops (get_employee (str ''u-1'')) answered_store =
      (Inr (PDict [(str ''employeeId'', PStr (str ''u-1'')), (str ''deleted'', PBool True)]), answered_store)"
    by (simp add: get_employee_def run_bindP run_store_get store_row_def answered_store_def)
  obtain a where a: "anonymize_employee_id (PStr (str ''u-1'')) (PStr (anonymize_salt sample_employee_env)) = Inr a"
    using answered_pseudonym by blast
  have "a \<noteq> str ''u-1''" using anonymized_form(1) [OF a] by (auto simp: length_str)
  then obtain s2 where r: "run store_ops (anonymize_rows 1 (str ''u-1'') a) answered_store = (Inr 1, s2)"
    using answered_run by blast
  have "\<exists>c' s'. run store_ops (write_audit_log sample_employee_env [] ev who tgt oc None ph ex) s2 = (Inr c', s')"
    for ev who tgt oc ph ex
    by (rule run_store_audit) (simp add: sample_employee_env_def)
  then obtain c' s3 where w: "run store_ops (write_audit_log sample_employee_env [] (str ''EMPLOYEE_ANONYMIZE'') (PStr [])
      (str ''u-1'') (str ''SUCCESS'') None None (Some [(str ''responseCountUpdated'', PInt (int 1)),
        (str ''anonymizedIdPrefix'', PStr (str anonymized_id_prefix))])) s2 = (Inr c', s3)" by blast
  have s: "anonymize_salt sample_employee_env \<noteq> []" by (simp add: sample_employee_env_def)
  have c: "claims_of administrator_event =
      Inr (PDict [(str ''cognito:groups'', PList [PStr (str ''Administrator'')])])"
    by (simp add: claims_of_def administrator_event_def vget_or_def)
  have "is_authorized (PDict [(str ''cognito:groups'', PList [PStr (str ''Administrator'')])]) (PStr administrator_group)"
    by (simp add: is_authorized_def administrator_group_def)
  then show ?thesis
    by (simp add: anonymize_employee_def run_bindP s c u_path_id g row_deleted_def a r w anonymize_answer_def
        response_def del: One_nat_def of_nat_1)
qed


end
