(* ===== verification/Employee_Flow.thy ===== *)
theory Employee_Flow
  imports Anonymize_Facts
begin

text \<open>
  From the form to the call: what the rest of the system gets of an employee that \<open>employee_api\<close> created.
\<close>

lemma envelope_hd: "\<exists>t. b64encode (to_bytes (envelope_json iv ct)) = 101 # t"
  by (simp add: envelope_json_def to_bytes_def str_def b64_char_def)

lemma run_encrypt_rows:
  assumes "dynamodb W row" and "run W (emp_encrypt env v) s = (Inr x, s')"
  shows "row s' = row s" "encryption_enabled env \<Longrightarrow> v \<noteq> [] \<Longrightarrow> \<exists>t. x = 101 # t" "v = [] \<Longrightarrow> x = []" "\<not> encryption_enabled env \<Longrightarrow> x = v"
proof -
  have "all_calls readonly (emp_encrypt env v)"
    by (auto simp: emp_encrypt_def encrypt_field_def intro!: all_calls_bindP split: option.split)
  then show "row s' = row s" using dynamodb.run_readonly [OF assms(1)] assms(2) by blast
  show "\<exists>t. x = 101 # t" if "encryption_enabled env" "v \<noteq> []"
    using assms(2) that
    by (cases "emp_data_key env") (auto simp: emp_encrypt_def encrypt_field_def run_bindP envelope_hd split: option.splits prod.splits)
qed (use assms(2) in \<open>auto simp: emp_encrypt_def\<close>)

lemma readonly_create_steps:
  "all_calls readonly emp_now_iso" "all_calls readonly (emp_encrypt env v)"
  "all_calls readonly (phone_already_registered env ph)" "all_calls readonly (register_admin env adm em nm)"
  "all_calls readonly (emp_audit env' created ev who tgt phone)"
  "all_calls readonly (audit_created_admin env created who eid adm sub)"
  by (auto simp: emp_steps register_admin_def create_cognito_admin_def audit_created_admin_def readonly_audit
      readonly_def [of "Query _ _ _ _ _ _ _"] readonly_def [of "ScanEq _ _"] readonly_def [of "AdminCreateUser _"]
      readonly_def [of "AdminAddUserToGroup _"] intro!: all_calls_bindP all_calls_catchP split: option.split)

text \<open>The stored form of a text field, and the row of a new employee.\<close>

definition field_form :: "'a employee_env_scheme \<Rightarrow> pystr \<Rightarrow> pystr \<Rightarrow> bool" where
  "field_form env v x \<longleftrightarrow> (if encryption_enabled env \<and> v \<noteq> [] then \<exists>t. x = 101 # t else x = v)"

definition new_row :: "'a employee_env_scheme \<Rightarrow> pystr \<Rightarrow> pystr \<Rightarrow> pydict \<Rightarrow> bool" where
  "new_row env eid phone d \<longleftrightarrow> dget d ''employeeId'' = PStr eid \<and> dget d ''deleted'' = PBool False \<and>
     (\<exists>p. dget d ''phoneNumber'' = PStr p \<and> field_form env phone p)"

lemma run_employee_item:
  assumes "dynamodb W row" and "run W (employee_item env eid name phone adm now sub) s = (Inr item, s')"
  shows "new_row env eid phone (norm_row item)" "row s' = row s" "key_of EmployeeTable item = [PStr eid]"
proof -
  obtain n s1 p s2 b where e: "run W (emp_encrypt env name) s = (Inr n, s1)" "run W (emp_encrypt env phone) s1 = (Inr p, s2)"
    "emp_blind_index env phone = Inr b" "s' = s2"
    and item: "item = [(str ''employeeId'', PStr eid), (str ''name'', PStr n), (str ''phoneNumber'', PStr p),
         (str ''phoneNumberBlindIndex'', PStr b),
         (str ''role'', PStr (str (if adm then ''admin'' else ''employee''))),
         (str ''deleted'', PBool False), (str ''createdAt'', PStr now), (str ''updatedAt'', PStr now)] @
         (if sub \<noteq> [] then [(str ''cognitoSub'', PStr sub)] else [])"
    using assms(2) by (cases "emp_blind_index env phone")
      (auto simp: employee_item_def elim!: run_bindP_InrE)
  have "field_form env phone p"
    using run_encrypt_rows [OF assms(1) e(2)] by (auto simp: field_form_def)
  then show "new_row env eid phone (norm_row item)"
    by (simp add: new_row_def item norm_row_def)
  show "row s' = row s" using run_encrypt_rows(1) [OF assms(1) e(1)] run_encrypt_rows(1) [OF assms(1) e(2)] e(4) by simp
  show "key_of EmployeeTable item = [PStr eid]" by (simp add: item key_of_def)
qed

lemma run_insert_employee:
  assumes "dynamodb W row" and "run W (insert_employee env created eid name phone adm sub who) s = (Inr h, s1)"
  shows "\<exists>d. new_row env eid phone d \<and>
     row s1 = (row s)(EmployeeTable := (row s EmployeeTable)([PStr eid] := Some d)) \<and>
     h = response env 201 (Json (PDict [(str ''employeeId'', PStr eid), (str ''name'', PStr name),
       (str ''phoneNumber'', PStr phone), (str ''isAdmin'', PBool adm)]))"
proof -
  obtain now s2 item s3 v s4 cr s5 cr' s6 where n: "run W emp_now_iso s = (Inr now, s2)"
    and i: "run W (employee_item env eid name phone adm now sub) s2 = (Inr item, s3)"
    and p: "run W (aws (PutItem EmployeeTable item NoCond)) s3 = (Inr v, s4)"
    and a: "run W (emp_audit env created ''EMPLOYEE_ADD'' who eid (Some phone)) s4 = (Inr cr, s5)"
    and c: "run W (audit_created_admin env cr who eid adm sub) s5 = (Inr cr', s6)"
    and f: "run W (ret (response env 201 (Json (PDict [(str ''employeeId'', PStr eid), (str ''name'', PStr name),
         (str ''phoneNumber'', PStr phone), (str ''isAdmin'', PBool adm)])))) s6 = (Inr h, s1)"
    using assms(2) unfolding insert_employee_def by (elim run_bindP_InrE)
  note I = run_employee_item [OF assms(1) i]
  have "row s4 = (row s3)(EmployeeTable := (row s3 EmployeeTable)([PStr eid] := Some (norm_row item)))"
    using dynamodb.run_put_row [OF assms(1) p] I(3) by simp
  moreover have "row s2 = row s" "row s5 = row s4"
    using dynamodb.run_readonly [OF assms(1) readonly_create_steps(1) n]
      dynamodb.run_readonly [OF assms(1) readonly_create_steps(5) a] by auto
  moreover have "row s1 = row s5"
    using f dynamodb.run_readonly [OF assms(1) readonly_create_steps(6) c] by simp
  ultimately show ?thesis using I(1,2) f by auto
qed

lemma normalized_phone:
  assumes "check_phone v"
  shows "is_valid_e164 (PStr (domestic_to_e164 (str_of v)))"
proof (cases "match_domestic (str_of v)")
  case True
  then show ?thesis by (simp add: is_valid_e164_def e164_of_domestic)
next
  case False
  then show ?thesis using assms
    by (auto simp: check_phone_def is_valid_domestic_jp_def is_valid_e164_def domestic_to_e164_def split: if_splits)
qed

lemma run_create_employee:
  assumes "dynamodb W row" and "run W (create_employee env created body who) s = (Inr h, s1)" and "status_code h = 201"
  obtains eid phone d where "new_row env eid phone d" "is_valid_e164 (PStr phone)"
    "phone = domestic_to_e164 (str_of (dget body ''phoneNumber''))"
    "row s1 = (row s)(EmployeeTable := (row s EmployeeTable)([PStr eid] := Some d))"
    "dget (items_of (case http_body h of Json v \<Rightarrow> v | ErrorText \<Rightarrow> PNone)) ''employeeId'' = PStr eid"
proof -
  let ?phone = "domestic_to_e164 (str_of (dget body ''phoneNumber''))"
  let ?adm = "truthy (dget_or body ''isAdmin'' (PBool False))"
  have c: "check_new_employee (dget body ''name'') (dget body ''phoneNumber'') ?adm (dget body ''adminEmail'') = Inr ()"
    using assms(2) by (cases "check_new_employee (dget body ''name'') (dget body ''phoneNumber'') ?adm (dget body ''adminEmail'')")
      (auto simp: create_employee_def Let_def)
  then have v: "is_valid_e164 (PStr ?phone)" by (intro normalized_phone) (simp add: check_new_employee_def split: if_splits)
  obtain s2 where p: "run W (phone_already_registered env ?phone) s = (Inr False, s2)"
    and r: "run W (Env Uuid4 (\<lambda>u.
         bindP (register_admin env ?adm (str_of (dget body ''adminEmail'')) (str_of (dget body ''name''))) (\<lambda>sub.
         case sub of
           None \<Rightarrow> ret (response env 409 ErrorText)
         | Some cognito_sub \<Rightarrow>
             insert_employee env created (uuid4_str u) (str_of (dget body ''name'')) ?phone ?adm cognito_sub who))) s2 = (Inr h, s1)"
    using assms(2,3) c
    by (auto simp: create_employee_def Let_def run_bindP response_def split: prod.splits sum.splits if_splits)
  obtain u s3 where u: "reading W s2 Uuid4 = (u, s3)" by force
  obtain sub s4 where a: "run W (register_admin env ?adm (str_of (dget body ''adminEmail'')) (str_of (dget body ''name''))) s3 = (Inr sub, s4)"
    and i: "run W (case sub of
           None \<Rightarrow> ret (response env 409 ErrorText)
         | Some cognito_sub \<Rightarrow>
             insert_employee env created (uuid4_str u) (str_of (dget body ''name'')) ?phone ?adm cognito_sub who) s4 = (Inr h, s1)"
    using r u by (auto simp: run_bindP split: prod.splits sum.splits)
  have "row s4 = row s"
    using dynamodb.run_readonly [OF assms(1) readonly_create_steps(3) p]
      dynamodb.run_readonly [OF assms(1) readonly_create_steps(4) a] dynamodb.frame_reading [OF assms(1), of s2 Uuid4] u by simp
  moreover obtain cs where "sub = Some cs" using i assms(3) by (cases sub) (auto simp: response_def)
  ultimately show thesis
    using run_insert_employee [OF assms(1), of env created "uuid4_str u" "str_of (dget body ''name'')" ?phone ?adm cs who s4 h s1] i
    by (auto simp: response_def intro!: that [OF _ v refl])
qed

section \<open>Properties\<close>


definition encrypting_env :: employee_env where
  "encrypting_env = sample_employee_env\<lparr>encryption_enabled := True, emp_hmac_key := b64encode [1, 2, 3]\<rparr>"

definition sato_body :: pydict where
  "sato_body = [(str ''name'', PStr (str ''Sato'')), (str ''phoneNumber'', PStr (str ''0312345678''))]"

definition no_employees :: store where
  "no_employees = \<lparr>st_rows = [], st_clock = 0, st_log = []\<rparr>"

lemma run_store_encrypt:
  assumes "list_all (\<lambda>c. c < 128) v" and "v \<noteq> []"
  obtains p where "\<And>s. run store_ops (emp_encrypt encrypting_env v) s = (Inr p, s)" "p \<noteq> []"
proof -
  let ?p = "b64encode (to_bytes (envelope_json (nonce_of 0) (map of_nat v)))"
  have "run store_ops (emp_encrypt encrypting_env v) s = (Inr ?p, s)" for s
    using assms utf8_ascii [of v]
    by (simp add: emp_encrypt_def encrypt_field_def encrypting_env_def sample_employee_env_def plain_cipher_def store_ops_def)
  moreover have "?p \<noteq> []" using envelope_hd [of "nonce_of 0" "map of_nat v"] by auto
  ultimately show thesis by (rule that)
qed

lemma blind_index_ascii:
  "list_all (\<lambda>c. c < 128) v \<Longrightarrow> v \<noteq> [] \<Longrightarrow> \<exists>b. compute_blind_index (emp_hmac_key encrypting_env) v = Inr b"
  using utf8_ascii [of v]
  by (simp add: compute_blind_index_def get_hmac_key_def encrypting_env_def b64_roundtrip del: b64encode.simps)

lemma sato_created:
  obtains h s1 item where "run store_ops (create_employee encrypting_env [] sato_body (PStr [])) no_employees = (Inr h, s1)"
    "status_code h = 201" "table_rows s1 EmployeeTable = [norm_row item]" "is_visible (PDict (norm_row item))"
    "has_key item ''employeeId''" "has_key item ''name''" "has_key item ''phoneNumber''"
proof -
  let ?e = encrypting_env and ?ph = "str ''+81312345678''"
  have name: "is_valid_name (PStr (str ''Sato''))"
    by (simp add: is_valid_name_def max_name_length_def str_def py_strip_def lstrip_def is_space_def spaces_def)
  have d: "match_domestic (str ''0312345678'')"
    by (rule domestic_facts) (simp add: domestic_def str_def is_ascii_digit_def)
  then have ph: "domestic_to_e164 (str ''0312345678'') = ?ph" by (simp add: domestic_to_e164_def str_def)
  have asc: "list_all (\<lambda>c. c < 128) (str ''Sato'')" "list_all (\<lambda>c. c < 128) ?ph" by (simp_all add: str_def)
  obtain b where b: "compute_blind_index (emp_hmac_key ?e) ?ph = Inr b"
    using blind_index_ascii [OF asc(2)] by auto
  obtain n where n: "\<And>s. run store_ops (emp_encrypt ?e (str ''Sato'')) s = (Inr n, s)" "n \<noteq> []"
    using run_store_encrypt [OF asc(1)] by auto
  obtain p where p: "\<And>s. run store_ops (emp_encrypt ?e ?ph) s = (Inr p, s)" "p \<noteq> []"
    using run_store_encrypt [OF asc(2)] by auto
  have en: "encryption_enabled ?e" by (simp add: encrypting_env_def)
  let ?item = "[(str ''employeeId'', PStr (uuid4_str 0)), (str ''name'', PStr n), (str ''phoneNumber'', PStr p),
    (str ''phoneNumberBlindIndex'', PStr b), (str ''role'', PStr (str ''employee'')), (str ''deleted'', PBool False),
    (str ''createdAt'', PStr (iso_z_seconds 0)), (str ''updatedAt'', PStr (iso_z_seconds 0))]"
  have reg: "run store_ops (phone_already_registered ?e ?ph) no_employees = (Inr False, no_employees)"
    by (simp add: phone_already_registered_def en b run_bindP run_aws store_ops_def table_rows_def no_employees_def)
  have now: "run store_ops emp_now_iso no_employees = (Inr (iso_z_seconds 0), no_employees)"
    by (simp add: emp_now_iso_def run_bindP run_store_now no_employees_def)
  have it: "run store_ops (employee_item ?e (uuid4_str 0) (str ''Sato'') ?ph False (iso_z_seconds 0) []) no_employees =
      (Inr ?item, no_employees)"
    by (simp add: employee_item_def run_bindP n p emp_blind_index_def en b)
  let ?s = "no_employees\<lparr>st_rows := [((EmployeeTable, [PStr (uuid4_str 0)]), norm_row ?item)]\<rparr>"
  have put: "run store_ops (aws (PutItem EmployeeTable ?item NoCond)) no_employees = (Inr (PDict []), ?s)"
    by (simp add: run_store_write key_of_def put_row_def no_employees_def)
  have "\<exists>c s'. run store_ops (emp_audit ?e [] ev who tgt phone) ?s = (Inr c, s') \<and> st_rows s' = st_rows ?s"
    for ev who tgt phone
    by (simp add: emp_audit_def write_audit_log_def encrypting_env_def sample_employee_env_def audit_now_iso_def stream_name_def
        today_yyyymmdd_def ensure_log_stream_def now_epoch_ms_def run_simps store_ops_def Let_def)
  then obtain c s1 where au: "run store_ops (emp_audit ?e [] ''EMPLOYEE_ADD'' (PStr []) (uuid4_str 0) (Some ?ph)) ?s = (Inr c, s1)"
    "st_rows s1 = st_rows ?s" by blast
  have ins: "run store_ops (insert_employee ?e [] (uuid4_str 0) (str ''Sato'') ?ph False [] (PStr [])) no_employees =
      (Inr (response ?e 201 (Json (PDict [(str ''employeeId'', PStr (uuid4_str 0)), (str ''name'', PStr (str ''Sato'')),
        (str ''phoneNumber'', PStr ?ph), (str ''isAdmin'', PBool False)]))), s1)"
    by (simp add: insert_employee_def run_bindP now it put au audit_created_admin_def)
  have "reading store_ops no_employees Uuid4 = (0, no_employees)" by (simp add: store_ops_def)
  then have "run store_ops (create_employee ?e [] sato_body (PStr [])) no_employees =
      (Inr (response ?e 201 (Json (PDict [(str ''employeeId'', PStr (uuid4_str 0)), (str ''name'', PStr (str ''Sato'')),
        (str ''phoneNumber'', PStr ?ph), (str ''isAdmin'', PBool False)]))), s1)"
    by (simp add: create_employee_def sato_body_def check_new_employee_def name check_phone_def is_valid_domestic_jp_def d
        ph run_bindP reg register_admin_def ins Let_def)
  moreover have "table_rows s1 EmployeeTable = [norm_row ?item]" by (simp add: table_rows_def au(2))
  moreover have "is_visible (PDict (norm_row ?item))" using p(2) by (simp add: is_visible_def norm_row_def)
  moreover have "status_code (response ?e 201 body) = 201" for body by (simp add: response_def)
  ultimately show thesis by (intro that [where item = ?item]) (simp_all add: has_key_def)
qed


end
