(* ===== verification/Import_Facts.thy ===== *)
theory Import_Facts
  imports Employee_Flow
begin

text \<open>
  The import of a CSV file: what \<open>POST /employees/import\<close> writes for each answer it gives, whatever the
  services answer. Fields are not encrypted here, so that a stored name or number is the one of the file.
\<close>

section \<open>Traces\<close>

text \<open>The items of the transactions a trace has got acknowledged.\<close>

fun transacted :: "io list \<Rightarrow> twrite list" where
  "transacted [] = []"
| "transacted (CallEv (TransactWrite ws) (Inr v) # tr) = ws @ transacted tr"
| "transacted (e # tr) = transacted tr"

lemma transacted_append [simp]: "transacted (xs @ ys) = transacted xs @ transacted ys"
  by (induction xs rule: transacted.induct) auto

lemma transacted_readonly: "list_all readonly (calls tr) \<Longrightarrow> transacted tr = []"
  by (induction tr rule: transacted.induct) (auto simp: readonly_def)

text \<open>The item that stores a row of the file.\<close>

definition row_put :: "employee_row \<Rightarrow> twrite \<Rightarrow> bool" where
  "row_put row w \<longleftrightarrow> (\<exists>item. w = TPut EmployeeTable item \<and> dget item ''name'' = typed_str (er_name row) \<and>
     dget item ''phoneNumber'' = typed_str (er_phone row) \<and> dget item ''deleted'' = PDict [(str ''BOOL'', PBool False)])"

definition refused_transaction :: "io list \<Rightarrow> bool" where
  "refused_transaction tr \<longleftrightarrow> (\<exists>ws c. CallEv (TransactWrite ws) (Inl c) \<in> set tr)"

lemma refused_simps [simp]:
  "refused_transaction (xs @ ys) \<longleftrightarrow> refused_transaction xs \<or> refused_transaction ys"
  "refused_transaction [CallEv (TransactWrite ws) (Inl c)]"
  by (auto simp: refused_transaction_def)

lemma exec_import_put:
  assumes "\<not> encryption_enabled env" and "exec (import_put env now row) tr r"
  shows "\<exists>u w. tr = [EnvEv Uuid4 u] \<and> r = Inr w \<and> row_put row w"
  using assms by (auto simp: import_put_def emp_encrypt_def emp_blind_index_def exec_Env row_put_def)

lemma exec_import_puts:
  assumes "\<not> encryption_enabled env" and "exec (mapP (import_put env now) rows) tr r"
  shows "transacted tr = [] \<and> (\<exists>ws. r = Inr ws \<and> list_all2 row_put rows ws)"
  using assms(2)
proof (induction rows arbitrary: tr r)
  case (Cons row rows)
  then show ?case by (auto simp: exec_bindP dest!: exec_import_put [OF assms(1)])
qed simp

lemma exec_insert_batch:
  assumes "\<not> encryption_enabled env" and "exec (insert_batch env now batch) tr r"
  shows "(r = Inr () \<and> list_all2 row_put batch (transacted tr)) \<or> (\<exists>c. r = Inl (ClientError c) \<and> refused_transaction tr)"
proof -
  obtain tr1 tr2 ws where "tr = tr1 @ tr2" "transacted tr1 = []" "list_all2 row_put batch ws"
    "exec (thenP (aws (TransactWrite ws)) (ret ())) tr2 r"
    using assms(2) by (auto simp: insert_batch_def exec_bindP dest!: exec_import_puts [OF assms(1)])
  then show ?thesis by (auto simp: exec_bindP exec_aws)
qed

lemma exec_try_batch:
  assumes "\<not> encryption_enabled env"
    and "exec (catchP (thenP (insert_batch env now batch) (ret False))
      (\<lambda>e. case e of ClientError c \<Rightarrow> ret True | _ \<Rightarrow> raise e)) tr r"
  shows "(r = Inr False \<and> list_all2 row_put batch (transacted tr)) \<or> (r = Inr True \<and> refused_transaction tr)"
proof -
  consider (fine) x where "exec (thenP (insert_batch env now batch) (ret False)) tr (Inr x)" "r = Inr x"
    | (failed) tr1 tr2 e where "tr = tr1 @ tr2" "exec (thenP (insert_batch env now batch) (ret False)) tr1 (Inl e)"
        "exec (case e of ClientError c \<Rightarrow> ret True | _ \<Rightarrow> raise e) tr2 r"
    using assms(2) unfolding exec_catchP by blast
  then show ?thesis
  proof cases
    case fine
    then show ?thesis by (auto simp: exec_bindP dest!: exec_insert_batch [OF assms(1)])
  next
    case failed
    then show ?thesis by (auto simp: exec_bindP dest!: exec_insert_batch [OF assms(1)])
  qed
qed

lemma exec_insert_batches:
  assumes "\<not> encryption_enabled env" and "exec (insert_batches env now batches ins) tr r"
  shows "(r = Inr (ins @ map er_phone (concat batches), False) \<and> list_all2 row_put (concat batches) (transacted tr)) \<or>
    (\<exists>ins'. r = Inr (ins', True) \<and> refused_transaction tr)"
  using assms(2)
proof (induction batches arbitrary: ins tr r)
  case (Cons batch batches)
  let ?attempt = "catchP (thenP (insert_batch env now batch) (ret False))
      (\<lambda>e. case e of ClientError c \<Rightarrow> ret True | _ \<Rightarrow> raise e)"
  have no: "\<not> exec ?attempt tr' (Inl e)" for tr' e using exec_try_batch [OF assms(1), of now batch tr' "Inl e"] by auto
  obtain tr1 tr2 failed where t: "tr = tr1 @ tr2" "exec ?attempt tr1 (Inr failed)"
    "exec (if failed then ret (ins, True) else insert_batches env now batches (ins @ map er_phone batch)) tr2 r"
    using Cons.prems no unfolding insert_batches.simps by (subst (asm) exec_bindP) blast
  note b = exec_try_batch [OF assms(1) t(2)]
  show ?case
  proof (cases failed)
    case True
    then show ?thesis using t(1,3) b by auto
  next
    case False
    then have "exec (insert_batches env now batches (ins @ map er_phone batch)) tr2 r" using t(3) by simp
    from Cons.IH [OF this] False t(1) b show ?thesis by (auto intro: list_all2_appendI)
  qed
qed simp

lemma readonly_registered: "all_calls readonly (registered_phones env rows)"
  by (induction rows) (auto simp: readonly_create_steps intro!: all_calls_bindP)

lemma exec_readonly_trace:
  "exec p tr r \<Longrightarrow> all_calls readonly p \<Longrightarrow> list_all readonly (calls tr) \<and> transacted tr = []"
  using all_calls_exec transacted_readonly by blast

lemma exec_finish_import:
  assumes "exec (finish_import env created n who (ins, failed)) tr (Inr h)"
  shows "if failed then status_code h = 500 else status_code h = 201 \<and> transacted tr = []"
proof (cases failed)
  case True
  then show ?thesis using assms by (auto simp: finish_import_def exec_bindP [of "rollback_inserted env ins"] response_def)
next
  case False
  then show ?thesis
    using assms
    by (auto simp: finish_import_def exec_bindP [of "emp_audit _ _ _ _ _ _"] response_def
        dest: exec_readonly_trace [OF _ readonly_create_steps(5)])
qed

lemma exec_store_import:
  assumes "\<not> encryption_enabled env" and "exec (store_import env created rows who) tr (Inr h)"
  shows "(status_code h = 500 \<and> refused_transaction tr) \<or> (status_code h = 201 \<and> list_all2 row_put rows (transacted tr))"
proof -
  obtain tr1 tr2 now where t: "tr = tr1 @ tr2" "exec emp_now_iso tr1 (Inr now)"
    "exec (bindP (insert_batches env now (chunks transact_max_items rows) []) (finish_import env created (length rows) who)) tr2 (Inr h)"
    using assms(2) unfolding store_import_def exec_bindP [of emp_now_iso] by blast
  obtain tr3 tr4 ins failed where i: "tr2 = tr3 @ tr4"
    "exec (insert_batches env now (chunks transact_max_items rows) []) tr3 (Inr (ins, failed))"
    "exec (finish_import env created (length rows) who (ins, failed)) tr4 (Inr h)"
    using t(3) unfolding exec_bindP [of "insert_batches _ _ _ _"] by force
  show ?thesis
    using exec_insert_batches [OF assms(1) i(2)] exec_finish_import [OF i(3)] exec_readonly_trace [OF t(2) readonly_create_steps(1)] t(1) i(1)
    by (auto simp: concat_chunks)
qed

lemma exec_import_rows:
  assumes "\<not> encryption_enabled env" and "exec (import_rows env created rows who) tr (Inr h)"
  shows "(status_code h = 409 \<and> list_all readonly (calls tr)) \<or> (status_code h = 500 \<and> refused_transaction tr) \<or>
    (status_code h = 201 \<and> list_all2 row_put rows (transacted tr))"
proof -
  obtain tr1 tr2 dups where t: "tr = tr1 @ tr2" "exec (registered_phones env rows) tr1 (Inr dups)"
    and r: "exec (if dups \<noteq> [] then
       ret (response env 409 (import_report 0 (length rows) (map duplicate_entry (sort_by str_le (remdups dups)))))
       else store_import env created rows who) tr2 (Inr h)"
    using assms(2) unfolding import_rows_def exec_bindP [of "registered_phones _ _"] by blast
  note q = exec_readonly_trace [OF t(2) readonly_registered]
  show ?thesis
  proof (cases "dups = []")
    case True
    then have "exec (store_import env created rows who) tr2 (Inr h)" using r by simp
    from exec_store_import [OF assms(1) this] show ?thesis using t(1) q by auto
  next
    case False
    then show ?thesis using t(1) r q by (auto simp: response_def)
  qed
qed

section \<open>Property\<close>


text \<open>The file with one employee, imported into an empty table.\<close>

definition sato_csv :: pydict where
  "sato_csv = [(str ''csvBase64'', PStr (b64encode (map of_nat (csv_text [13, 10]
     [(str ''name'', str ''phoneNumber''), (str ''Sato'', str ''0312345678'')]))))]"

lemma sato_parsed:
  "parse_employee_csv (map of_nat (csv_text [13, 10] [(str ''name'', str ''phoneNumber''), (str ''Sato'', str ''0312345678'')])) =
     \<lparr>pr_rows = [\<lparr>er_name = str ''Sato'', er_phone = str ''+81312345678''\<rparr>], pr_errors = []\<rparr>"
  using parse_clean_file [of "[13, 10]" "[(str ''Sato'', str ''0312345678'')]", OF _ _ _ _ _ sato_file(1,2)] sato_file(3-5)
  by (simp add: max_data_rows_def)

lemma sato_imported:
  "\<exists>h s'. run store_ops (import_csv sample_employee_env [] sato_csv (PStr [])) no_employees = (Inr h, s') \<and> status_code h = 201"
proof -
  let ?e = sample_employee_env and ?row = "\<lparr>er_name = str ''Sato'', er_phone = str ''+81312345678''\<rparr>"
  have en: "\<not> encryption_enabled ?e" by (simp add: sample_employee_env_def)
  have now: "run store_ops emp_now_iso no_employees = (Inr (iso_z_seconds 0), no_employees)"
    by (simp add: emp_now_iso_def run_bindP run_store_now no_employees_def)
  have reg: "run store_ops (phone_already_registered ?e (str ''+81312345678'')) no_employees = (Inr False, no_employees)"
    by (simp add: phone_already_registered_def en run_bindP store_query_page query_rows_def table_rows_def no_employees_def)
  obtain w where p: "run store_ops (import_put ?e (iso_z_seconds 0) ?row) no_employees = (Inr w, no_employees)"
    by (simp add: import_put_def emp_encrypt_def emp_blind_index_def en store_ops_def)
  obtain s1 where t: "run store_ops (aws (TransactWrite [w])) no_employees = (Inr (PDict []), s1)"
    by (simp add: run_aws store_ops_def)
  obtain c s2 where a: "run store_ops (emp_audit ?e [] ''EMPLOYEE_CSV_IMPORT'' (PStr [])
      (str ''<batch:'' @ int_str 1 @ str ''rows>'') None) s1 = (Inr c, s2)"
    unfolding emp_audit_def using run_store_audit [of ?e "str ''audit''"] by (fastforce simp: sample_employee_env_def)
  have ne: "b64encode (map of_nat (csv_text [13, 10] [(str ''name'', str ''phoneNumber''), (str ''Sato'', str ''0312345678'')])) \<noteq> []"
    by (simp add: csv_text_def csv_line_def)
  have "run store_ops (import_rows ?e [] [?row] (PStr [])) no_employees =
      (Inr (response ?e 201 (import_report (Suc 0) (Suc 0) [])), s2)"
    by (simp add: import_rows_def store_import_def finish_import_def run_bindP run_catchP reg now transact_max_items_def insert_batch_def p t a del: One_nat_def)
  then show ?thesis using ne
    by (simp add: import_csv_def sato_csv_def b64_roundtrip sato_parsed Let_def response_def)
qed


end
