(* ===== verification/Response_Api.thy ===== *)
theory Response_Api
  imports Employee_Api
begin

text \<open>
  The Lambda \<open>backend/lambdas/response_api/handler.py\<close>: reading the responses of a cycle and the inbound
  contacts, page by page.
\<close>

section \<open>Environment\<close>

text \<open>
  \<open>rsp_dumps\<close> is \<open>json.dumps\<close> of a key; \<open>inbound_configured\<close> tells whether \<open>INBOUND_CONTACT_TABLE_NAME\<close> is
  set; the data key is what \<open>_get_data_key\<close> gives or raises.
\<close>

record response_env = api_env +
  rsp_encryption :: bool
  rsp_cipher :: cipher
  rsp_data_key :: "bytes res"
  inbound_configured :: bool
  rsp_show :: "pyval \<Rightarrow> pystr"
  rsp_dumps :: "pyval \<Rightarrow> pystr"

definition page_size :: nat where
  "page_size = 50"

section \<open>Names and excerpts\<close>

text \<open>\<open>except Exception\<close> around the decryption returns the stored text.\<close>

definition name_of :: "'a response_env_scheme \<Rightarrow> pyval \<Rightarrow> pyval" where
  "name_of env item =
     (if item = PNone then PNone
      else
        let name = dget (items_of item) ''name'' in
        if \<not> is_str name then PNone
        else if rsp_encryption env \<and> is_encrypted (rsp_cipher env) (str_of name) then
          (case decrypt_field (rsp_cipher env) (rsp_data_key env) (str_of name) of
             Inl e \<Rightarrow> name
           | Inr s \<Rightarrow> PStr s)
        else name)"

text \<open>\<open>except ClientError: return None\<close>.\<close>

definition or_none :: "pyval prog \<Rightarrow> pyval prog" where
  "or_none p = catchP p (\<lambda>e. case e of ClientError c \<Rightarrow> ret PNone | _ \<Rightarrow> raise e)"

definition resolve_employee_name :: "'a response_env_scheme \<Rightarrow> pyval \<Rightarrow> pyval prog" where
  "resolve_employee_name env employee_id =
     (if \<not> truthy employee_id then ret PNone
      else or_none (bindP (aws (GetItem EmployeeTable [(str ''employeeId'', employee_id)])) (\<lambda>resp.
        ret (name_of env (dget (items_of resp) ''Item'')))))"

definition excerpt_of :: "pydict list \<Rightarrow> pyval" where
  "excerpt_of items = (case items of
     [] \<Rightarrow> PNone
   | it # _ \<Rightarrow> (let excerpt = dget it ''excerpt'' in if is_str excerpt then excerpt else PNone))"

definition latest_transcript_excerpt :: "pystr \<Rightarrow> pystr \<Rightarrow> pyval prog" where
  "latest_transcript_excerpt cycle_id employee_id =
     or_none (bindP (aws (QueryPrefix TranscriptMetaTable ''cycleId'' (PStr cycle_id) ''employeeIdSeq''
         (employee_id @ str ''#'') False 1)) (\<lambda>resp.
       ret (excerpt_of (page_items resp))))"

section \<open>Routes\<close>

text \<open>
  \<open>nextToken\<close> of the query parameters as the \<open>ExclusiveStartKey\<close>, \<open>PNone\<close> when none is passed; boto3
  checks the parsed token before it sends it, which is not modelled.
\<close>

definition start_key :: "(pystr \<Rightarrow> pyval option) \<Rightarrow> pyval \<Rightarrow> pyval res" where
  "start_key loads query_params =
     bind_res (vget_or query_params ''nextToken'' PNone) (\<lambda>raw.
       if nonempty_str raw then
         (case loads (str_of raw) of None \<Rightarrow> Inl ValueError | Some v \<Rightarrow> Inr v)
       else Inr PNone)"

definition next_token :: "'a response_env_scheme \<Rightarrow> pyval \<Rightarrow> pyval" where
  "next_token env resp =
     (let last_key = dget (items_of resp) ''LastEvaluatedKey'' in
      if last_key = PNone then PNone else PStr (rsp_dumps env last_key))"

definition page_answer :: "'a response_env_scheme \<Rightarrow> pyval list \<Rightarrow> pyval \<Rightarrow> http" where
  "page_answer env items resp =
     response env 200 (Json (PDict
       [(str ''items'', PList items), (str ''pageSize'', PInt (int page_size)), (str ''nextToken'', next_token env resp)]))"

definition required_param :: "pyval \<Rightarrow> string \<Rightarrow> pystr res" where
  "required_param params k =
     bind_res (vget_or params k PNone) (\<lambda>v. if \<not> nonempty_str v then Inl ValueError else Inr (str_of v))"

definition response_body :: "pydict \<Rightarrow> pyval \<Rightarrow> pyval \<Rightarrow> pyval \<Rightarrow> pyval res" where
  "response_body row employee_id name excerpt =
     bind_res (py_int_str (dget_or row ''retryCount'' (PInt 0))) (\<lambda>retry_count.
       Inr (PDict
         [(str ''cycleId'', dget row ''cycleId''), (str ''employeeId'', employee_id), (str ''employeeName'', name),
          (str ''voiceStatus'', dget row ''voiceStatus''), (str ''callResultCode'', dget row ''callResultCode''),
          (str ''retryCount'', PInt retry_count), (str ''lastCalledAt'', dget row ''lastCalledAt''),
          (str ''finalizedAt'', dget row ''finalizedAt''), (str ''transcriptExcerpt'', excerpt)]))"

definition response_entry :: "'a response_env_scheme \<Rightarrow> pystr \<Rightarrow> pydict \<Rightarrow> pyval prog" where
  "response_entry env cycle_id row =
     (let employee_id = py_str (rsp_show env) (dget_or row ''employeeId'' (PStr [])) in
      bindP (if employee_id \<noteq> [] then latest_transcript_excerpt cycle_id employee_id else ret PNone) (\<lambda>excerpt.
      bindP (resolve_employee_name env (PStr employee_id)) (\<lambda>name.
        lift (response_body row (PStr employee_id) name excerpt))))"

definition list_responses ::
  "(pystr \<Rightarrow> pyval option) \<Rightarrow> 'a response_env_scheme \<Rightarrow> pyval \<Rightarrow> pyval \<Rightarrow> http prog" where
  "list_responses loads env path_params query_params =
     bindP (lift (required_param path_params ''id'')) (\<lambda>cycle_id.
     bindP (lift (start_key loads query_params)) (\<lambda>start.
     bindP (aws (Query ResponseTable None ''cycleId'' (PStr cycle_id) True (Some page_size) start)) (\<lambda>resp.
     bindP (mapP (response_entry env cycle_id) (page_items resp)) (\<lambda>items.
       ret (page_answer env items resp)))))"

definition get_single_response :: "'a response_env_scheme \<Rightarrow> pyval \<Rightarrow> http prog" where
  "get_single_response env path_params =
     bindP (lift (required_param path_params ''id'')) (\<lambda>cycle_id.
     bindP (lift (required_param path_params ''employeeId'')) (\<lambda>employee_id.
     bindP (aws (GetItem ResponseTable (response_key cycle_id employee_id))) (\<lambda>resp.
     let item = dget (items_of resp) ''Item'' in
     if item = PNone then ret (response env 404 ErrorText)
     else
       bindP (resolve_employee_name env (PStr employee_id)) (\<lambda>name.
       bindP (lift (py_int_str (dget_or (items_of item) ''retryCount'' (PInt 0)))) (\<lambda>_.
       bindP (latest_transcript_excerpt cycle_id employee_id) (\<lambda>excerpt.
       bindP (lift (response_body (items_of item) (dget (items_of item) ''employeeId'') name excerpt)) (\<lambda>body.
         ret (response env 200 (Json body)))))))))"

text \<open>
  The rows in the order of \<open>receivedAt\<close>, latest first and stable. \<open>receivedAt\<close> is a string in every row the
  system writes; Python cannot compare a string with another type.
\<close>

definition received_at :: "pydict \<Rightarrow> pyval" where
  "received_at row = dget_or row ''receivedAt'' (PStr [])"

definition sort_received :: "pydict list \<Rightarrow> pydict list res" where
  "sort_received rows =
     (if length rows \<le> 1 \<or> list_all (\<lambda>r. is_str (received_at r)) rows
      then Inr (sort_by (\<lambda>a b. str_le (str_of (received_at b)) (str_of (received_at a))) rows)
      else Inl TypeError)"

definition contact_entry :: "'a response_env_scheme \<Rightarrow> pydict \<Rightarrow> pyval prog" where
  "contact_entry env row =
     bindP (resolve_employee_name env (dget row ''employeeId'')) (\<lambda>name.
       ret (PDict
         [(str ''contactId'', dget row ''contactId''), (str ''receivedAt'', dget row ''receivedAt''),
          (str ''callerNumberMasked'', dget_or row ''callerNumberMasked'' (PStr (str ''***''))),
          (str ''cycleId'', dget row ''cycleId''), (str ''employeeName'', name), (str ''flow'', dget row ''flow''),
          (str ''voiceStatus'', dget row ''voiceStatus''), (str ''transcriptExcerpt'', dget row ''transcriptExcerpt'')]))"

definition list_inbound_contacts ::
  "(pystr \<Rightarrow> pyval option) \<Rightarrow> 'a response_env_scheme \<Rightarrow> pyval \<Rightarrow> http prog" where
  "list_inbound_contacts loads env query_params =
     (if \<not> inbound_configured env then ret (response env 500 ErrorText)
      else
        bindP (lift (start_key loads query_params)) (\<lambda>start.
        bindP (aws (ScanLimit InboundTable page_size start)) (\<lambda>resp.
        bindP (lift (sort_received (page_items resp))) (\<lambda>rows.
        bindP (mapP (contact_entry env) rows) (\<lambda>items.
          ret (page_answer env items resp))))))"

section \<open>Entry point\<close>

definition response_route ::
  "(pystr \<Rightarrow> pyval option) \<Rightarrow> 'a response_env_scheme \<Rightarrow> pydict \<Rightarrow> http prog" where
  "response_route loads env event =
     (let path_params = or_empty (dget event ''pathParameters'');
          query_params = or_empty (dget event ''queryStringParameters'') in
      if is_route event ''GET'' ''/cycles/{id}/responses'' then list_responses loads env path_params query_params
      else if is_route event ''GET'' ''/cycles/{id}/responses/{employeeId}'' then get_single_response env path_params
      else if is_route event ''GET'' ''/inbound'' then list_inbound_contacts loads env query_params
      else ret (response env 405 ErrorText))"

definition response_lambda_handler ::
  "(pystr \<Rightarrow> pyval option) \<Rightarrow> 'a response_env_scheme \<Rightarrow> pydict \<Rightarrow> http prog" where
  "response_lambda_handler loads env event =
     catchP (response_route loads env event)
       (\<lambda>e. if e = ValueError then ret (response env 400 ErrorText) else raise e)"

section \<open>Facts\<close>

lemma readonly_or_none: "all_calls readonly p \<Longrightarrow> all_calls readonly (or_none p)"
  by (auto simp: or_none_def split: pyerr.split intro!: all_calls_catchP)

lemma readonly_read_requests:
  "readonly (GetItem t k)" "readonly (QueryPrefix t' a v b pre fwd n)" "readonly (Query t' i a v fwd l st)"
  "readonly (ScanLimit t' n st)"
  by (simp_all add: readonly_def)

lemma readonly_mapP: "(\<And>x. all_calls readonly (f x)) \<Longrightarrow> all_calls readonly (mapP f xs)"
  by (induction xs) (auto intro!: all_calls_bindP)

lemma readonly_lookups:
  "all_calls readonly (resolve_employee_name env v)" "all_calls readonly (latest_transcript_excerpt c e)"
  by (auto simp: resolve_employee_name_def latest_transcript_excerpt_def readonly_read_requests
      intro!: readonly_or_none all_calls_bindP)

lemma readonly_response_handler: "all_calls readonly (response_lambda_handler loads env event)"
  by (auto simp: response_lambda_handler_def response_route_def list_responses_def get_single_response_def
      list_inbound_contacts_def response_entry_def contact_entry_def Let_def readonly_read_requests readonly_lookups
      intro!: all_calls_catchP all_calls_bindP readonly_mapP)

lemma str_le_common: "str_le (p @ a) (p @ b) = str_le a b"
  by (induction p) auto

lemma digit_order: "m < 10 \<Longrightarrow> n < 10 \<Longrightarrow> str_le (nat_str m) (nat_str n) \<longleftrightarrow> m \<le> n"
  by (auto simp: nat_str.simps)

text \<open>The sort key of the transcript of an attempt.\<close>

definition attempt_key :: "pystr \<Rightarrow> nat \<Rightarrow> pyval" where
  "attempt_key e n = PStr (e @ str ''#'' @ nat_str n)"

lemma attempt_key_inj: "attempt_key e a = attempt_key e b \<longleftrightarrow> a = b"
  using int_str_inj [of "int a" "int b"] by (auto simp: attempt_key_def int_str_def)

lemma sorted_last:
  assumes "sorted_wrt P xs" and "x \<in> set xs" and "\<And>x. P x x"
  shows "P x (last xs)"
  using assms(1,2)
proof (induction xs)
  case (Cons y ys)
  then show ?case using assms(3) by (cases ys) auto
qed simp

section \<open>Properties\<close>


text \<open>Two attempts, each with an excerpt.\<close>

definition transcript_row :: "string \<Rightarrow> string \<Rightarrow> pydict" where
  "transcript_row k x = [(str ''cycleId'', PStr (str ''c'')), (str ''employeeIdSeq'', PStr (str k)), (str ''excerpt'', PStr (str x))]"

lemma transcript_row_facts [simp]:
  "dfind (transcript_row k x) ''cycleId'' = Some (PStr (str ''c''))" "dget (transcript_row k x) ''employeeIdSeq'' = PStr (str k)"
  "excerpt_of [transcript_row k x] = PStr (str x)"
  by (simp_all add: transcript_row_def excerpt_of_def)

definition two_transcripts :: store where
  "two_transcripts = \<lparr>st_rows =
     [((TranscriptMetaTable, [PStr (str ''c''), PStr (str ''e#0'')]), transcript_row ''e#0'' ''help''),
      ((TranscriptMetaTable, [PStr (str ''c''), PStr (str ''e#1'')]), transcript_row ''e#1'' ''safe'')],
      st_clock = 0, st_log = []\<rparr>"

lemma two_rows: "(\<exists>k. store_row two_transcripts TranscriptMetaTable k = Some d) \<longleftrightarrow>
    d \<in> {transcript_row ''e#0'' ''help'', transcript_row ''e#1'' ''safe''}"
proof -
  have "store_row two_transcripts TranscriptMetaTable k =
      (if k = [PStr (str ''c''), PStr (str ''e#0'')] then Some (transcript_row ''e#0'' ''help'')
       else if k = [PStr (str ''c''), PStr (str ''e#1'')] then Some (transcript_row ''e#1'' ''safe'') else None)" for k
    by (simp add: store_row_def two_transcripts_def)
  then show ?thesis by (auto intro: exI [of _ "[PStr (str ''c''), PStr (str ''e#0'')]"] exI [of _ "[PStr (str ''c''), PStr (str ''e#1'')]"])
qed

lemma two_attempts: "PStr (str ''e#0'') = attempt_key (str ''e'') 0" "PStr (str ''e#1'') = attempt_key (str ''e'') 1"
  by (simp_all add: attempt_key_def nat_str.simps str_def)


end
