(* ===== verification/Migration.thy ===== *)
theory Migration
  imports Crypto Ddb
begin

text \<open>
  The script \<open>scripts/migrate_encrypt_employees.py\<close>, which encrypts the rows of the Employee table that were
  written before encryption was switched on. The values of the two SSM parameters are arguments; what the
  script prints is left out, but for the one print that can raise.
\<close>

section \<open>One row\<close>

text \<open>\<open>encrypt_field\<close> of an attribute that is not empty: \<open>plaintext.encode\<close> needs a string.\<close>

definition encrypt_value :: "cipher \<Rightarrow> bytes \<Rightarrow> pyval \<Rightarrow> pystr prog" where
  "encrypt_value C key v = (if is_str v then encrypt_field C (Inr key) (str_of v) else raise AttributeError)"

text \<open>The two tests that skip a row; \<open>is_encrypted\<close> lets the \<open>TypeError\<close> of a name that is no string pass.\<close>

definition migrate_skips :: "cipher \<Rightarrow> pyval \<Rightarrow> pyval \<Rightarrow> bool res" where
  "migrate_skips C name phone =
     bind_res (if \<not> truthy name then Inr False
               else if is_str name then Inr (is_encrypted C (str_of name)) else Inl TypeError) (\<lambda>encrypted.
       Inr (encrypted \<or> \<not> truthy name \<and> \<not> truthy phone))"

definition name_actions :: "cipher \<Rightarrow> bytes \<Rightarrow> pyval \<Rightarrow> upd list prog" where
  "name_actions C key name =
     (if truthy name then bindP (encrypt_value C key name) (\<lambda>n. ret [SetAttr ''name'' (PStr n)]) else ret [])"

definition phone_actions :: "cipher \<Rightarrow> bytes \<Rightarrow> pystr \<Rightarrow> pyval \<Rightarrow> upd list prog" where
  "phone_actions C key hmac_key_b64 phone =
     (if truthy phone then
        bindP (encrypt_value C key phone) (\<lambda>p.
        bindP (lift (compute_blind_index hmac_key_b64 (str_of phone))) (\<lambda>blind.
          ret [SetAttr ''phoneNumber'' (PStr p), SetAttr ''phoneNumberBlindIndex'' (PStr blind)]))
      else ret [SetAttr ''phoneNumberBlindIndex'' (PStr [])])"

text \<open>
  What the row adds to the counters. \<open>name[:10]\<close> in the message after the update raises on a name that is
  neither a string nor a list, and the row is then counted twice.
\<close>

datatype migrated = MigEncrypted | MigSkipped | MigError | MigBoth

fun sliceable :: "pyval \<Rightarrow> bool" where
  "sliceable (PStr s) = True"
| "sliceable (PList xs) = True"
| "sliceable _ = False"

definition migrate_key :: "pydict \<Rightarrow> pydict" where
  "migrate_key item = [(str ''employeeId'', dget_or item ''employeeId'' (PStr []))]"

definition migrate_update :: "cipher \<Rightarrow> bytes \<Rightarrow> pystr \<Rightarrow> pydict \<Rightarrow> pyval \<Rightarrow> pyval \<Rightarrow> migrated prog" where
  "migrate_update C key hmac_key_b64 item name phone =
     bindP (name_actions C key name) (\<lambda>ns.
     bindP (phone_actions C key hmac_key_b64 phone) (\<lambda>ps.
       if ns @ ps = [] then ret MigSkipped
       else
         thenP (aws (UpdateItem EmployeeTable (migrate_key item) (ns @ ps) NoCond))
           (ret (if sliceable name then MigEncrypted else MigBoth))))"

definition migrate_row :: "cipher \<Rightarrow> bytes \<Rightarrow> pystr \<Rightarrow> pydict \<Rightarrow> migrated prog" where
  "migrate_row C key hmac_key_b64 item =
     (let name = dget_or item ''name'' (PStr []); phone = dget_or item ''phoneNumber'' (PStr []) in
      bindP (lift (migrate_skips C name phone)) (\<lambda>skip.
        if skip then ret MigSkipped
        else catchP (migrate_update C key hmac_key_b64 item name phone) (\<lambda>e. ret MigError)))"

section \<open>The run\<close>

record migrate_counts =
  mg_encrypted :: nat
  mg_skipped :: nat
  mg_errors :: nat

definition count_migrated :: "migrated \<Rightarrow> migrate_counts \<Rightarrow> migrate_counts" where
  "count_migrated r n = (case r of
     MigEncrypted \<Rightarrow> n\<lparr>mg_encrypted := Suc (mg_encrypted n)\<rparr>
   | MigSkipped \<Rightarrow> n\<lparr>mg_skipped := Suc (mg_skipped n)\<rparr>
   | MigError \<Rightarrow> n\<lparr>mg_errors := Suc (mg_errors n)\<rparr>
   | MigBoth \<Rightarrow> n\<lparr>mg_encrypted := Suc (mg_encrypted n), mg_errors := Suc (mg_errors n)\<rparr>)"

fun migrate_rows :: "cipher \<Rightarrow> bytes \<Rightarrow> pystr \<Rightarrow> pydict list \<Rightarrow> migrate_counts \<Rightarrow> migrate_counts prog" where
  "migrate_rows C key hmac_key_b64 [] n = ret n"
| "migrate_rows C key hmac_key_b64 (item # items) n =
     bindP (migrate_row C key hmac_key_b64 item) (\<lambda>r. migrate_rows C key hmac_key_b64 items (count_migrated r n))"

definition no_counts :: migrate_counts where
  "no_counts = \<lparr>mg_encrypted = 0, mg_skipped = 0, mg_errors = 0\<rparr>"

definition migrate_data_key :: "pystr \<Rightarrow> bytes prog" where
  "migrate_data_key encrypted_key_b64 = (case b64decode False encrypted_key_b64 of
     None \<Rightarrow> raise ValueError
   | Some blob \<Rightarrow>
       bindP (aws (KmsDecrypt (of_bytes blob))) (\<lambda>resp.
       bindP (lift (dindex (items_of resp) ''Plaintext'')) (\<lambda>plain. ret (to_bytes (str_of plain)))))"

definition migrate_main :: "cipher \<Rightarrow> pystr \<Rightarrow> pystr \<Rightarrow> nat \<Rightarrow> migrate_counts prog" where
  "migrate_main C encrypted_key_b64 hmac_key_b64 fuel =
     bindP (migrate_data_key encrypted_key_b64) (\<lambda>key.
     bindP (pages is_falsy fuel (Scan EmployeeTable) PNone) (\<lambda>items.
       migrate_rows C key hmac_key_b64 items no_counts))"

section \<open>What a run does to the rows\<close>

definition skipped_row :: "cipher \<Rightarrow> pydict \<Rightarrow> bool" where
  "skipped_row C d \<longleftrightarrow> migrate_skips C (dget_or d ''name'' (PStr [])) (dget_or d ''phoneNumber'' (PStr [])) = Inr True"

text \<open>The laws of the two packages: AES-GCM decrypts what it encrypted, \<open>json.loads\<close> reads an envelope.\<close>

definition cipher_laws :: "cipher \<Rightarrow> bool" where
  "cipher_laws C \<longleftrightarrow>
     (\<forall>k n m c. aes_encrypt C k n m = Some c \<longrightarrow> aes_decrypt C k n c = Some m) \<and>
     (\<forall>iv ct. loads_bytes C (to_bytes (envelope_json iv ct)) =
        Some (PDict [(str ''v'', PInt 2), (str ''iv'', PStr (b64encode iv)), (str ''ct'', PStr (b64encode ct))]))"

definition sealed :: "cipher \<Rightarrow> bytes \<Rightarrow> pyval \<Rightarrow> pyval \<Rightarrow> bool" where
  "sealed C key v x \<longleftrightarrow> (\<exists>e. x = PStr e \<and> e \<noteq> [] \<and> is_encrypted C e \<and> decrypt_field C (Inr key) e = Inr (str_of v))"

text \<open>The row \<open>d'\<close> is \<open>d\<close> with its name and number encrypted, and nothing else changed.\<close>

definition encrypted_row :: "cipher \<Rightarrow> bytes \<Rightarrow> pystr \<Rightarrow> pydict \<Rightarrow> pydict \<Rightarrow> bool" where
  "encrypted_row C key hmac_key_b64 d d' \<longleftrightarrow>
     (if truthy (dget_or d ''name'' (PStr [])) then sealed C key (dget d ''name'') (dget d' ''name'')
      else dfind d' ''name'' = dfind d ''name'') \<and>
     (if truthy (dget_or d ''phoneNumber'' (PStr [])) then
        sealed C key (dget d ''phoneNumber'') (dget d' ''phoneNumber'') \<and>
        (\<exists>b. compute_blind_index hmac_key_b64 (str_of (dget d ''phoneNumber'')) = Inr b \<and>
           dget d' ''phoneNumberBlindIndex'' = PStr b)
      else dfind d' ''phoneNumber'' = dfind d ''phoneNumber'' \<and> dget d' ''phoneNumberBlindIndex'' = PStr []) \<and>
     (\<forall>a. a \<notin> {''name'', ''phoneNumber'', ''phoneNumberBlindIndex''} \<longrightarrow> dfind d' a = dfind d a)"

lemma exec_encrypt_value:
  assumes "cipher_laws C" and "exec (encrypt_value C key v) tr (Inr e)" and "truthy v"
  shows "sealed C key v (PStr e)"
proof -
  obtain s where s: "v = PStr s" "s \<noteq> []" using assms(2,3) by (cases v) (auto simp: encrypt_value_def)
  have e: "exec (encrypt_field C (Inr key) s) tr (Inr e)" using assms(2) s by (simp add: encrypt_value_def)
  have "decrypt_field C (Inr key) e = Inr s \<and> is_encrypted C e \<and> e \<noteq> []"
    by (rule encrypted_field_reads [OF e s(2)]) (use assms(1) in \<open>auto simp: cipher_laws_def\<close>)
  then show ?thesis using s by (simp add: sealed_def)
qed


lemma dget_or_truthy: "truthy (dget_or d a (PStr [])) \<Longrightarrow> dget_or d a (PStr []) = dget d a"
  by (auto simp: dget_or_def dget_def split: option.splits)

lemma exec_name_actions:
  assumes "cipher_laws C" and "exec (name_actions C key name) tr (Inr ns)"
  shows "if truthy name then \<exists>e. ns = [SetAttr ''name'' (PStr e)] \<and> sealed C key name (PStr e) else ns = []"
  using assms(2) exec_encrypt_value [OF assms(1)]
  by (auto simp: name_actions_def exec_bindP split: if_splits)

lemma exec_phone_actions:
  assumes "cipher_laws C" and "exec (phone_actions C key hmac_key_b64 phone) tr (Inr ps)"
  shows "if truthy phone then \<exists>e b. ps = [SetAttr ''phoneNumber'' (PStr e), SetAttr ''phoneNumberBlindIndex'' (PStr b)] \<and>
      sealed C key phone (PStr e) \<and> compute_blind_index hmac_key_b64 (str_of phone) = Inr b
    else ps = [SetAttr ''phoneNumberBlindIndex'' (PStr [])]"
  using assms(2) exec_encrypt_value [OF assms(1)]
  by (auto simp: phone_actions_def exec_bindP split: if_splits)

lemma apply_upds_append: "apply_upds d (us @ vs) = apply_upds (apply_upds d us) vs"
  by (simp add: apply_upds_def)

text \<open>The update of the scanned row \<open>d\<close>, on the row as it is or as an earlier update of the same row left it.\<close>

lemma encrypted_row_update:
  assumes "cipher_laws C" and "exec (name_actions C key (dget_or d ''name'' (PStr []))) tr1 (Inr ns)"
    and "exec (phone_actions C key hmac_key_b64 (dget_or d ''phoneNumber'' (PStr []))) tr2 (Inr ps)"
    and "r = d \<or> encrypted_row C key hmac_key_b64 d r"
  shows "encrypted_row C key hmac_key_b64 d (apply_upds r (ns @ ps))"
proof -
  let ?n = "dget_or d ''name'' (PStr [])" and ?p = "dget_or d ''phoneNumber'' (PStr [])"
  have other: "dfind r a = dfind d a" if "a \<notin> {''name'', ''phoneNumber'', ''phoneNumberBlindIndex''}" for a
    using assms(4) that by (auto simp: encrypted_row_def)
  have keep: "\<not> truthy ?n \<Longrightarrow> dfind r ''name'' = dfind d ''name''"
    "\<not> truthy ?p \<Longrightarrow> dfind r ''phoneNumber'' = dfind d ''phoneNumber''"
    using assms(4) by (auto simp: encrypted_row_def)
  note n = exec_name_actions [OF assms(1,2)] and p = exec_phone_actions [OF assms(1,3)]
  define q where "q = apply_upds r (ns @ ps)"
  have rest: "dfind q a = dfind d a" if "a \<notin> {''name'', ''phoneNumber'', ''phoneNumberBlindIndex''}" for a
  proof -
    have "a \<notin> upd_attr ` set (ns @ ps)" using n p that by (auto split: if_splits)
    then show ?thesis using other [OF that] by (simp add: q_def apply_upds_other)
  qed
  have phone: "if truthy ?p then sealed C key (dget d ''phoneNumber'') (dget q ''phoneNumber'') \<and>
        (\<exists>b. compute_blind_index hmac_key_b64 (str_of (dget d ''phoneNumber'')) = Inr b \<and> dget q ''phoneNumberBlindIndex'' = PStr b)
      else dfind q ''phoneNumber'' = dfind d ''phoneNumber'' \<and> dget q ''phoneNumberBlindIndex'' = PStr []"
  proof (cases "truthy ?p")
    case True
    then obtain e b where "ps = [SetAttr ''phoneNumber'' (PStr e), SetAttr ''phoneNumberBlindIndex'' (PStr b)]"
      "sealed C key (dget d ''phoneNumber'') (PStr e)" "compute_blind_index hmac_key_b64 (str_of (dget d ''phoneNumber'')) = Inr b"
      using p True unfolding dget_or_truthy [OF True] by auto
    then show ?thesis using True by (cases ns; cases "tl ns") (simp_all add: q_def apply_upds_append)
  next
    case False
    then have ps: "ps = [SetAttr ''phoneNumberBlindIndex'' (PStr [])]" using p by simp
    have "''phoneNumber'' \<notin> upd_attr ` set (ns @ ps)" using n ps by (auto split: if_splits)
    then have "dfind q ''phoneNumber'' = dfind r ''phoneNumber''" by (simp add: q_def apply_upds_other)
    then show ?thesis using False keep(2) by (simp add: q_def apply_upds_append ps)
  qed
  have "if truthy ?n then sealed C key (dget d ''name'') (dget q ''name'') else dfind q ''name'' = dfind d ''name''"
  proof -
    have o: "dfind q ''name'' = dfind (apply_upds r ns) ''name''"
      unfolding q_def apply_upds_append by (rule apply_upds_other) (use p in \<open>auto split: if_splits\<close>)
    show ?thesis
    proof (cases "truthy ?n")
      case True
      then obtain e where "ns = [SetAttr ''name'' (PStr e)]" "sealed C key (dget d ''name'') (PStr e)"
        using n True unfolding dget_or_truthy [OF True] by auto
      then show ?thesis using True o by (simp add: dget_def [of q])
    next
      case False
      then show ?thesis using n o keep(1) by simp
    qed
  qed
  with phone rest have "encrypted_row C key hmac_key_b64 d q" by (auto simp: encrypted_row_def)
  then show ?thesis by (simp only: q_def)
qed

lemma encrypt_readonly: "all_calls readonly (name_actions C key v)" "all_calls readonly (phone_actions C key h v)"
proof -
  have e: "all_calls readonly (encrypt_value C key v)" for v
    by (auto simp: encrypt_value_def encrypt_field_def split: option.split)
  show "all_calls readonly (name_actions C key v)" "all_calls readonly (phone_actions C key h v)"
    by (auto simp: name_actions_def phone_actions_def intro!: all_calls_bindP e)
qed

text \<open>What is known of an employee's row: its key is its \<open>employeeId\<close>.\<close>

definition keyed_rows :: "(pyval list \<Rightarrow> pydict option) \<Rightarrow> bool" where
  "keyed_rows rows \<longleftrightarrow> (\<forall>k d. rows k = Some d \<longrightarrow> (\<exists>e. dfind d ''employeeId'' = Some (PStr e) \<and> k = [PStr e]))"

context dynamodb begin

lemma run_migrate_row:
  assumes "cipher_laws C" and "run W (migrate_row C key hmac_key_b64 d) s = (Inr res, s')"
    and "dfind d ''employeeId'' = Some (PStr e)" and "row s EmployeeTable [PStr e] = Some r"
    and "r = d \<or> encrypted_row C key hmac_key_b64 d r" and "res \<noteq> MigError" and "res \<noteq> MigBoth"
  shows "(skipped_row C d \<and> res = MigSkipped \<and> row s' = row s) \<or>
    (\<not> skipped_row C d \<and> res = MigEncrypted \<and> (\<exists>d'. encrypted_row C key hmac_key_b64 d d' \<and>
       row s' = (row s)(EmployeeTable := (row s EmployeeTable)([PStr e] := Some d'))))"
proof -
  let ?n = "dget_or d ''name'' (PStr [])" and ?p = "dget_or d ''phoneNumber'' (PStr [])"
  obtain skip where skip: "migrate_skips C ?n ?p = Inr skip"
    using assms(2) by (cases "migrate_skips C ?n ?p") (auto simp: migrate_row_def)
  show ?thesis
  proof (cases skip)
    case True
    then show ?thesis using assms(2) skip by (simp add: migrate_row_def skipped_row_def)
  next
    case False
    have "run W (migrate_update C key hmac_key_b64 d ?n ?p) s = (Inr res, s')"
      using assms(2,6) skip False
      by (auto simp: migrate_row_def run_catchP split: prod.splits sum.splits)
    then obtain ns s1 ps s2 where ns: "run W (name_actions C key ?n) s = (Inr ns, s1)"
      and ps: "run W (phone_actions C key hmac_key_b64 ?p) s1 = (Inr ps, s2)"
      and u: "run W (if ns @ ps = [] then ret MigSkipped
        else thenP (aws (UpdateItem EmployeeTable (migrate_key d) (ns @ ps) NoCond))
           (ret (if sliceable ?n then MigEncrypted else MigBoth))) s2 = (Inr res, s')"
      unfolding migrate_update_def by (elim run_bindP_InrE)
    obtain tr1 tr2 where tr: "exec (name_actions C key ?n) tr1 (Inr ns)" "exec (phone_actions C key hmac_key_b64 ?p) tr2 (Inr ps)"
      using run_exec [of "name_actions C key ?n" W s] run_exec [of "phone_actions C key hmac_key_b64 ?p" W s1] ns ps by auto
    have ne: "ns @ ps \<noteq> []" using exec_phone_actions [OF assms(1) tr(2)] by (auto split: if_splits)
    have s2: "row s2 = row s" using run_readonly [OF encrypt_readonly(1) ns] run_readonly [OF encrypt_readonly(2) ps] by simp
    have k: "key_of EmployeeTable (migrate_key d) = [PStr e]"
      using assms(3) by (simp add: migrate_key_def key_of_def dget_or_def)
    obtain v where v: "run W (aws (UpdateItem EmployeeTable (migrate_key d) (ns @ ps) NoCond)) s2 = (Inr v, s')"
      and res: "res = (if sliceable ?n then MigEncrypted else MigBoth)"
      using u ne by (auto elim!: run_bindP_InrE)
    have "row s' = (row s)(EmployeeTable := (row s EmployeeTable)([PStr e] := Some (apply_upds r (ns @ ps))))"
    proof (rule run_write_ok [of "UpdateItem EmployeeTable (migrate_key d) (ns @ ps) NoCond" EmployeeTable "[PStr e]" s2
          "Some (apply_upds r (ns @ ps))"])
      fix v' s''
      assume "run W (aws (UpdateItem EmployeeTable (migrate_key d) (ns @ ps) NoCond)) s2 = (Inr v', s'')"
        "row s'' = (row s2)(EmployeeTable := (row s2 EmployeeTable)([PStr e] := Some (apply_upds r (ns @ ps))))"
      then show ?thesis using v s2 by simp
    qed (simp_all add: k s2 assms(4))
    moreover have "encrypted_row C key hmac_key_b64 d (apply_upds r (ns @ ps))"
      by (rule encrypted_row_update [OF assms(1) tr assms(5)])
    moreover have "\<not> skipped_row C d" using skip False by (simp add: skipped_row_def)
    ultimately show ?thesis using res assms(7) by (auto split: if_splits)
  qed
qed

text \<open>
  The rows after a part of the run, from the rows it scanned: those in \<open>D\<close> are done, the others may have
  been reached as well, since a scan may list a row twice.
\<close>

end

definition row_state :: "cipher \<Rightarrow> bytes \<Rightarrow> pystr \<Rightarrow> pydict set \<Rightarrow> pydict \<Rightarrow> pydict \<Rightarrow> bool" where
  "row_state C key hmac_key_b64 D d r \<longleftrightarrow>
     (if d \<in> D then (if skipped_row C d then r = d else encrypted_row C key hmac_key_b64 d r)
      else r = d \<or> \<not> skipped_row C d \<and> encrypted_row C key hmac_key_b64 d r)"

definition rows_state :: "cipher \<Rightarrow> bytes \<Rightarrow> pystr \<Rightarrow> pydict set \<Rightarrow> (pyval list \<Rightarrow> pydict option) \<Rightarrow>
    (pyval list \<Rightarrow> pydict option) \<Rightarrow> bool" where
  "rows_state C key hmac_key_b64 D rows rows' \<longleftrightarrow>
     (\<forall>k. case rows k of None \<Rightarrow> rows' k = None
        | Some d \<Rightarrow> (\<exists>r. rows' k = Some r \<and> row_state C key hmac_key_b64 D d r))"

lemma rows_stateD:
  "rows_state C key hmac_key_b64 D rows rows' \<Longrightarrow> rows k = Some d \<Longrightarrow>
     \<exists>r. rows' k = Some r \<and> row_state C key hmac_key_b64 D d r"
  by (auto simp: rows_state_def split: option.splits)

lemma rows_state_update:
  assumes "rows_state C key hmac_key_b64 D rows rows'" and "rows k = Some d"
    and "row_state C key hmac_key_b64 (insert d D) d r" and "\<And>k'. rows k' = Some d \<Longrightarrow> k' = k"
  shows "rows_state C key hmac_key_b64 (insert d D) rows (rows'(k := Some r))"
  unfolding rows_state_def
proof
  fix k'
  show "case rows k' of None \<Rightarrow> (rows'(k := Some r)) k' = None
      | Some d' \<Rightarrow> (\<exists>x. (rows'(k := Some r)) k' = Some x \<and> row_state C key hmac_key_b64 (insert d D) d' x)"
  proof (cases "k' = k")
    case True
    then show ?thesis using assms(2,3) by simp
  next
    case False
    have "row_state C key hmac_key_b64 (insert d D) d' x = row_state C key hmac_key_b64 D d' x" if "d' \<noteq> d" for d' x
      using that by (simp add: row_state_def)
    moreover have "rows k' \<noteq> Some d" using assms(4) False by blast
    ultimately show ?thesis using assms(1) False
      by (auto simp: rows_state_def split: option.split option.splits dest!: spec [of _ k'])
  qed
qed

lemma count_errors: "mg_errors n \<le> mg_errors (count_migrated r n)"
  by (cases r) (simp_all add: count_migrated_def)

lemma migrate_rows_errors: "run W (migrate_rows C key h items n) s = (Inr m, s') \<Longrightarrow> mg_errors n \<le> mg_errors m"
proof (induction items arbitrary: n s)
  case (Cons d items)
  obtain r s1 where "run W (migrate_rows C key h items (count_migrated r n)) s1 = (Inr m, s')"
    using Cons.prems by (auto elim!: run_bindP_InrE)
  from Cons.IH [OF this] count_errors [of n r] show ?case by simp
qed simp

context dynamodb begin

lemma run_migrate_rows:
  assumes "cipher_laws C" and "keyed_rows rows"
  shows "set items \<subseteq> ran rows \<Longrightarrow> run W (migrate_rows C key hmac_key_b64 items n) s = (Inr m, s') \<Longrightarrow> mg_errors m = 0 \<Longrightarrow>
    rows_state C key hmac_key_b64 D rows (row s EmployeeTable) \<Longrightarrow>
    rows_state C key hmac_key_b64 (D \<union> set items) rows (row s' EmployeeTable) \<and>
    (\<forall>t. t \<noteq> EmployeeTable \<longrightarrow> row s' t = row s t)"
proof (induction items arbitrary: n s D)
  case (Cons d items)
  obtain res s1 where r: "run W (migrate_row C key hmac_key_b64 d) s = (Inr res, s1)"
    and rest: "run W (migrate_rows C key hmac_key_b64 items (count_migrated res n)) s1 = (Inr m, s')"
    using Cons.prems(2) by (auto elim!: run_bindP_InrE)
  have ok: "res \<noteq> MigError" "res \<noteq> MigBoth"
    using migrate_rows_errors [OF rest] Cons.prems(3) by (auto simp: count_migrated_def)
  obtain k where k: "rows k = Some d" using Cons.prems(1) by (auto simp: ran_def)
  then obtain e where e: "dfind d ''employeeId'' = Some (PStr e)" "k = [PStr e]"
    using assms(2) by (auto simp: keyed_rows_def)
  have uniq: "k' = k" if "rows k' = Some d" for k'
    using that assms(2) e unfolding keyed_rows_def by fastforce
  obtain r where row: "row s EmployeeTable [PStr e] = Some r" "row_state C key hmac_key_b64 D d r"
    using rows_stateD [OF Cons.prems(4) k] e(2) by auto
  have "r = d \<or> encrypted_row C key hmac_key_b64 d r" using row(2) by (auto simp: row_state_def split: if_splits)
  note step = run_migrate_row [OF assms(1) r e(1) row(1) this ok]
  have "rows_state C key hmac_key_b64 (insert d D) rows (row s1 EmployeeTable) \<and> (\<forall>t. t \<noteq> EmployeeTable \<longrightarrow> row s1 t = row s t)"
  proof (cases "skipped_row C d")
    case True
    then have "row s1 = row s" "r = d" using step row(2) by (auto simp: row_state_def split: if_splits)
    moreover have "rows_state C key hmac_key_b64 (insert d D) rows ((row s EmployeeTable)(k := Some d))"
      by (rule rows_state_update [OF Cons.prems(4) k _ uniq]) (simp add: row_state_def True)
    ultimately show ?thesis using row(1) e(2) by (simp add: fun_upd_idem)
  next
    case False
    then obtain d' where d': "encrypted_row C key hmac_key_b64 d d'"
        "row s1 = (row s)(EmployeeTable := (row s EmployeeTable)([PStr e] := Some d'))" using step by auto
    have "rows_state C key hmac_key_b64 (insert d D) rows ((row s EmployeeTable)(k := Some d'))"
      by (rule rows_state_update [OF Cons.prems(4) k _ uniq]) (simp add: row_state_def False d'(1))
    then show ?thesis using d'(2) e(2) by simp
  qed
  then show ?case using Cons.IH [OF _ rest Cons.prems(3), of "insert d D"] Cons.prems(1) by simp
qed simp

end

lemma migrate_key_readonly: "all_calls readonly (migrate_data_key ek)"
  by (auto simp: migrate_data_key_def readonly_def split: option.split intro!: all_calls_bindP)

text \<open>The parts of a run: the key, the scan, the rows.\<close>

lemma migrate_main_run:
  assumes "dynamodb_scan W row" and "run W (migrate_main C ek hmac_key_b64 fuel) s = (Inr m, s')"
  obtains key items s1 where "run W (migrate_rows C key hmac_key_b64 items no_counts) s1 = (Inr m, s')"
    "row s1 = row s" "set items = ran (row s EmployeeTable)"
proof -
  note W = dynamodb_scan.axioms(1) [OF assms(1)]
  obtain key s0 items s1 where k: "run W (migrate_data_key ek) s = (Inr key, s0)"
    and i: "run W (pages is_falsy fuel (Scan EmployeeTable) PNone) s0 = (Inr items, s1)"
    and r: "run W (migrate_rows C key hmac_key_b64 items no_counts) s1 = (Inr m, s')"
    using assms(2) unfolding migrate_main_def by (elim run_bindP_InrE)
  have s0: "row s0 = row s" by (rule dynamodb.run_readonly [OF W migrate_key_readonly k])
  have "all_calls readonly (pages is_falsy fuel (Scan EmployeeTable) PNone)"
    by (rule pages_calls) (simp add: readonly_def)
  then have "row s1 = row s0" by (rule dynamodb.run_readonly [OF W _ i])
  moreover have "set items = ran (row s0 EmployeeTable)"
    using dynamodb_scan.scan_complete [OF assms(1) i] by (auto simp: ran_def)
  ultimately show thesis using that [OF r] s0 by simp
qed

lemma migrate_main_rows:
  assumes "dynamodb_scan W row" and "cipher_laws C" and "keyed_rows (row s EmployeeTable)"
    and "run W (migrate_main C ek hmac_key_b64 fuel) s = (Inr m, s')" and "mg_errors m = 0"
  obtains key where "\<And>t. t \<noteq> EmployeeTable \<Longrightarrow> row s' t = row s t"
    "\<And>k. row s EmployeeTable k = None \<Longrightarrow> row s' EmployeeTable k = None"
    "\<And>k d. row s EmployeeTable k = Some d \<Longrightarrow> \<exists>d'. row s' EmployeeTable k = Some d' \<and>
      (if skipped_row C d then d' = d else encrypted_row C key hmac_key_b64 d d')"
proof -
  obtain key items s1 where r: "run W (migrate_rows C key hmac_key_b64 items no_counts) s1 = (Inr m, s')"
    "row s1 = row s" "set items = ran (row s EmployeeTable)"
    by (rule migrate_main_run [OF assms(1,4)])
  have "rows_state C key hmac_key_b64 {} (row s EmployeeTable) (row s1 EmployeeTable)"
    by (auto simp: rows_state_def row_state_def r(2) split: option.split)
  from dynamodb.run_migrate_rows [OF dynamodb_scan.axioms(1) [OF assms(1)] assms(2,3) _ r(1) assms(5) this] r(2,3)
  have st: "rows_state C key hmac_key_b64 (ran (row s EmployeeTable)) (row s EmployeeTable) (row s' EmployeeTable)"
    and t: "\<forall>t. t \<noteq> EmployeeTable \<longrightarrow> row s' t = row s t" by auto
  show thesis
  proof (rule that [of key])
    show "row s' EmployeeTable k = None" if "row s EmployeeTable k = None" for k
      using st that by (auto simp: rows_state_def dest!: spec [of _ k])
    show "\<exists>d'. row s' EmployeeTable k = Some d' \<and>
      (if skipped_row C d then d' = d else encrypted_row C key hmac_key_b64 d d')" if "row s EmployeeTable k = Some d" for k d
    proof -
      have "d \<in> ran (row s EmployeeTable)" using that by (auto simp: ran_def)
      with rows_stateD [OF st that] show ?thesis by (simp add: row_state_def)
    qed
  qed (use t in blast)
qed


text \<open>A table in which every row is encrypted or empty is left as it is.\<close>

lemma migrate_rows_skipped:
  assumes "\<forall>d\<in>set items. skipped_row C d"
  shows "run W (migrate_rows C key hmac_key_b64 items n) s = (Inr (n\<lparr>mg_skipped := mg_skipped n + length items\<rparr>), s)"
  using assms
proof (induction items arbitrary: n)
  case (Cons d items)
  have "migrate_row C key hmac_key_b64 d = ret MigSkipped"
    using Cons.prems by (simp add: migrate_row_def skipped_row_def)
  then show ?case using Cons by (simp add: count_migrated_def)
qed simp

lemma sealed_name_skipped:
  assumes "sealed C key v (dget d ''name'')"
  shows "skipped_row C d"
proof -
  obtain e where e: "dget d ''name'' = PStr e" "e \<noteq> []" "is_encrypted C e" using assms by (auto simp: sealed_def)
  then have "dget_or d ''name'' (PStr []) = PStr e" by (auto simp: dget_def dget_or_def split: option.splits)
  then show ?thesis using e(2,3) by (simp add: skipped_row_def migrate_skips_def)
qed

lemma named_row_skipped_after:
  assumes "if skipped_row C d then d' = d else encrypted_row C key hmac_key_b64 d d'" and "nonempty_str (dget d ''name'')"
  shows "skipped_row C d'"
proof (cases "skipped_row C d")
  case False
  have "truthy (dget_or d ''name'' (PStr []))" using assms(2)
    by (auto simp: nonempty_str_iff dget_def dget_or_def split: option.splits)
  then show ?thesis using assms(1) False by (auto simp: encrypted_row_def intro: sealed_name_skipped)
qed (use assms(1) in simp)

lemma all_skipped_after:
  assumes "dynamodb_scan W row" and "cipher_laws C" and "keyed_rows (row s EmployeeTable)"
    and "run W (migrate_main C ek hmac_key_b64 fuel) s = (Inr m, s')" and "mg_errors m = 0"
    and "\<forall>k d. row s EmployeeTable k = Some d \<longrightarrow> nonempty_str (dget d ''name'')"
  shows "\<forall>d\<in>ran (row s' EmployeeTable). skipped_row C d"
proof
  fix d'
  assume "d' \<in> ran (row s' EmployeeTable)"
  then obtain k where k: "row s' EmployeeTable k = Some d'" by (auto simp: ran_def)
  show "skipped_row C d'"
  proof (rule migrate_main_rows [OF assms(1-5)])
    fix key
    assume none: "\<And>k. row s EmployeeTable k = None \<Longrightarrow> row s' EmployeeTable k = None"
      and some: "\<And>k d. row s EmployeeTable k = Some d \<Longrightarrow> \<exists>d'. row s' EmployeeTable k = Some d' \<and>
        (if skipped_row C d then d' = d else encrypted_row C key hmac_key_b64 d d')"
    obtain d where d: "row s EmployeeTable k = Some d" using none [of k] k by (cases "row s EmployeeTable k") auto
    have "if skipped_row C d then d' = d else encrypted_row C key hmac_key_b64 d d'" using some [OF d] k by simp
    then show ?thesis by (rule named_row_skipped_after) (use assms(6) d in blast)
  qed
qed

section \<open>Properties\<close>


text \<open>A store with one row, and a KMS that answers with an empty key.\<close>

definition kms_ops :: "store ops" where
  "kms_ops = store_ops\<lparr>answer := (\<lambda>s q. case q of
     KmsDecrypt b \<Rightarrow> (Inr (PDict [(str ''Plaintext'', PStr [])]), s) | _ \<Rightarrow> answer store_ops s q)\<rparr>"

lemma kms_answer [simp]:
  "answer kms_ops s q =
     (case q of KmsDecrypt b \<Rightarrow> (Inr (PDict [(str ''Plaintext'', PStr [])]), s) | _ \<Rightarrow> answer store_ops s q)"
  "reading kms_ops = reading store_ops"
  by (simp_all add: kms_ops_def)

lemma kms_scan:
  "run kms_ops (pages stop n (Scan t) PNone) s =
     (if n = 0 \<or> \<not> stop PNone then Inl PageLimit else Inr (table_rows s t), s)"
  by (induction n) (simp_all add: run_bindP run_aws store_ops_def Let_def)

interpretation kms: dynamodb_scan kms_ops store_row
proof unfold_locales
  fix q t k s r e
  show "write_target q = Some (t, k) \<Longrightarrow> write_row q (store_row s t k) = Some r \<Longrightarrow>
       (\<exists>v. fst (answer kms_ops s q) = Inr v) \<and>
       store_row (snd (answer kms_ops s q)) = (store_row s)(t := (store_row s t)(k := r))"
    using store.write_ok [of q t k s r] by (cases q) auto
  show "write_target q = Some (t, k) \<Longrightarrow> write_row q (store_row s t k) = None \<Longrightarrow>
       fst (answer kms_ops s q) = Inl ccfe \<and> store_row (snd (answer kms_ops s q)) = store_row s"
    using store.write_fails [of q t k s] by (cases q) auto
  show "write_target q = None \<Longrightarrow> \<not> multi_write q \<Longrightarrow> store_row (snd (answer kms_ops s q)) = store_row s"
    using store.frame [of q s] by (cases q) auto
  show "run kms_ops (pages stop n (Scan t) PNone) s = (Inr rows, s') \<Longrightarrow> set rows = {d. \<exists>k. store_row s t k = Some d}"
    for stop n rows s'
    by (auto simp: kms_scan table_rows_set [symmetric] split: if_splits)
qed (simp_all add: store.get_reads store.frame_reading)

definition plain_row :: pydict where
  "plain_row = [(str ''employeeId'', PStr (str ''1'')), (str ''name'', PStr [12354]), (str ''phoneNumber'', PStr (str ''+81''))]"

definition plain_staff :: store where
  "plain_staff = \<lparr>st_rows = [((EmployeeTable, [PStr (str ''1'')]), plain_row)], st_clock = 0, st_log = []\<rparr>"

lemma plain_staff_keyed: "keyed_rows (store_row plain_staff EmployeeTable)"
  by (auto simp: keyed_rows_def plain_staff_def store_row_def plain_row_def)

lemma plain_laws: "cipher_laws plain_cipher"
  by (simp add: cipher_laws_def plain_cipher_def envelope_loads_json)

lemma plain_row_open: "\<not> skipped_row plain_cipher plain_row"
  by (simp add: skipped_row_def migrate_skips_def plain_row_def is_encrypted_def load_envelope_def b64decode_def)

lemma plain_staff_migrates:
  "\<exists>s'. run kms_ops (migrate_main plain_cipher (b64encode [0]) (b64encode [0]) 1) plain_staff =
     (Inr (no_counts\<lparr>mg_encrypted := 1\<rparr>), s')"
proof -
  have key: "run kms_ops (migrate_data_key (b64encode [0])) s = (Inr [], s)" for s
    by (simp add: migrate_data_key_def b64_roundtrip run_bindP run_aws dindex_def to_bytes_def del: b64encode.simps)
  have rows: "run kms_ops (pages is_falsy 1 (Scan EmployeeTable) PNone) plain_staff = (Inr [plain_row], plain_staff)"
    by (simp add: kms_scan table_rows_def plain_staff_def del: pages.simps)
  have skip: "migrate_skips plain_cipher (PStr [12354]) (PStr (str ''+81'')) = Inr False"
    by (simp add: migrate_skips_def is_encrypted_def load_envelope_def b64decode_def)
  obtain e1 where e1: "\<And>s. run kms_ops (encrypt_value plain_cipher [] (PStr [12354])) s = (Inr e1, s)"
    by (simp add: encrypt_value_def encrypt_field_def plain_cipher_def store_ops_def utf8_char_def surrogate_def)
  have ascii: "utf8_encode (str ''+81'') = Some (map of_nat (str ''+81''))" by (rule utf8_ascii) (simp add: str_def)
  obtain e2 where e2: "\<And>s. run kms_ops (encrypt_value plain_cipher [] (PStr (str ''+81''))) s = (Inr e2, s)"
    using ascii by (simp add: encrypt_value_def encrypt_field_def plain_cipher_def store_ops_def)
  obtain b where b: "compute_blind_index (b64encode [0]) (str ''+81'') = Inr b"
    using ascii by (simp add: compute_blind_index_def get_hmac_key_def b64_roundtrip del: b64encode.simps)
  have row: "\<exists>s'. run kms_ops (migrate_row plain_cipher [] (b64encode [0]) plain_row) plain_staff = (Inr MigEncrypted, s')"
    by (simp add: migrate_row_def Let_def plain_row_def skip migrate_update_def name_actions_def phone_actions_def run_catchP
        run_bindP e1 e2 b run_aws store_ops_def del: b64encode.simps)
  then show ?thesis
    by (auto simp: migrate_main_def run_bindP key rows count_migrated_def no_counts_def simp del: pages.simps b64encode.simps
        One_nat_def)
qed




text \<open>
  A row with a number and no name is encrypted by every run: after two of them its number decrypts to an
  envelope.
\<close>

theorem nameless_number_sealed_twice:
  assumes "dynamodb_scan W row" and "cipher_laws C" and "keyed_rows (row s EmployeeTable)"
    and "run W (migrate_main C ek hmac_key_b64 fuel) s = (Inr m, s')" and "mg_errors m = 0"
    and "run W (migrate_main C ek2 hmac2 fuel2) s' = (Inr m2, s'')" and "mg_errors m2 = 0"
    and "row s EmployeeTable k = Some d" and "dfind d ''name'' = None" and "nonempty_str (dget d ''phoneNumber'')"
  shows "\<exists>key2 e d''. row s'' EmployeeTable k = Some d'' \<and> is_encrypted C e \<and>
    sealed C key2 (PStr e) (dget d'' ''phoneNumber'')"
proof -
  have again: "\<exists>e. dget r' ''phoneNumber'' = PStr e \<and> e \<noteq> [] \<and> is_encrypted C e \<and>
      sealed C key (dget r ''phoneNumber'') (PStr e) \<and> dfind r' ''name'' = None"
    if "if skipped_row C r then r' = r else encrypted_row C key h r r'" "dfind r ''name'' = None"
      "nonempty_str (dget r ''phoneNumber'')" for r r' key h
  proof -
    have t: "\<not> truthy (dget_or r ''name'' (PStr []))" using that(2) by (simp add: dget_or_def)
    have p: "truthy (dget_or r ''phoneNumber'' (PStr []))" using that(3)
      by (auto simp: nonempty_str_iff dget_def dget_or_def split: option.splits)
    have "\<not> skipped_row C r" using t p by (simp add: skipped_row_def migrate_skips_def)
    then show ?thesis using that(1,2) t p by (auto simp: encrypted_row_def sealed_def)
  qed
  have keyed: "\<exists>key d'. row s' EmployeeTable k = Some d' \<and>
      (if skipped_row C d then d' = d else encrypted_row C key hmac_key_b64 d d') \<and>
      keyed_rows (row s' EmployeeTable)"
  proof (rule migrate_main_rows [OF assms(1-5)])
    fix key
    assume none: "\<And>k. row s EmployeeTable k = None \<Longrightarrow> row s' EmployeeTable k = None"
      and some: "\<And>k d. row s EmployeeTable k = Some d \<Longrightarrow> \<exists>d'. row s' EmployeeTable k = Some d' \<and>
        (if skipped_row C d then d' = d else encrypted_row C key hmac_key_b64 d d')"
    have "keyed_rows (row s' EmployeeTable)"
      unfolding keyed_rows_def
    proof (intro allI impI)
      fix j d'
      assume d': "row s' EmployeeTable j = Some d'"
      obtain r where r: "row s EmployeeTable j = Some r" using none [of j] d' by (cases "row s EmployeeTable j") auto
      have "dfind d' ''employeeId'' = dfind r ''employeeId''"
        using some [OF r] d' by (auto simp: encrypted_row_def split: if_splits)
      then show "\<exists>e. dfind d' ''employeeId'' = Some (PStr e) \<and> j = [PStr e]"
        using r assms(3) by (auto simp: keyed_rows_def)
    qed
    then show ?thesis using some [OF assms(8)] by blast
  qed
  then obtain key d' where d': "row s' EmployeeTable k = Some d'" "keyed_rows (row s' EmployeeTable)"
    "if skipped_row C d then d' = d else encrypted_row C key hmac_key_b64 d d'" by blast
  obtain e where e: "dget d' ''phoneNumber'' = PStr e" "e \<noteq> []" "is_encrypted C e" "dfind d' ''name'' = None"
    using again [OF d'(3) assms(9,10)] by blast
  show ?thesis
  proof (rule migrate_main_rows [OF assms(1,2) d'(2) assms(6,7)])
    fix key2
    assume "\<And>k d. row s' EmployeeTable k = Some d \<Longrightarrow> \<exists>d'. row s'' EmployeeTable k = Some d' \<and>
        (if skipped_row C d then d' = d else encrypted_row C key2 hmac2 d d')"
    then obtain d'' where d'': "row s'' EmployeeTable k = Some d''"
      "if skipped_row C d' then d'' = d' else encrypted_row C key2 hmac2 d' d''" using d'(1) by blast
    obtain e2 where "dget d'' ''phoneNumber'' = PStr e2" "sealed C key2 (dget d' ''phoneNumber'') (PStr e2)"
      using again [OF d''(2) e(4)] e(1,2) by auto
    then show ?thesis using d''(1) e by auto
  qed
qed

end
