(* ===== verification/Dev_Scripts.thy ===== *)
theory Dev_Scripts
  imports Keyword_Handler Transcribe_Starter Retry
begin

text \<open>
  The two scripts of the mock end-to-end run: \<open>infrastructure/scripts/seed_dev.py\<close>, which writes ten
  employees and a dictionary, and \<open>run_phase16_5_e2e.py\<close>, which starts a cycle, waits for its execution and
  compares the outcome with a table of expectations. What the scripts print, the COUNT queries that are
  only printed and the result file are left out.
\<close>

section \<open>Seed data\<close>

definition new_version :: int where
  "new_version = 7"

definition seed_id :: "nat \<Rightarrow> pystr" where
  "seed_id i = str ''EMP-000'' @ nat_str i"

definition seed_employee :: "pystr \<Rightarrow> nat \<Rightarrow> pydict" where
  "seed_employee now_iso i =
     [(str ''employeeId'', PStr (seed_id i)), (str ''phoneNumber'', PStr (str ''+819012340'' @ pad 3 i)),
      (str ''name'', PStr ([12486, 12473, 12488, 31038, 21729] @ nat_str i)), (str ''isDeleted'', PBool False),
      (str ''createdAt'', PStr now_iso), (str ''updatedAt'', PStr now_iso)]"

definition new_keywords :: "(string \<times> pystr) list" where
  "new_keywords =
     [(''SAFE'', [28961, 20107]), (''SAFE'', [22823, 19976, 22827]), (''INJURED'', [24618, 25105]),
      (''INJURED'', [30171, 12356]), (''UNAVAILABLE'', [21205, 12369]), (''UNAVAILABLE'', [20986, 31038, 19981, 21487])]"

definition snapshot_v7 :: "(string \<times> pystr) list" where
  "snapshot_v7 =
     [(''SAFE'', str ''a''), (''SAFE'', str ''d''), (''INJURED'', str ''d''), (''INJURED'', str ''v''),
      (''UNAVAILABLE'', str ''d''), (''UNAVAILABLE'', str ''v'')] @ new_keywords"

definition seed_keyword :: "pystr \<Rightarrow> string \<times> pystr \<Rightarrow> pydict" where
  "seed_keyword now_iso ck =
     [(str ''category'', PStr (str (fst ck))), (str ''keyword'', PStr (snd ck)), (str ''version'', PInt new_version),
      (str ''createdAt'', PStr now_iso)]"

definition seed_history_row :: "pystr \<Rightarrow> string \<times> pystr \<Rightarrow> pydict" where
  "seed_history_row now_iso ck =
     [(str ''version'', PInt new_version), (str ''categoryKeyword'', PStr (str (fst ck) @ [35] @ snd ck)),
      (str ''category'', PStr (str (fst ck))), (str ''keyword'', PStr (snd ck)), (str ''snapshotAt'', PStr now_iso)]"

definition seed_employees :: "pystr \<Rightarrow> nat prog" where
  "seed_employees now_iso =
     thenP (for_each (\<lambda>i. thenP (aws (PutItem EmployeeTable (seed_employee now_iso i) NoCond)) (ret ())) [0..<10]) (ret 10)"

definition seed_dictionary :: "pystr \<Rightarrow> nat prog" where
  "seed_dictionary now_iso =
     thenP (for_each (\<lambda>ck. thenP (aws (PutItem DictTable (seed_keyword now_iso ck) NoCond)) (ret ())) new_keywords)
     (thenP (aws (UpdateItem DictTable meta_key [SetAttr ''currentVersion'' (PInt new_version)] NoCond))
       (ret (length new_keywords)))"

text \<open>The \<open>batch_writer\<close> sends the rows, fewer than 25, when its block ends.\<close>

definition seed_history :: "pystr \<Rightarrow> nat prog" where
  "seed_history now_iso =
     thenP (aws (BatchPut HistoryTable (map (seed_history_row now_iso) snapshot_v7))) (ret (length snapshot_v7))"

definition seed_main :: "int prog" where
  "seed_main =
     bindP now_us (\<lambda>t.
     thenP (seed_employees (iso_z t)) (thenP (seed_dictionary (iso_z t)) (thenP (seed_history (iso_z t)) (ret 0))))"

section \<open>The run\<close>

definition poll_interval_sec :: nat where
  "poll_interval_sec = 20"

definition poll_max_retries :: nat where
  "poll_max_retries = 45"

definition expected_by_digit :: "(nat \<times> string) list" where
  "expected_by_digit =
     [(0, ''SAFE''), (1, ''SAFE''), (2, ''SAFE''), (3, ''INJURED''), (4, ''INJURED''), (5, ''UNAVAILABLE''),
      (6, ''UNAVAILABLE''), (7, ''UNREACHABLE''), (8, ''UNREACHABLE''), (9, ''UNREACHABLE'')]"

definition expected_recording_digits :: "nat list" where
  "expected_recording_digits = [0, 1, 2, 3, 4, 5, 6, 9]"

definition expected_no_recording_digits :: "nat list" where
  "expected_no_recording_digits = [7, 8]"

text \<open>
  The event of the invocation; \<open>body\<close> is \<open>json.dumps\<close> of the request's body, and \<open>idempotency_key\<close> has the time
  of the run in it.
\<close>

definition cycle_api_event :: "pystr \<Rightarrow> pystr \<Rightarrow> pydict" where
  "cycle_api_event body idempotency_key =
     [(str ''httpMethod'', PStr (str ''POST'')), (str ''resource'', PStr (str ''/cycles'')), (str ''path'', PStr (str ''/cycles'')),
      (str ''body'', PStr body),
      (str ''headers'', PDict [(str ''Idempotency-Key'', PStr idempotency_key),
         (str ''Content-Type'', PStr (str ''application/json''))]),
      (str ''pathParameters'', PNone),
      (str ''requestContext'', PDict [(str ''authorizer'', PDict [(str ''claims'', PDict
         [(str ''sub'', PStr (str ''phase16-5-script''))])])])]"

definition accepted_status :: "pyval \<Rightarrow> bool" where
  "accepted_status v = (case v of
     PInt i \<Rightarrow> i \<in> {200, 201, 202}
   | PFloat r \<Rightarrow> r \<in> {200, 201, 202}
   | PDec r \<Rightarrow> r \<in> {200, 201, 202}
   | _ \<Rightarrow> False)"

text \<open>\<open>loads\<close> is \<open>json.loads\<close>; the answer's payload is read and parsed before \<open>FunctionError\<close> is looked at.\<close>

definition loaded_json :: "(pyval \<Rightarrow> pyval option) \<Rightarrow> pyval \<Rightarrow> pyval res" where
  "loaded_json loads v = (case loads v of None \<Rightarrow> Inl ValueError | Some x \<Rightarrow> Inr x)"

definition started_cycle_id :: "(pyval \<Rightarrow> pyval option) \<Rightarrow> pydict \<Rightarrow> pyval res" where
  "started_cycle_id loads resp =
     bind_res (dindex resp ''Payload'') (\<lambda>raw.
     bind_res (loaded_json loads raw) (\<lambda>payload.
     if has_key resp ''FunctionError'' then Inl RuntimeError
     else
       bind_res (vget_or payload ''statusCode'' PNone) (\<lambda>inner_status.
       if \<not> accepted_status inner_status then Inl RuntimeError
       else
         bind_res (dindex (items_of payload) ''body'') (\<lambda>body.
         bind_res (loaded_json loads body) (\<lambda>body_obj.
         case body_obj of
           PDict d \<Rightarrow> dindex d ''cycleId''
         | _ \<Rightarrow> Inl TypeError)))))"

definition invoke_cycle_api :: "(pyval \<Rightarrow> pyval option) \<Rightarrow> pystr \<Rightarrow> pystr \<Rightarrow> pyval prog" where
  "invoke_cycle_api loads body idempotency_key =
     bindP (aws (InvokeFunction (cycle_api_event body idempotency_key))) (\<lambda>resp.
       lift (started_cycle_id loads (items_of resp)))"

definition ended_statuses :: "string list" where
  "ended_statuses = [''SUCCEEDED'', ''FAILED'', ''TIMED_OUT'', ''ABORTED'']"

text \<open>Any exception of the call is printed, and the loop goes on; the answer's missing \<open>status\<close> is not caught.\<close>

fun poll_execution :: "nat \<Rightarrow> pystr \<Rightarrow> pydict prog" where
  "poll_execution 0 arn = raise TimeoutError"
| "poll_execution (Suc n) arn =
     thenP (py_sleep (of_nat poll_interval_sec))
     (bindP (catchP (bindP (aws (DescribeExecution arn)) (\<lambda>resp. ret (Some (items_of resp)))) (\<lambda>e. ret None)) (\<lambda>r.
       case r of
         None \<Rightarrow> poll_execution n arn
       | Some resp \<Rightarrow>
           bindP (lift (dindex resp ''status'')) (\<lambda>status.
             if is_one_of status ended_statuses then ret resp else poll_execution n arn)))"

definition poll_sfn :: "pystr \<Rightarrow> pydict prog" where
  "poll_sfn execution_arn = poll_execution poll_max_retries execution_arn"

text \<open>One page of each listing; a later response of the same employee replaces the earlier one.\<close>

record verify_result =
  vr_cycle :: pydict
  vr_responses :: "(pyval \<times> pydict) list"
  vr_recording_keys :: "pyval list"
  vr_transcript_keys :: "pyval list"

definition listed_keys :: "pyval \<Rightarrow> pyval list res" where
  "listed_keys resp =
     map_res (\<lambda>obj. dindex (items_of obj) ''Key'') (elems_of (dget_or (items_of resp) ''Contents'' (PList [])))"

definition verify_cycle :: "(pyval \<Rightarrow> pystr) \<Rightarrow> pyval \<Rightarrow> verify_result prog" where
  "verify_cycle shown cycle_id =
     bindP (aws (GetItem CycleTable [(str ''cycleId'', cycle_id)])) (\<lambda>cycle_resp.
     bindP (aws (Query ResponseTable None ''cycleId'' cycle_id True None PNone)) (\<lambda>resp_query.
     bindP (lift (map_res (\<lambda>r. bind_res (dindex r ''employeeId'') (\<lambda>e. Inr (e, r))) (page_items resp_query))) (\<lambda>by_emp.
     bindP (aws (ListObjects ''recordings'' (str ''recordings/'' @ shown cycle_id @ str ''/''))) (\<lambda>rec_resp.
     bindP (lift (listed_keys rec_resp)) (\<lambda>rec_keys.
     bindP (aws (ListObjects ''transcripts'' (str ''outbound/'' @ shown cycle_id @ str ''/''))) (\<lambda>tr_resp.
     bindP (lift (listed_keys tr_resp)) (\<lambda>tr_keys.
       ret \<lparr>vr_cycle = items_of (dget_or (items_of cycle_resp) ''Item'' (PDict [])), vr_responses = rev by_emp,
         vr_recording_keys = rec_keys, vr_transcript_keys = tr_keys\<rparr>)))))))"

definition response_of :: "(pyval \<times> pydict) list \<Rightarrow> nat \<Rightarrow> pydict" where
  "response_of responses digit = (case map_of responses (PStr (seed_id digit)) of None \<Rightarrow> [] | Some r \<Rightarrow> r)"

definition digit_ok :: "(pyval \<times> pydict) list \<Rightarrow> nat \<times> string \<Rightarrow> bool" where
  "digit_ok responses de \<longleftrightarrow>
     dget_or (response_of responses (fst de)) ''voiceStatus'' (PStr (str ''<missing>'')) = PStr (str (snd de))"

record match_summary =
  ms_ok :: nat
  ms_ng :: nat
  ms_cycle_status :: pyval
  ms_recordings :: nat
  ms_transcripts :: nat

definition match_expectations :: "verify_result \<Rightarrow> match_summary" where
  "match_expectations v =
     \<lparr>ms_ok = length (filter (digit_ok (vr_responses v)) expected_by_digit),
      ms_ng = length (filter (\<lambda>de. \<not> digit_ok (vr_responses v) de) expected_by_digit),
      ms_cycle_status = dget (vr_cycle v) ''status'', ms_recordings = length (vr_recording_keys v),
      ms_transcripts = length (vr_transcript_keys v)\<rparr>"

definition verdict :: "match_summary \<Rightarrow> int" where
  "verdict m = (if ms_ng m = 0 \<and> ms_cycle_status m = PStr (str ''COMPLETED'') then 0 else 1)"

text \<open>
  \<open>existing\<close> is the environment variable \<open>CYCLE_ID\<close>, empty when unset; \<open>shown\<close> is the text of a value in an
  f-string.
\<close>

definition e2e_main :: "(pyval \<Rightarrow> pyval option) \<Rightarrow> (pyval \<Rightarrow> pystr) \<Rightarrow> pystr \<Rightarrow> pystr \<Rightarrow> pystr \<Rightarrow> pystr \<Rightarrow> int prog" where
  "e2e_main loads shown body idempotency_key arn_prefix existing =
     bindP (if existing \<noteq> [] then ret (PStr existing) else invoke_cycle_api loads body idempotency_key) (\<lambda>cycle_id.
     bindP (poll_sfn (arn_prefix @ str ''cycle-'' @ shown cycle_id)) (\<lambda>sfn_result.
     bindP (lift (dindex sfn_result ''status'')) (\<lambda>sfn_status.
     bindP (verify_cycle shown cycle_id) (\<lambda>verify_result.
       ret (verdict (match_expectations verify_result))))))"

section \<open>Facts\<close>

text \<open>The polls of a trace.\<close>

definition is_poll :: "req \<Rightarrow> bool" where
  "is_poll q \<longleftrightarrow> (\<exists>arn. q = DescribeExecution arn)"

definition polls :: "io list \<Rightarrow> nat" where
  "polls tr = length (filter is_poll (calls tr))"

lemma polls_simps [simp]:
  "polls [] = 0" "polls (xs @ ys) = polls xs + polls ys" "polls (EnvEv e n # tr) = polls tr"
  "polls (CallEv (Sleep d) a # tr) = polls tr" "polls (CallEv (DescribeExecution arn) a # tr) = Suc (polls tr)"
  by (simp_all add: polls_def is_poll_def)

lemma exec_poll_execution:
  "exec (poll_execution n arn) tr r \<Longrightarrow> polls tr \<le> n \<and>
    (case r of Inr resp \<Rightarrow> is_one_of (dget resp ''status'') ended_statuses
     | Inl e \<Rightarrow> e = KeyError \<or> e = TimeoutError \<and> polls tr = n)"
proof (induction n arbitrary: tr)
  case (Suc n)
  obtain a tr1 where tr: "tr = CallEv (Sleep (of_nat poll_interval_sec)) a # tr1"
    and e: "exec (bindP (catchP (bindP (aws (DescribeExecution arn)) (\<lambda>resp. ret (Some (items_of resp)))) (\<lambda>e. ret None)) (\<lambda>r.
       case r of
         None \<Rightarrow> poll_execution n arn
       | Some resp \<Rightarrow>
           bindP (lift (dindex resp ''status'')) (\<lambda>status.
             if is_one_of status ended_statuses then ret resp else poll_execution n arn))) tr1 r"
    using Suc.prems by (auto simp: py_sleep_def exec_Call)
  have "(\<exists>c tr2. tr1 = CallEv (DescribeExecution arn) (Inl c) # tr2 \<and> exec (poll_execution n arn) tr2 r) \<or>
      (\<exists>v tr2. tr1 = CallEv (DescribeExecution arn) (Inr v) # tr2 \<and>
        exec (bindP (lift (dindex (items_of v) ''status'')) (\<lambda>status.
             if is_one_of status ended_statuses then ret (items_of v) else poll_execution n arn)) tr2 r)"
    using e by (auto simp: exec_bindP [of "catchP p h" for p h] exec_catchP exec_bindP [of "aws q" for q] exec_aws)
  then show ?case
  proof (elim disjE exE conjE)
    fix c tr2
    assume "tr1 = CallEv (DescribeExecution arn) (Inl c) # tr2" "exec (poll_execution n arn) tr2 r"
    then show ?thesis using Suc.IH [of tr2] by (auto simp: tr split: sum.splits)
  next
    fix v tr2
    assume t: "tr1 = CallEv (DescribeExecution arn) (Inr v) # tr2"
      and rest: "exec (bindP (lift (dindex (items_of v) ''status'')) (\<lambda>status.
             if is_one_of status ended_statuses then ret (items_of v) else poll_execution n arn)) tr2 r"
    show ?thesis
    proof (cases "dfind (items_of v) ''status''")
      case None
      then show ?thesis using rest by (auto simp: tr t dindex_def)
    next
      case s: (Some st)
      show ?thesis
      proof (cases "is_one_of st ended_statuses")
        case True
        then show ?thesis using rest s by (auto simp: tr t dindex_def dget_def)
      next
        case False
        then show ?thesis using Suc.IH [of tr2] rest s by (auto simp: tr t dindex_def split: sum.splits)
      qed
    qed
  qed
qed auto

text \<open>\<open>str.lower\<close> leaves lower-case Latin letters, kana and CJK ideographs alone.\<close>

definition caseless :: "pystr \<Rightarrow> bool" where
  "caseless s \<longleftrightarrow> list_all (\<lambda>c. 97 \<le> c \<and> c \<le> 122 \<or> 12352 \<le> c \<and> c \<le> 40959) s"

abbreviation seeded_dictionary :: "pystr \<Rightarrow> pyval" where
  "seeded_dictionary now_iso \<equiv> PDict (to_snapshot (map (seed_history_row now_iso) snapshot_v7))"

lemma seeded_keywords:
  "to_snapshot (map (seed_history_row now_iso) snapshot_v7) =
     [(str ''SAFE'', PList (map PStr [[97], [100], [22823, 19976, 22827], [28961, 20107]])),
      (str ''INJURED'', PList (map PStr [[100], [118], [24618, 25105], [30171, 12356]])),
      (str ''UNAVAILABLE'', PList (map PStr [[100], [118], [20986, 31038, 19981, 21487], [21205, 12369]]))]"
proof -
  have "str ''a'' = [97]" "str ''d'' = [100]" "str ''v'' = [118]" by (simp_all add: str_def)
  then show ?thesis
    by (simp add: to_snapshot_def snapshot_add_def valid_categories_def Let_def snapshot_v7_def new_keywords_def
      seed_history_row_def sort_by_def)
qed

lemma seed_response:
  assumes "d < 10"
  shows "derive_mock_response digest0 (PStr (seed_id d)) = Inr (mock_digit d)"
proof -
  have "seed_id d = str ''EMP-000'' @ [48 + d]" using assms by (simp add: seed_id_def nat_str.simps [of d])
  then show ?thesis using assms by (simp add: derive_mock_response_def is_ascii_digit_def)
qed

text \<open>The status a seeded employee gets from the mock call, when nobody else answers for him.\<close>

definition mock_outcome :: "(pystr \<Rightarrow> pystr) \<Rightarrow> (pystr \<Rightarrow> nat) \<Rightarrow> pystr \<Rightarrow> nat \<Rightarrow> pyval res" where
  "mock_outcome lower digest0 now_iso d =
     bind_res (derive_mock_response digest0 (PStr (seed_id d))) (\<lambda>(code, transcript).
     bind_res (case transcript of
         None \<Rightarrow> Inr ''PENDING''
       | Some t \<Rightarrow> bind_res (classify_voice_status lower (PStr t) (seeded_dictionary now_iso)) (\<lambda>(st, kws). Inr st)) (\<lambda>st.
       derive_final_status (PStr (str st))))"

lemma mock_transcript_status:
  assumes low: "\<And>s. caseless s \<Longrightarrow> lower s = s" and "d < 10" and "mock_digit d = (code, Some t)"
  shows "\<exists>kws. classify_voice_status lower (PStr t) (seeded_dictionary now_iso) =
    Inr (if d \<le> 2 then ''SAFE'' else if d \<le> 4 then ''INJURED'' else if d \<le> 6 then ''UNAVAILABLE'' else ''OTHER'', kws)"
proof -
  have "d \<in> {0, 1, 2, 3, 4, 5, 6, 7, 8, 9}" using assms(2) by auto
  then show ?thesis using assms(3)
    by (elim insertE; (simp add: mock_digit_def mock_buji_def)?)
      (auto simp: classify_voice_status_def seeded_keywords priority_order_def low caseless_def)
qed

section \<open>Properties\<close>

text \<open>
  Property C38. The mock run expects what the system does: for every seeded employee, the mock response chosen by
  its last digit, classified with the seeded dictionary and made final as after the last attempt, is the
  status of the table of expectations, and the digits without a recording are the listed ones.
\<close>

theorem mock_run_expectations:
  assumes "\<And>s. caseless s \<Longrightarrow> lower s = s" and "(d, e) \<in> set expected_by_digit"
  shows "mock_outcome lower digest0 now_iso d = Inr (PStr (str e)) \<and>
    (\<exists>code t. derive_mock_response digest0 (PStr (seed_id d)) = Inr (code, t) \<and>
       (t = None \<longleftrightarrow> d \<in> set expected_no_recording_digits) \<and> (t \<noteq> None \<longleftrightarrow> d \<in> set expected_recording_digits))"
proof -
  have d: "d < 10" using assms(2) by (auto simp: expected_by_digit_def)
  obtain code t where m: "mock_digit d = (code, t)" by force
  have n: "t = None \<longleftrightarrow> d \<in> {7, 8}" using m d by (auto simp: mock_digit_def split: if_splits)
  have "mock_outcome lower digest0 now_iso d = Inr (PStr (str e))"
  proof (cases t)
    case None
    then show ?thesis using n m assms(2)
      by (auto simp: mock_outcome_def seed_response [OF d] expected_by_digit_def derive_final_status_def
          valid_voice_statuses_def confirmed_statuses_def)
  next
    case (Some x)
    with n have "d \<notin> {7, 8}" by simp
    with mock_transcript_status [OF assms(1) d, of code x now_iso] m Some assms(2) show ?thesis
      by (auto simp: mock_outcome_def seed_response [OF d] expected_by_digit_def derive_final_status_def
          valid_voice_statuses_def confirmed_statuses_def)
  qed
  then show ?thesis using n m d
    by (auto simp: seed_response [OF d] expected_no_recording_digits_def expected_recording_digits_def)
qed

theorem mock_run_expectations_witness:
  "mock_outcome (\<lambda>s. s) (\<lambda>_. 0) [] 9 = Inr (PStr (str ''UNREACHABLE'')) \<and> 9 \<in> set expected_recording_digits"
  using mock_run_expectations [of "\<lambda>s. s" 9 "''UNREACHABLE''" "\<lambda>_. 0" "[]"]
  by (simp add: expected_by_digit_def expected_recording_digits_def)

text \<open>
  The wait for an execution ends: it polls at most 45 times, returns only an answer with a final status, and
  gives up with \<open>TimeoutError\<close> after exactly 45 polls (or raises when an answer has no status).
\<close>

theorem wait_is_bounded:
  assumes "exec (poll_sfn arn) tr r"
  shows "polls tr \<le> 45 \<and>
    (case r of Inr resp \<Rightarrow> is_one_of (dget resp ''status'') ended_statuses
     | Inl e \<Rightarrow> e = KeyError \<or> e = TimeoutError \<and> polls tr = 45)"
  using exec_poll_execution [OF assms [unfolded poll_sfn_def]] by (simp add: poll_max_retries_def split: sum.splits)

text \<open>The script succeeds exactly when the cycle is completed and every digit has its expected status.\<close>

theorem verdict_iff:
  "verdict (match_expectations v) = 0 \<longleftrightarrow>
     dget (vr_cycle v) ''status'' = PStr (str ''COMPLETED'') \<and> list_all (digit_ok (vr_responses v)) expected_by_digit"
  by (auto simp: verdict_def match_expectations_def filter_empty_conv list_all_iff)

end
