(* ===== verification/Spec2Isabelle.thy ===== *)
theory Spec2Isabelle
  imports Call_Result Finalize Auth_Audit Cycle_Finalizer Dictionary Keyword Recording_Keys Load_Targets Cycle_Api
    Inbound_Handler Call_End Keyword_Handler Transcribe_Starter Cycle_Execution Concurrency Lockout Recording_Lambdas
    Import_Facts Response_Api Migration Dev_Scripts
begin

text \<open>
  A model of the backend of EmergencyContact, a safety-confirmation system on AWS: an operator starts a
  \<^emph>\<open>cycle\<close>, a state machine calls every targeted employee through Amazon Connect, the recordings are
  transcribed and matched against a keyword dictionary, unanswered calls are repeated, employees may call
  back, and the cycle is completed or timed out. The sources are the Python Lambdas under
  \<open>src/backend/lambdas\<close>, the pure modules under \<open>src/backend/shared\<close> and the state machine under
  \<open>src/infrastructure/state-machines\<close>.

  \<^bold>\<open>How the code is represented.\<close> JSON and DynamoDB data are values of \<open>pyval\<close> (theory Prelude), a
  Python \<open>str\<close> is the list of its code points, a \<open>dict\<close> the list of its items, a \<open>datetime\<close> a number of
  microseconds (Py_Time, Py_Iso), a float the exact rational it stands for. An exception is the left side
  of a sum; only its class and, for a boto3 \<open>ClientError\<close>, its error code are kept, never the message. A
  Lambda is a program over requests (Effects): it issues a request and goes on with the answer, or reads
  the clock, the random source or a UUID. \<open>exec\<close> ranges over every answer the services can give;
  \<open>run\<close> runs a program against a service given as an argument; \<open>all_calls\<close> bounds the requests a
  program can issue. What is assumed of DynamoDB is the locale \<open>dynamodb\<close> of theory Ddb, its documented
  conditional writes to one row, with \<open>dynamodb_query\<close> and \<open>dynamodb_scan\<close> for pagination followed to the
  last page, \<open>dynamodb_index\<close> for the first page of an index, \<open>dynamodb_transact\<close> for transactions and
  \<open>dynamodb_prefix\<close> for ranges of the sort key; all six are interpreted on an in-memory store, on which the handlers are run in the witnesses.

  \<^bold>\<open>Which theory models what.\<close>
  \<^item> Prelude, Py_Text, Py_Time, Py_Iso, Iso_Order: the Python primitives the code uses (dictionaries,
    truth, \<open>isinstance\<close>, \<open>int()\<close>, \<open>strip\<close>, \<open>split\<close>, \<open>re\<close> classes, \<open>fromisoformat\<close>, \<open>isoformat\<close>, the order of
    timestamps as strings).
  \<^item> Retry: \<open>shared/retry/evaluator.py\<close> and the Lambda \<open>retry_evaluator\<close>.
  \<^item> Call_Result: \<open>shared/connect/call_result.py\<close>, the classification of a call's outcome.
  \<^item> Connect: \<open>shared/connect/backoff.py\<close>, \<open>mock.py\<close> and the retry loop of three Lambdas, with the shapes
    of its traces. Dispatch: \<open>connect_dispatcher\<close>. Call_End: \<open>call_end_handler\<close>.
  \<^item> Finalize: \<open>shared/cycle\<close>, the predicates on the Response rows of a cycle. Cycle_Finalizer: the
    Lambda \<open>cycle_finalizer\<close> with its three triggers.
  \<^item> Validation: \<open>shared/validation\<close> and \<open>shared/employee\<close> (numbers, names, visibility, duplicates).
    Auth_Audit: \<open>shared/auth\<close>, \<open>shared/audit\<close>, \<open>shared/api\<close>.
  \<^item> Keyword: \<open>shared/keyword\<close>. Dictionary: \<open>shared/dictionary\<close> and \<open>dictionary_api\<close>. Keyword_Handler:
    \<open>keyword_matcher\<close>. Recording_Keys: \<open>shared/recording\<close>. Transcribe_Starter: \<open>transcribe_starter\<close>.
  \<^item> Load_Targets: \<open>load_targets\<close>. Cycle_Api: \<open>cycle_api\<close>. Inbound: \<open>shared/inbound\<close>. Inbound_Handler:
    \<open>inbound_handler\<close>.
  \<^item> Recording_Lambdas: \<open>recording_relocator\<close>, \<open>recording_metadata_writer\<close>, \<open>recording_api\<close>. Lockout: the
    Cognito triggers \<open>auth_pre_auth\<close>, \<open>auth_post_auth\<close>, \<open>auth_pre_signup\<close> and \<open>auth_failure_reporter\<close>.
  \<^item> Py_Bytes: bytes, UTF-8, base 64. Csv_Reader: the reader of the module \<open>csv\<close>. Sha256: SHA-256 and HMAC.
    Employee_Csv: \<open>shared/employee/csv_parser.py\<close> and \<open>csv_constraints.py\<close>. Crypto: \<open>shared/crypto\<close> and
    \<open>shared/privacy\<close>. Employee_Api: the Lambda \<open>employee_api\<close>, with its properties in Employee_Facts (types,
    sizes, guards, deletion), Anonymize_Facts (pseudonyms), Employee_Flow (from the form to the call) and
    Import_Facts. Response_Api: \<open>response_api\<close>.
  \<^item> Migration: \<open>src/scripts/migrate_encrypt_employees.py\<close>. Dev_Scripts: the two scripts under
    \<open>src/infrastructure/scripts\<close> that seed and check a mock run.
  \<^item> State_Machine: one iteration of the state machine's map as a step relation. Cycle_Execution: the
    outer states around the iterations, which interleave under \<open>MaxConcurrency\<close>. Concurrency: two Lambda
    invocations whose requests interleave. This theory: what spans the state machine and the finalizer.

  \<^bold>\<open>What the lemmas show.\<close> Invariants of the tables under a handler's requests: a cycle that left
  \<open>RUNNING\<close> and an answered Response are never overwritten by the finalizer, the first outcome of a call
  stands, transcription changes a row in one way only, a callback keeps the attempts. The functional
  behaviour of the handlers on every branch: what a start of a cycle writes for each answer it gives, what
  the timeout leaves behind, whom \<open>load_targets\<close> selects, which status a transcript gives. Bounds and
  termination: dials, sleeps, iterations of the state machine, pages. Equivalence and refinement:
  completion against the count of pending rows, the selection of an inbound cycle by strings against the
  selection by instants. Round trips of the recording keys. And the flaws the model shows: concurrent
  starts, a late answer that is lost, a failed iteration and an empty list of targets that strand their
  cycle, a failed start that makes every registered caller's call fail, a refused create that leaves the dictionary empty, a later outcome
  that is dropped, a fallback that overwrites an answer, links to recordings that do not exist. Reported
  failures lock an account and a sign-in unlocks it; a recording is never deleted before its copy and
  registered once. A CSV file is imported as a whole or not at all, and an import writes what it answers; a
  pseudonymisation moves exactly the rows of its employee; a deleted employee is out of every cycle and route;
  transactions keep within their limit and their items are well typed; what is encrypted can be decrypted. And
  three more flaws: with encryption on, the state machine is given the envelope of a number to dial; a
  deletion makes the deletion of the Cognito user impossible; the duplicate check reads one page. The migration
  of old rows to encryption seals each once when every row has a name, and the expectations of the mock run
  are what the matcher makes of its dictionary.

  \<^bold>\<open>Bounds and fuel.\<close> The only loops without a bound in the code follow \<open>LastEvaluatedKey\<close> or drain
  \<open>UnprocessedKeys\<close>; they take a fuel and end in \<open>PageLimit\<close> when it is used up, after that many requests
  (\<open>pages_limit\<close>). No branch of the code has that exception, and no property is about runs that end in
  it. All other loops are over lists and are structural.

  \<^bold>\<open>Parameters.\<close> \<open>loads\<close> (\<open>json.loads\<close>), \<open>lower\<close> (\<open>str.lower\<close>), \<open>show\<close> and \<open>show_value\<close> (the text of
  floats and containers), \<open>digest0\<close> (the first byte of a SHA-256), AES-GCM and \<open>json.loads\<close> of an envelope
  (\<open>cipher\<close>), the data key a warm container has cached, the texts of CSV errors.

  \<^bold>\<open>Not modelled.\<close> Log lines and the texts of error messages; the client-side parameter validation of
  boto3; rounding of floats; the retries of boto3 and the delay of indexes; the frontend, the templates
  and the shell scripts.
\<close>

section \<open>The end of a cycle\<close>


lemma stranded_step:
  "\<exists>i j. iter_step sample_im i j \<and> it_state i = FinalizeOneError \<and> it_state j = IterationEnd \<and> it_row j = Some stranded_row"
proof -
  let ?i = "(iteration_start None)\<lparr>it_state := FinalizeOneError\<rparr>"
  have w: "write_row (finalize_error_update sample_im []) (it_row ?i) = Some (Some stranded_row)"
    by (simp add: finalize_error_update_def iteration_start_def iteration_key_def response_key_def sample_im_def
        norm_row_def stranded_row_def)
  have "iter_step sample_im ?i (?i\<lparr>it_state := IterationEnd, it_row := Some stranded_row\<rparr>)"
    by (rule error_written [OF _ w]) simp
  then show ?thesis by (intro exI conjI) (assumption, simp_all)
qed


end
